(* ===== verification/Prelude.thy ===== *)
theory Prelude
  imports Main "HOL-Library.Word"
begin

text \<open>
  Shared vocabulary of the development: the machine integers and byte strings of the C++ code,
  checked memory accesses (a write or a read past the end of a buffer is \<open>None\<close>, undefined
  behaviour), the narrowing conversion to a 32-bit \<open>int\<close>, C strings, decimal printing
  (\<open>std::to_string\<close>) and the big-endian view of a 32-bit word. The lemma collections
  \<open>mem_simps\<close> and \<open>wire_simps\<close> carry the proofs about buffers and about the wire format.
\<close>

unbundle bit_operations_syntax

named_theorems mem_simps
named_theorems wire_simps

type_synonym u8 = "8 word"
type_synonym u16 = "16 word"
type_synonym u32 = "32 word"
type_synonym u64 = "64 word"

section \<open>Narrowing conversions\<close>

text \<open>Conversion of a wider integer to a 32-bit two's complement \<open>int\<close> (modulo \<open>2 ^ 32\<close>).\<close>

definition to_int32 :: "int \<Rightarrow> int" where
  "to_int32 k = (k + 2147483648) mod 4294967296 - 2147483648"

text \<open>Conversion of a signed value to an unsigned 64-bit \<open>size_t\<close>.\<close>

definition to_size_t :: "int \<Rightarrow> nat" where
  "to_size_t k = nat (k mod 18446744073709551616)"

lemma to_int32_id: "- 2147483648 \<le> k \<Longrightarrow> k < 2147483648 \<Longrightarrow> to_int32 k = k"
  by (simp add: to_int32_def)

lemma to_int32_range: "- 2147483648 \<le> to_int32 k \<and> to_int32 k < 2147483648"
  by (simp add: to_int32_def pos_mod_bound)

lemma to_size_t_nonneg: "0 \<le> k \<Longrightarrow> k < 18446744073709551616 \<Longrightarrow> to_size_t k = nat k"
  by (simp add: to_size_t_def)

lemma to_size_t_bound: "to_size_t k < 18446744073709551616"
  by (simp add: to_size_t_def nat_less_iff)

lemma to_size_t_neg:
  "k < 0 \<Longrightarrow> - 2147483648 \<le> k \<Longrightarrow> to_size_t k = nat (k + 18446744073709551616)"
  using mod_pos_pos_trivial [of "k + 18446744073709551616" 18446744073709551616]
  by (simp add: to_size_t_def)

section \<open>Checked memory accesses\<close>

text \<open>
  A buffer is the list of its cells. \<open>write_at buf off xs\<close> stores \<open>xs\<close> from offset \<open>off\<close>;
  storing past the end is undefined behaviour in C++ and \<open>None\<close> here. \<open>read_at\<close> likewise.
\<close>

definition write_at :: "'a list \<Rightarrow> nat \<Rightarrow> 'a list \<Rightarrow> 'a list option" where
  "write_at buf off xs =
     (if off + length xs \<le> length buf
      then Some (take off buf @ xs @ drop (off + length xs) buf) else None)"

definition read_at :: "'a list \<Rightarrow> nat \<Rightarrow> nat \<Rightarrow> 'a list option" where
  "read_at buf off n = (if off + n \<le> length buf then Some (take n (drop off buf)) else None)"

lemma write_at_Some_iff:
  "write_at buf off xs = Some buf' \<longleftrightarrow>
     off + length xs \<le> length buf \<and> buf' = take off buf @ xs @ drop (off + length xs) buf"
  by (auto simp: write_at_def)

lemma write_at_None_iff: "write_at buf off xs = None \<longleftrightarrow> length buf < off + length xs"
  by (auto simp: write_at_def)

lemma read_at_Some_iff:
  "read_at buf off n = Some xs \<longleftrightarrow> off + n \<le> length buf \<and> xs = take n (drop off buf)"
  by (auto simp: read_at_def)

lemma read_at_None_iff: "read_at buf off n = None \<longleftrightarrow> length buf < off + n"
  by (auto simp: read_at_def)

lemma write_at_length: "write_at buf off xs = Some buf' \<Longrightarrow> length buf' = length buf"
  by (auto simp: write_at_Some_iff)

declare write_at_Some_iff [mem_simps] read_at_Some_iff [mem_simps]
  write_at_None_iff [mem_simps] read_at_None_iff [mem_simps]

section \<open>C strings and decimal numbers\<close>

text \<open>The string a \<open>const char *\<close> denotes: the characters before the first NUL.\<close>

definition c_str :: "string \<Rightarrow> string" where
  "c_str s = takeWhile (\<lambda>c. c \<noteq> CHR 0x00) s"

lemma c_str_id: "CHR 0x00 \<notin> set s \<Longrightarrow> c_str s = s"
  by (induction s) (auto simp: c_str_def)

lemma c_str_append: "CHR 0x00 \<notin> set s \<Longrightarrow> c_str (s @ CHR 0x00 # t) = s"
  by (induction s) (auto simp: c_str_def)

lemma c_str_no_nul: "CHR 0x00 \<notin> set (c_str s)"
  by (auto simp: c_str_def dest: set_takeWhileD)

definition digit_char :: "nat \<Rightarrow> char" where
  "digit_char d = char_of (48 + d)"

definition digit_val :: "char \<Rightarrow> nat option" where
  "digit_val c = (let n = of_char c in if 48 \<le> n \<and> n \<le> (57::nat) then Some (n - 48) else None)"

lemma of_char_digit: "d < 10 \<Longrightarrow> of_char (digit_char d) = (48 + d :: nat)"
  by (simp add: digit_char_def)

lemma digit_val_char: "d < 10 \<Longrightarrow> digit_val (digit_char d) = Some d"
  by (simp add: digit_val_def of_char_digit)

text \<open>\<open>std::to_string\<close> of a non-negative integer.\<close>

fun to_string :: "nat \<Rightarrow> string" where
  "to_string n = (if n < 10 then [digit_char n] else to_string (n div 10) @ [digit_char (n mod 10)])"

declare to_string.simps [simp del]

text \<open>The value of a string of decimal digits, from the left with an accumulator.\<close>

fun dec_val :: "nat \<Rightarrow> string \<Rightarrow> nat option" where
  "dec_val acc [] = Some acc"
| "dec_val acc (c # cs) =
     (case digit_val c of None \<Rightarrow> None | Some d \<Rightarrow> dec_val (10 * acc + d) cs)"

lemma dec_val_append:
  "dec_val acc (s @ t) = (case dec_val acc s of None \<Rightarrow> None | Some m \<Rightarrow> dec_val m t)"
  by (induction s arbitrary: acc) (auto split: option.splits)

lemma to_string_nonempty: "to_string n \<noteq> []"
  by (subst to_string.simps) simp

lemma dec_val_to_string: "dec_val 0 (to_string n) = Some n"
proof (induction n rule: to_string.induct)
  case (1 n)
  then show ?case
    by (cases "n < 10")
       (simp_all add: to_string.simps [of n] dec_val_append digit_val_char)
qed

lemma length_to_string: "n < 10 ^ Suc d \<Longrightarrow> length (to_string n) \<le> Suc d"
proof (induction d arbitrary: n)
  case (Suc d)
  show ?case
  proof (cases "n < 10")
    case False
    have "n div 10 < 10 ^ Suc d" using Suc.prems by (simp add: less_mult_imp_div_less)
    from Suc.IH [OF this] False show ?thesis by (simp add: to_string.simps [of n])
  qed (simp add: to_string.simps [of n])
next
  case 0
  then show ?case by (simp add: to_string.simps [of n])
qed

lemma to_string_inj: "to_string m = to_string n \<Longrightarrow> m = n"
  by (metis dec_val_to_string option.inject)

lemma to_string_digits: "c \<in> set (to_string n) \<Longrightarrow> \<exists>d<10. c = digit_char d"
proof (induction n rule: to_string.induct)
  case (1 n)
  show ?case
  proof (cases "n < 10")
    case True
    with "1.prems" show ?thesis by (auto simp: to_string.simps [of n])
  next
    case False
    with "1.prems" have "c \<in> set (to_string (n div 10)) \<or> c = digit_char (n mod 10)"
      by (auto simp: to_string.simps [of n])
    moreover have "n mod 10 < 10" by simp
    ultimately show ?thesis using "1.IH" [OF False] by blast
  qed
qed

lemma to_string_digit_codes: "c \<in> set (to_string n) \<Longrightarrow> 48 \<le> (of_char c :: nat) \<and> of_char c \<le> (57::nat)"
  using to_string_digits [of c n] by (auto simp: of_char_digit)

text \<open>The decimal form of a signed integer (\<open>%d\<close>), and \<open>atoi\<close>, undefined when the value is no \<open>int\<close>.\<close>

definition dec_int :: "int \<Rightarrow> string" where
  "dec_int i = (if i < 0 then CHR ''-'' # to_string (nat (- i)) else to_string (nat i))"

definition is_space :: "char \<Rightarrow> bool" where
  "is_space c \<longleftrightarrow> c = CHR '' '' \<or> 9 \<le> (of_char c :: nat) \<and> of_char c \<le> (13 :: nat)"

fun split_sign :: "string \<Rightarrow> bool \<times> string" where
  "split_sign (c # cs) = (if c = CHR ''-'' then (True, cs) else if c = CHR ''+'' then (False, cs) else (False, c # cs))"
| "split_sign [] = (False, [])"

definition atoi :: "string \<Rightarrow> int option" where
  "atoi s =
     (let (negative, digits) = split_sign (dropWhile is_space (c_str s));
          n = int (the (dec_val 0 (takeWhile (\<lambda>c. digit_val c \<noteq> None) digits)));
          r = (if negative then - n else n)
      in if - 2147483648 \<le> r \<and> r < 2147483648 then Some r else None)"

lemma to_string_takeWhile: "takeWhile (\<lambda>c. digit_val c \<noteq> None) (to_string n) = to_string n"
  by (auto simp: takeWhile_eq_all_conv digit_val_char dest!: to_string_digits)

lemma to_string_plain: "CHR 0x00 \<notin> set (to_string n)" "CHR ''%'' \<notin> set (to_string n)"
  using to_string_digit_codes [of "CHR 0x00" n] to_string_digit_codes [of "CHR ''%''" n] by auto

lemma dec_int_percent: "CHR ''%'' \<notin> set (dec_int i)"
  using to_string_plain by (auto simp: dec_int_def)

lemma atoi_dec_int:
  assumes "- 2147483648 \<le> i" "i < 2147483648"
  shows "atoi (dec_int i) = Some i"
proof (cases "i < 0")
  case True
  let ?t = "to_string (nat (- i))"
  have "c_str (CHR ''-'' # ?t) = CHR ''-'' # ?t" by (rule c_str_id) (use to_string_plain in auto)
  with True assms show ?thesis
    by (simp add: atoi_def dec_int_def is_space_def to_string_takeWhile dec_val_to_string del: not_None_eq)
next
  case False
  let ?t = "to_string (nat i)"
  obtain c cs where t: "?t = c # cs" by (cases ?t) (simp_all add: to_string_nonempty)
  have code: "48 \<le> (of_char c :: nat) \<and> of_char c \<le> (57 :: nat)"
    by (rule to_string_digit_codes [of c "nat i"]) (simp add: t)
  have c: "\<not> is_space c" "c \<noteq> CHR ''-''" "c \<noteq> CHR ''+''"
    using code by (auto simp: is_space_def)
  have "c_str ?t = ?t" by (rule c_str_id) (rule to_string_plain)
  then have "split_sign (dropWhile is_space (c_str ?t)) = (False, ?t)" using c by (simp add: t)
  with False assms show ?thesis
    by (simp add: atoi_def dec_int_def to_string_takeWhile dec_val_to_string del: not_None_eq)
qed

section \<open>Big-endian bytes of a 32-bit word\<close>

definition be_bytes :: "u32 \<Rightarrow> u8 list" where
  "be_bytes w = [ucast (drop_bit 24 w), ucast (drop_bit 16 w), ucast (drop_bit 8 w), ucast w]"

definition of_be_bytes :: "u8 list \<Rightarrow> u32" where
  "of_be_bytes bs = fold (\<lambda>b acc. push_bit 8 acc OR ucast b) bs 0"

lemma length_be_bytes [simp]: "length (be_bytes w) = 4"
  by (simp add: be_bytes_def)

lemma be_bytes_nonempty [simp]: "be_bytes w \<noteq> []"
  by (simp add: be_bytes_def)

lemma byte_high_bits [simp]: "8 \<le> n \<Longrightarrow> \<not> bit (b :: u8) n"
  using bit_imp_le_length [of b n] by auto

lemma of_be_be [wire_simps]: "of_be_bytes (be_bytes w) = w"
proof (rule bit_word_eqI)
  fix n :: nat
  assume "n < LENGTH(32)"
  then consider "n < 8" | "8 \<le> n" "n < 16" | "16 \<le> n" "n < 24" | "24 \<le> n" "n < 32"
    by fastforce
  then show "bit (of_be_bytes (be_bytes w)) n \<longleftrightarrow> bit w n"
    by cases (auto simp: of_be_bytes_def be_bytes_def bit_simps)
qed

lemma be_of_be [wire_simps]: "length bs = 4 \<Longrightarrow> be_bytes (of_be_bytes bs) = bs"
proof -
  assume "length bs = 4"
  then obtain a b c d where "bs = [a, b, c, d]"
    by (auto simp: length_Suc_conv numeral_eq_Suc)
  then show ?thesis
    by (auto intro!: bit_word_eqI simp: of_be_bytes_def be_bytes_def bit_simps)
qed

lemma be_bytes_inj: "be_bytes v = be_bytes w \<Longrightarrow> v = w"
  by (metis of_be_be)

end
