(* ===== verification/Trace.thy ===== *)
theory Trace
  imports Prelude "HOL-Library.Monad_Syntax"
begin

text \<open>
  The tracing module (trace.h, trace.cpp, LinxTrace.h): the macros that a build compiles in at its
  \<open>TRACE_LEVEL\<close>, the functions behind them, and the initialisation from the \<open>LOG_LEVEL\<close> environment
  variable. The system log is modelled as far as \<open>syslog(3)\<close> documents it for these calls: a mask of
  priorities and the records that pass it, each with its priority, format and arguments.
\<close>

section \<open>Severities\<close>

datatype severity = SEVERITY_ERROR | SEVERITY_WARNING | SEVERITY_INFO | SEVERITY_DEBUG

fun severity_num :: "severity \<Rightarrow> int" where
  "severity_num SEVERITY_ERROR = 1"
| "severity_num SEVERITY_WARNING = 2"
| "severity_num SEVERITY_INFO = 3"
| "severity_num SEVERITY_DEBUG = 4"

lemma severity_num_inj: "severity_num s = severity_num t \<longleftrightarrow> s = t"
  by (cases s; cases t) simp_all

text \<open>Severities are ordered by their numbers: the more important ones are the smaller ones.\<close>

instantiation severity :: linorder
begin

definition less_eq_severity :: "severity \<Rightarrow> severity \<Rightarrow> bool" where
  "less_eq_severity s t \<longleftrightarrow> severity_num s \<le> severity_num t"

definition less_severity :: "severity \<Rightarrow> severity \<Rightarrow> bool" where
  "less_severity s t \<longleftrightarrow> severity_num s < severity_num t"

instance
  by standard (auto simp: less_eq_severity_def less_severity_def severity_num_inj)

end

text \<open>The syslog priorities \<open>LOG_ERR\<close>, \<open>LOG_WARNING\<close>, \<open>LOG_INFO\<close> and \<open>LOG_DEBUG\<close>.\<close>

definition severityMap :: "int \<rightharpoonup> nat" where
  "severityMap = [4 \<mapsto> 7, 3 \<mapsto> 6, 2 \<mapsto> 4, 1 \<mapsto> 3]"

section \<open>The system log\<close>

text \<open>
  What the program gives to \<open>vsyslog\<close>: a format and the arguments its conversions are applied to. The
  mask lets every priority pass until \<open>setlogmask\<close> is called.
\<close>

datatype trace_arg = ArgInt int | ArgStr string

record log_record =
  lg_priority :: nat
  lg_format :: string
  lg_args :: "trace_arg list"

record syslog_state =
  ls_open :: bool
  ls_mask :: int
  ls_records :: "log_record list"

definition syslog_start :: syslog_state where
  "syslog_start = \<lparr>ls_open = False, ls_mask = 255, ls_records = []\<rparr>"

definition LOG_UPTO :: "nat \<Rightarrow> int" where "LOG_UPTO p = 2 ^ (p + 1) - 1"

definition openlog :: "syslog_state \<Rightarrow> syslog_state" where
  "openlog st = st\<lparr>ls_open := True\<rparr>"

definition closelog :: "syslog_state \<Rightarrow> syslog_state" where
  "closelog st = st\<lparr>ls_open := False\<rparr>"

definition setlogmask :: "int \<Rightarrow> syslog_state \<Rightarrow> syslog_state" where
  "setlogmask m st = (if m = 0 then st else st\<lparr>ls_mask := m\<rparr>)"

definition vsyslog :: "nat \<Rightarrow> string \<Rightarrow> trace_arg list \<Rightarrow> syslog_state \<Rightarrow> syslog_state" where
  "vsyslog priority format args st =
     (if bit (ls_mask st) priority
      then st\<lparr>ls_records := ls_records st @ [\<lparr>lg_priority = priority, lg_format = format, lg_args = args\<rparr>]\<rparr>
      else st)"

section \<open>The functions of trace.cpp\<close>

text \<open>\<open>strrchr\<close>: the rest of the string from the last occurrence of the character.\<close>

fun strrchr :: "string \<Rightarrow> char \<Rightarrow> string option" where
  "strrchr [] c = None"
| "strrchr (x # xs) c =
     (case strrchr xs c of Some t \<Rightarrow> Some t | None \<Rightarrow> if x = c then Some (x # xs) else None)"

text \<open>\<open>snprintf\<close> of the text \<open>s\<close> into a buffer of \<open>n\<close> characters.\<close>

definition snprintf_text :: "nat \<Rightarrow> string \<Rightarrow> string" where
  "snprintf_text n s = take (n - 1) s"

text \<open>The text \<open>[tid=%d](%s:%d): %s\<close>.\<close>

definition trace_text :: "int \<Rightarrow> string \<Rightarrow> int \<Rightarrow> string \<Rightarrow> string" where
  "trace_text tid file lineNum format =
     ''[tid='' @ dec_int tid @ ''](''  @ file @ '':'' @ dec_int lineNum @ ''): '' @ format"

definition vtrace ::
  "int \<Rightarrow> int \<Rightarrow> string \<Rightarrow> int \<Rightarrow> string \<Rightarrow> trace_arg list \<Rightarrow> syslog_state \<Rightarrow> syslog_state option" where
  "vtrace severity tid fileName lineNum format args st =
     do {
       let file = (case strrchr fileName (CHR ''/'') of Some f \<Rightarrow> tl f | None \<Rightarrow> fileName);
       let formatBuffer = snprintf_text 1000 (trace_text tid file lineNum format);
       prio \<leftarrow> severityMap severity;
       Some (vsyslog prio formatBuffer args st)
     }"

definition trace_error where "trace_error = vtrace 1"
definition trace_warning where "trace_warning = vtrace 2"
definition trace_info where "trace_info = vtrace 3"
definition trace_debug where "trace_debug = vtrace 4"

text \<open>
  A macro call: at a \<open>TRACE_LEVEL\<close> below its severity it expands to nothing. \<open>LINX_ERROR\<close> and the
  others are the same macros under another name.
\<close>

record trace_site =
  ts_file :: string
  ts_line :: int
  ts_format :: string
  ts_args :: "trace_arg list"

definition trace_macro :: "int \<Rightarrow> severity \<Rightarrow> int \<Rightarrow> trace_site \<Rightarrow> syslog_state \<Rightarrow> syslog_state option" where
  "trace_macro TRACE_LEVEL s tid c st =
     (if TRACE_LEVEL \<ge> severity_num s
      then (case s of
              SEVERITY_ERROR \<Rightarrow> trace_error tid (ts_file c) (ts_line c) (ts_format c) (ts_args c) st
            | SEVERITY_WARNING \<Rightarrow> trace_warning tid (ts_file c) (ts_line c) (ts_format c) (ts_args c) st
            | SEVERITY_INFO \<Rightarrow> trace_info tid (ts_file c) (ts_line c) (ts_format c) (ts_args c) st
            | SEVERITY_DEBUG \<Rightarrow> trace_debug tid (ts_file c) (ts_line c) (ts_format c) (ts_args c) st)
      else Some st)"

definition LINX_ERROR where "LINX_ERROR TRACE_LEVEL = trace_macro TRACE_LEVEL SEVERITY_ERROR"
definition LINX_WARNING where "LINX_WARNING TRACE_LEVEL = trace_macro TRACE_LEVEL SEVERITY_WARNING"
definition LINX_INFO where "LINX_INFO TRACE_LEVEL = trace_macro TRACE_LEVEL SEVERITY_INFO"
definition LINX_DEBUG where "LINX_DEBUG TRACE_LEVEL = trace_macro TRACE_LEVEL SEVERITY_DEBUG"

definition TRACE_ENTER :: "int \<Rightarrow> int \<Rightarrow> string \<Rightarrow> int \<Rightarrow> string \<Rightarrow> syslog_state \<Rightarrow> syslog_state option" where
  "TRACE_ENTER TRACE_LEVEL tid file lineNum func st =
     (if TRACE_LEVEL \<ge> 4 then trace_debug tid file lineNum ''%s enter'' [ArgStr func] st else Some st)"

definition TRACE_EXIT :: "int \<Rightarrow> int \<Rightarrow> string \<Rightarrow> int \<Rightarrow> string \<Rightarrow> syslog_state \<Rightarrow> syslog_state option" where
  "TRACE_EXIT TRACE_LEVEL tid file lineNum func st =
     (if TRACE_LEVEL \<ge> 4 then trace_debug tid file lineNum ''%s exit'' [ArgStr func] st else Some st)"

text \<open>
  \<open>None\<close> is an exception of \<open>severityMap.at\<close>, or an environment value on which \<open>atoi\<close> is undefined.
\<close>

definition trace_severity :: "int \<Rightarrow> string option \<Rightarrow> int option" where
  "trace_severity TRACE_LEVEL env_severity =
     (case env_severity of
        None \<Rightarrow> Some TRACE_LEVEL
      | Some e \<Rightarrow> do { num \<leftarrow> atoi e; Some (if severityMap num \<noteq> None then num else TRACE_LEVEL) })"

definition trace_init :: "int \<Rightarrow> string option \<Rightarrow> int \<Rightarrow> string \<Rightarrow> syslog_state \<Rightarrow> syslog_state option" where
  "trace_init TRACE_LEVEL env_severity tid thisFile st =
     do {
       let st1 = openlog st;
       defaultSeverity \<leftarrow> trace_severity TRACE_LEVEL env_severity;
       prio \<leftarrow> severityMap defaultSeverity;
       let st2 = setlogmask (LOG_UPTO prio) st1;
       trace_macro TRACE_LEVEL SEVERITY_INFO tid
         \<lparr>ts_file = thisFile, ts_line = 43, ts_format = ''Set LOG_LEVEL: %d'', ts_args = [ArgInt defaultSeverity]\<rparr> st2
     }"

definition trace_close :: "syslog_state \<Rightarrow> syslog_state" where
  "trace_close st = closelog st"

section \<open>The record of a call\<close>

definition base_name :: "string \<Rightarrow> string" where
  "base_name f = rev (takeWhile (\<lambda>c. c \<noteq> CHR ''/'') (rev f))"

lemma strrchr_None: "strrchr s c = None \<longleftrightarrow> c \<notin> set s"
  by (induction s) (auto split: option.splits)

lemma base_name_eq: "(case strrchr f (CHR ''/'') of Some t \<Rightarrow> tl t | None \<Rightarrow> f) = base_name f"
proof (induction f)
  case (Cons x f)
  show ?case
  proof (cases "CHR ''/'' \<in> set f")
    case True
    then obtain t where t: "strrchr f (CHR ''/'') = Some t" using strrchr_None [of f "CHR ''/''"] by fastforce
    from True have "base_name (x # f) = base_name f" by (auto simp: base_name_def)
    with Cons t show ?thesis by simp
  next
    case False
    then have n: "strrchr f (CHR ''/'') = None" by (simp add: strrchr_None)
    from False have "takeWhile (\<lambda>c. c \<noteq> CHR ''/'') (rev f) = rev f"
      by (auto simp: takeWhile_eq_all_conv)
    moreover have "takeWhile (\<lambda>c. c \<noteq> CHR ''/'') (rev f @ [x]) =
        rev f @ takeWhile (\<lambda>c. c \<noteq> CHR ''/'') [x]"
      by (rule takeWhile_append2) (use False in auto)
    ultimately have "base_name (x # f) = (if x = CHR ''/'' then f else x # f)"
      by (simp add: base_name_def)
    with n show ?thesis by simp
  qed
qed (simp add: base_name_def)

fun severity_prio :: "severity \<Rightarrow> nat" where
  "severity_prio SEVERITY_ERROR = 3"
| "severity_prio SEVERITY_WARNING = 4"
| "severity_prio SEVERITY_INFO = 6"
| "severity_prio SEVERITY_DEBUG = 7"

text \<open>The record that a call leaves when it is compiled in and passes the mask.\<close>

definition trace_record :: "int \<Rightarrow> severity \<times> trace_site \<Rightarrow> log_record" where
  "trace_record tid = (\<lambda>(s, c).
     \<lparr>lg_priority = severity_prio s,
      lg_format = take 999 (trace_text tid (base_name (ts_file c)) (ts_line c) (ts_format c)),
      lg_args = ts_args c\<rparr>)"

lemma severityMap_num: "severityMap (severity_num s) = Some (severity_prio s)"
  by (cases s) (simp_all add: severityMap_def)

lemma severityMap_SomeD: "severityMap n = Some p \<Longrightarrow> \<exists>s. n = severity_num s \<and> p = severity_prio s"
  by (auto simp: severityMap_def split: if_splits intro: exI [of _ SEVERITY_ERROR] exI [of _ SEVERITY_WARNING]
      exI [of _ SEVERITY_INFO] exI [of _ SEVERITY_DEBUG])

lemma trace_macro_eq:
  "trace_macro L s tid c st =
     Some (if severity_num s \<le> L \<and> bit (ls_mask st) (severity_prio s)
           then st\<lparr>ls_records := ls_records st @ [trace_record tid (s, c)]\<rparr> else st)"
  by (cases s)
    (simp_all add: trace_macro_def trace_error_def trace_warning_def trace_info_def trace_debug_def vtrace_def
      base_name_eq severityMap_def vsyslog_def snprintf_text_def trace_record_def)

lemma bit_LOG_UPTO: "bit (LOG_UPTO p) q \<longleftrightarrow> q \<le> p"
proof -
  have "LOG_UPTO p = Bit_Operations.mask (Suc p)" by (simp add: LOG_UPTO_def mask_eq_exp_minus_1)
  then show ?thesis by (simp add: bit_mask_iff less_Suc_eq_le)
qed

lemma severity_prio_le: "severity_prio s \<le> severity_prio t \<longleftrightarrow> s \<le> t"
  by (cases s; cases t) (simp_all add: less_eq_severity_def)

text \<open>A program's calls of the macros, in order.\<close>

fun trace_run :: "int \<Rightarrow> int \<Rightarrow> (severity \<times> trace_site) list \<Rightarrow> syslog_state \<Rightarrow> syslog_state option" where
  "trace_run L tid [] st = Some st"
| "trace_run L tid ((s, c) # cs) st = do { st1 \<leftarrow> trace_macro L s tid c st; trace_run L tid cs st1 }"

lemma trace_run_eq:
  "ls_mask st = LOG_UPTO (severity_prio l) \<Longrightarrow>
    trace_run L tid cs st = Some (st\<lparr>ls_records := ls_records st @
      map (trace_record tid) (filter (\<lambda>(s, c). severity_num s \<le> L \<and> s \<le> l) cs)\<rparr>)"
proof (induction cs arbitrary: st)
  case (Cons x cs)
  obtain s c where x: "x = (s, c)" by (cases x)
  show ?case
  proof (cases "severity_num s \<le> L \<and> s \<le> l")
    case True
    with Cons.prems Cons.IH [of "st\<lparr>ls_records := ls_records st @ [trace_record tid (s, c)]\<rparr>"] x show ?thesis
      by (simp add: trace_macro_eq bit_LOG_UPTO severity_prio_le)
  next
    case False
    with Cons.prems Cons.IH [of st] x show ?thesis
      by (auto simp: trace_macro_eq bit_LOG_UPTO severity_prio_le)
  qed
qed simp

section \<open>Format strings\<close>

text \<open>
  The conversion specifications that \<open>vsyslog\<close> finds in a format, in order, which it applies to the
  arguments one by one (\<open>%%\<close> and \<open>%m\<close> take none); \<open>None\<close>: the format ends inside a specification,
  which is undefined behaviour.
\<close>

definition spec_char :: "char \<Rightarrow> bool" where
  "spec_char c \<longleftrightarrow> c \<in> set ''-+ #0123456789.*hlLqjzt''"

function conversions :: "string \<Rightarrow> string list option" where
  "conversions [] = Some []"
| "conversions (c # cs) =
     (if c \<noteq> CHR ''%'' then conversions cs
      else case dropWhile spec_char cs of
             [] \<Rightarrow> None
           | d # rest \<Rightarrow> map_option (Cons (takeWhile spec_char cs @ [d])) (conversions rest))"
  by pat_completeness auto

termination
proof (relation "measure length", simp_all)
  fix cs rest :: string and d
  assume "dropWhile spec_char cs = d # rest"
  then have "length (d # rest) \<le> length cs" by (metis length_dropWhile_le)
  then show "length rest < Suc (length cs)" by simp
qed

lemma conversions_plain: "CHR ''%'' \<notin> set s \<Longrightarrow> conversions (s @ t) = conversions t"
  by (induction s) auto

lemma trace_text_conversions:
  assumes "CHR ''%'' \<notin> set file"
  shows "conversions (trace_text tid file lineNum format) = conversions format"
proof -
  have "trace_text tid file lineNum format =
      (''[tid='' @ dec_int tid @ ''](''  @ file @ '':'' @ dec_int lineNum @ ''): '') @ format"
    by (simp add: trace_text_def)
  moreover have "CHR ''%'' \<notin> set (''[tid='' @ dec_int tid @ ''](''  @ file @ '':'' @ dec_int lineNum @ ''): '')"
    using assms dec_int_percent by auto
  ultimately show ?thesis by (metis conversions_plain)
qed

section \<open>Properties\<close>

text \<open>
  C37. What a program logs. After \<open>trace_init\<close> in a library built at level \<open>LIB\<close> (1 to 4), with any
  value of \<open>LOG_LEVEL\<close> on which \<open>atoi\<close> is defined, the level in force is that of \<open>LOG_LEVEL\<close> if it is a
  severity and \<open>LIB\<close> otherwise. Whatever sequence of macro calls follows, in code built at level \<open>APP\<close>,
  none of them throws, and the log gains exactly one record for each call whose severity is within
  both levels, in order, with the priority of its severity.
\<close>

theorem trace_log:
  assumes "1 \<le> LIB" "LIB \<le> 4" and "\<And>e. env = Some e \<Longrightarrow> atoi e \<noteq> None"
  shows "\<exists>l st. trace_init LIB env tid file syslog_start = Some st
    \<and> severity_num l = (case env of
        None \<Rightarrow> LIB
      | Some e \<Rightarrow> if 1 \<le> the (atoi e) \<and> the (atoi e) \<le> 4 then the (atoi e) else LIB)
    \<and> trace_run APP tid calls st = Some (st\<lparr>ls_records := ls_records st @
        map (trace_record tid) (filter (\<lambda>(s, c). severity_num s \<le> APP \<and> s \<le> l) calls)\<rparr>)"
proof -
  have sev: "(\<exists>l. severity_num l = n) \<longleftrightarrow> 1 \<le> n \<and> n \<le> 4" for n
  proof
    assume "1 \<le> n \<and> n \<le> 4"
    then have "n = 1 \<or> n = 2 \<or> n = 3 \<or> n = 4" by presburger
    then show "\<exists>l. severity_num l = n" by (metis severity_num.simps)
  next
    assume "\<exists>l. severity_num l = n"
    then obtain l where "severity_num l = n" by blast
    then show "1 \<le> n \<and> n \<le> 4" by (cases l) auto
  qed
  have at: "severityMap n \<noteq> None \<longleftrightarrow> 1 \<le> n \<and> n \<le> 4" for n
    using sev [of n] severityMap_num severityMap_SomeD by fastforce
  define n where "n = (case env of
        None \<Rightarrow> LIB | Some e \<Rightarrow> if 1 \<le> the (atoi e) \<and> the (atoi e) \<le> 4 then the (atoi e) else LIB)"
  have t: "trace_severity LIB env = Some n"
    using assms(3) by (auto simp: trace_severity_def n_def at split: option.splits simp del: not_None_eq)
  have "1 \<le> n \<and> n \<le> 4" using assms(1,2) by (auto simp: n_def split: option.splits)
  then obtain l where l: "severity_num l = n" using sev by blast
  let ?st = "setlogmask (LOG_UPTO (severity_prio l)) (openlog syslog_start)"
  have m0: "ls_mask ?st = LOG_UPTO (severity_prio l)"
    by (cases l) (simp_all add: setlogmask_def LOG_UPTO_def)
  have "severityMap n = Some (severity_prio l)" using severityMap_num [of l] l by simp
  with t obtain st where i: "trace_init LIB env tid file syslog_start = Some st"
    and "ls_mask st = ls_mask ?st"
    by (simp add: trace_init_def trace_macro_eq Let_def split: if_splits)
  with m0 have m: "ls_mask st = LOG_UPTO (severity_prio l)" by simp
  from i l trace_run_eq [OF m] show ?thesis unfolding n_def by blast
qed

theorem trace_log_witness:
  "\<exists>l st. trace_init 4 (Some ''2'') 7 ''a/trace.cpp'' syslog_start = Some st \<and> severity_num l = 2
    \<and> ls_records (the (trace_run 4 7
        [(SEVERITY_INFO, \<lparr>ts_file = ''x/b.cpp'', ts_line = 5, ts_format = ''i'', ts_args = []\<rparr>),
         (SEVERITY_ERROR, \<lparr>ts_file = ''x/b.cpp'', ts_line = 6, ts_format = ''e'', ts_args = []\<rparr>)] st))
      = ls_records st @ [\<lparr>lg_priority = 3, lg_format = ''[tid=7](b.cpp:6): e'', lg_args = []\<rparr>]"
proof -
  have a: "atoi ''2'' = Some 2" by code_simp
  have r: "trace_record 7 (SEVERITY_ERROR, \<lparr>ts_file = ''x/b.cpp'', ts_line = 6, ts_format = ''e'', ts_args = []\<rparr>)
    = \<lparr>lg_priority = 3, lg_format = ''[tid=7](b.cpp:6): e'', lg_args = []\<rparr>"
    by code_simp
  have n: "severity_num l = 2 \<longleftrightarrow> l = SEVERITY_WARNING" for l by (cases l) auto
  from trace_log [of 4 "Some ''2''" 7 "''a/trace.cpp''" 4
      "[(SEVERITY_INFO, \<lparr>ts_file = ''x/b.cpp'', ts_line = 5, ts_format = ''i'', ts_args = []\<rparr>),
        (SEVERITY_ERROR, \<lparr>ts_file = ''x/b.cpp'', ts_line = 6, ts_format = ''e'', ts_args = []\<rparr>)]"] a r
  show ?thesis by (auto simp: n less_eq_severity_def)
qed

text \<open>
  The arguments of a call meet the conversions of the caller's own format, in its order, if the
  name of the source file contains no percent sign and the whole line fits in 999 characters: what
  \<open>vtrace\<close> puts in front of the format adds no conversion and takes none away.
\<close>

theorem trace_format_args:
  assumes "vtrace (severity_num s) tid fileName lineNum format args st = Some st'" "st' \<noteq> st"
    and "CHR ''%'' \<notin> set (base_name fileName)"
    and "length (trace_text tid (base_name fileName) lineNum format) \<le> 999"
  shows "\<exists>r. ls_records st' = ls_records st @ [r] \<and> lg_args r = args \<and> conversions (lg_format r) = conversions format"
proof -
  have "st' = st\<lparr>ls_records := ls_records st @
      [\<lparr>lg_priority = severity_prio s, lg_format = trace_text tid (base_name fileName) lineNum format, lg_args = args\<rparr>]\<rparr>"
    using assms(1,2,4) by (auto simp: vtrace_def base_name_eq severityMap_num vsyslog_def snprintf_text_def split: if_splits)
  with trace_text_conversions [OF assms(3)] show ?thesis by simp
qed

theorem trace_format_args_witness:
  "\<exists>r :: log_record. conversions (lg_format r) = Some [''d''] \<and> lg_args r = [ArgInt 5]"
proof -
  have c: "conversions ''x=%d'' = Some [''d'']" by code_simp
  let ?st = "syslog_start\<lparr>ls_records := [\<lparr>lg_priority = 3, lg_format = ''[tid=7](b.cpp:6): x=%d'', lg_args = [ArgInt 5]\<rparr>]\<rparr>"
  have v: "vtrace (severity_num SEVERITY_ERROR) 7 ''x/b.cpp'' 6 ''x=%d'' [ArgInt 5] syslog_start = Some ?st"
    by code_simp
  have d: "?st \<noteq> syslog_start" by (simp add: syslog_start_def)
  have p: "CHR ''%'' \<notin> set (base_name ''x/b.cpp'')" by code_simp
  have l: "length (trace_text 7 (base_name ''x/b.cpp'') 6 ''x=%d'') \<le> 999" by code_simp
  obtain r :: log_record where "lg_args r = [ArgInt 5]" "conversions (lg_format r) = conversions ''x=%d''"
    using trace_format_args [OF v d p l] by blast
  then show ?thesis unfolding c by blast
qed

text \<open>A percent sign in the file name becomes part of a conversion: it shifts the arguments.\<close>

lemma percent_in_file_name:
  "map_option (map (\<lambda>r. conversions (lg_format r)) \<circ> ls_records)
     (vtrace 1 7 ''50%off.cpp'' 6 ''x=%d'' [ArgInt 5] syslog_start) = Some [Some [''o'', ''d'']]"
  by code_simp

end
