(* ===== verification/Message.thy ===== *)
theory Message
  imports Prelude "HOL-Library.Monad_Syntax"
begin

text \<open>
  Messages and their wire format: \<open>IMessage\<close> and \<open>ILinxMessage<T>\<close> (LinxMessage.h), the byte
  specialisation \<open>RawMessage\<close> (RawMessage.h, RawMessage.cpp) and \<open>MyMessage\<close> (MyMessage.h). The byte
  order of the host is a parameter, so that two hosts of different order can be put side by side;
  \<open>None\<close> is undefined behaviour (an access past the end of a buffer), a null pointer is \<open>None\<close> one
  level down. The lemmas give the bytes that are written, the round trips, and the exact size limit.
\<close>

section \<open>Host byte order\<close>

datatype endian = LittleEndian | BigEndian

text \<open>The object representation of a \<open>uint32_t\<close>, and \<open>htonl\<close> / \<open>ntohl\<close>.\<close>

definition mem_of_u32 :: "endian \<Rightarrow> u32 \<Rightarrow> u8 list" where
  "mem_of_u32 e w = (case e of BigEndian \<Rightarrow> be_bytes w | LittleEndian \<Rightarrow> rev (be_bytes w))"

definition u32_of_mem :: "endian \<Rightarrow> u8 list \<Rightarrow> u32" where
  "u32_of_mem e bs = (case e of BigEndian \<Rightarrow> of_be_bytes bs | LittleEndian \<Rightarrow> of_be_bytes (rev bs))"

definition byteswap :: "u32 \<Rightarrow> u32" where
  "byteswap w = of_be_bytes (rev (be_bytes w))"

definition htonl :: "endian \<Rightarrow> u32 \<Rightarrow> u32" where
  "htonl e w = (case e of BigEndian \<Rightarrow> w | LittleEndian \<Rightarrow> byteswap w)"

definition ntohl :: "endian \<Rightarrow> u32 \<Rightarrow> u32" where
  "ntohl e w = (case e of BigEndian \<Rightarrow> w | LittleEndian \<Rightarrow> byteswap w)"

lemma be_bytes_byteswap [wire_simps]: "be_bytes (byteswap w) = rev (be_bytes w)"
  by (simp add: byteswap_def be_of_be)

lemma byteswap_byteswap [wire_simps]: "byteswap (byteswap w) = w"
  by (metis be_bytes_byteswap be_bytes_inj rev_rev_ident)

lemma length_mem_of_u32 [simp]: "length (mem_of_u32 e w) = 4"
  by (simp add: mem_of_u32_def split: endian.splits)

lemma mem_htonl [wire_simps]: "mem_of_u32 e (htonl e w) = be_bytes w"
  by (simp add: mem_of_u32_def htonl_def be_bytes_byteswap split: endian.splits)

lemma ntohl_mem [wire_simps]: "length bs = 4 \<Longrightarrow> ntohl e (u32_of_mem e bs) = of_be_bytes bs"
  by (simp add: u32_of_mem_def ntohl_def byteswap_def be_of_be split: endian.splits)

lemma u32_mem_of [wire_simps]: "u32_of_mem e (mem_of_u32 e w) = w"
  by (simp add: u32_of_mem_def mem_of_u32_def of_be_be split: endian.splits)

lemma u32_mem_cross [wire_simps]:
  "u32_of_mem e' (mem_of_u32 e w) = (if e = e' then w else byteswap w)"
  by (cases e; cases e') (simp_all add: u32_of_mem_def mem_of_u32_def of_be_be byteswap_def)

section \<open>Message objects\<close>

record raw_message =
  rm_reqId :: u32
  rm_payload :: "u8 list"

text \<open>\<open>ILinxMessage<T>\<close>: the payload is the object representation of the \<open>T\<close>, \<open>sizeof(T)\<close> bytes.\<close>

record typed_message =
  tm_reqId :: u32
  tm_payload :: "u8 list"

text \<open>\<open>MyMessage\<close>: the \<open>int\<close> and the \<open>float\<close> as their bit patterns.\<close>

record my_message =
  mm_reqId :: u32
  mm_value :: u32
  mm_temperature :: u32

datatype imessage = RawM raw_message | TypedM typed_message | MyM my_message

definition RawMessage :: "u32 \<Rightarrow> raw_message" where
  "RawMessage reqId = \<lparr>rm_reqId = reqId, rm_payload = []\<rparr>"

definition RawMessage_size :: "u32 \<Rightarrow> nat \<Rightarrow> raw_message" where
  "RawMessage_size reqId payloadSize = \<lparr>rm_reqId = reqId, rm_payload = replicate payloadSize 0\<rparr>"

definition RawMessage_buffer :: "u32 \<Rightarrow> u8 list \<Rightarrow> u32 \<Rightarrow> raw_message option" where
  "RawMessage_buffer reqId buffer payloadSize =
     do { p \<leftarrow> read_at buffer 0 (unat payloadSize); Some \<lparr>rm_reqId = reqId, rm_payload = p\<rparr> }"

definition RawMessage_vector :: "u32 \<Rightarrow> u8 list \<Rightarrow> raw_message" where
  "RawMessage_vector reqId buffer = \<lparr>rm_reqId = reqId, rm_payload = buffer\<rparr>"

section \<open>Sizes and serialization\<close>

fun getReqId :: "imessage \<Rightarrow> u32" where
  "getReqId (RawM m) = rm_reqId m"
| "getReqId (TypedM m) = tm_reqId m"
| "getReqId (MyM m) = mm_reqId m"

fun getPayloadSize :: "imessage \<Rightarrow> u32" where
  "getPayloadSize (RawM m) = of_nat (length (rm_payload m))"
| "getPayloadSize (TypedM m) = of_nat (length (tm_payload m))"
| "getPayloadSize (MyM m) = 8"

definition getSize :: "imessage \<Rightarrow> u32" where
  "getSize m = 4 + getPayloadSize m"

text \<open>
  \<open>serializePayload(buffer + off, ...)\<close>: the virtual function, its writes go to offset \<open>off\<close> of the
  caller's buffer. None of the three implementations looks at its \<open>bufferSize\<close> argument.
\<close>

fun serializePayload :: "endian \<Rightarrow> imessage \<Rightarrow> u8 list \<Rightarrow> nat \<Rightarrow> (u32 \<times> u8 list) option" where
  "serializePayload e (RawM m) buffer off =
     do { b \<leftarrow> write_at buffer off (rm_payload m); Some (getPayloadSize (RawM m), b) }"
| "serializePayload e (TypedM m) buffer off =
     do { b \<leftarrow> write_at buffer off (tm_payload m); Some (getPayloadSize (TypedM m), b) }"
| "serializePayload e (MyM m) buffer off =
     do { let data = mem_of_u32 e (htonl e (mm_value m)) @ mem_of_u32 e (mm_temperature m);
          b \<leftarrow> write_at buffer off data;
          Some (getPayloadSize (MyM m), b) }"

definition serialize :: "endian \<Rightarrow> imessage \<Rightarrow> u8 list \<Rightarrow> u32 \<Rightarrow> (u32 \<times> u8 list) option" where
  "serialize e m buffer bufferSize =
     (let totalSize = getSize m in
      if bufferSize < totalSize then Some (0, buffer)
      else do {
        let netReqId = htonl e (getReqId m);
        b1 \<leftarrow> write_at buffer 0 (mem_of_u32 e netReqId);
        (ret, b2) \<leftarrow> serializePayload e m b1 4;
        Some (if unat ret + 4 \<noteq> unat totalSize then 0 else totalSize, b2)
      })"

section \<open>Deserialization\<close>

definition RawMessage_deserialize :: "endian \<Rightarrow> u8 list \<Rightarrow> raw_message option" where
  "RawMessage_deserialize e buffer =
     (if length buffer < 4 then None
      else let reqId = ntohl e (u32_of_mem e (take 4 buffer))
           in Some (RawMessage_vector reqId (drop 4 buffer)))"

definition ILinxMessage_deserialize ::
  "endian \<Rightarrow> nat \<Rightarrow> u8 list \<Rightarrow> u32 \<Rightarrow> typed_message option option" where
  "ILinxMessage_deserialize e sizeofT buffer bufferSize =
     (if unat bufferSize < 4 + sizeofT then Some None
      else do {
        r \<leftarrow> read_at buffer 0 4;
        let reqId = ntohl e (u32_of_mem e r);
        p \<leftarrow> read_at buffer 4 sizeofT;
        Some (Some \<lparr>tm_reqId = reqId, tm_payload = p\<rparr>)
      })"

definition MyMessage_fromRawMessage :: "endian \<Rightarrow> raw_message \<Rightarrow> my_message option" where
  "MyMessage_fromRawMessage e rawMsg =
     do {
       data \<leftarrow> read_at (rm_payload rawMsg) 0 8;
       let value = ntohl e (u32_of_mem e (take 4 data));
       let temperature = u32_of_mem e (drop 4 data);
       Some \<lparr>mm_reqId = rm_reqId rawMsg, mm_value = value, mm_temperature = temperature\<rparr>
     }"

section \<open>The bytes on the wire\<close>

text \<open>Specification of the payload bytes, and the payload length as a natural number.\<close>

fun payload_bytes :: "endian \<Rightarrow> imessage \<Rightarrow> u8 list" where
  "payload_bytes e (RawM m) = rm_payload m"
| "payload_bytes e (TypedM m) = tm_payload m"
| "payload_bytes e (MyM m) = be_bytes (mm_value m) @ mem_of_u32 e (mm_temperature m)"

definition wire :: "endian \<Rightarrow> imessage \<Rightarrow> u8 list" where
  "wire e m = be_bytes (getReqId m) @ payload_bytes e m"

definition fits :: "imessage \<Rightarrow> bool" where
  "fits m \<longleftrightarrow> length (payload_bytes BigEndian m) < 4294967292"

lemma length_payload_bytes: "length (payload_bytes e m) = length (payload_bytes BigEndian m)"
  by (cases m) auto

lemma getPayloadSize_eq: "getPayloadSize m = of_nat (length (payload_bytes e m))"
  by (cases m) auto

lemma length_wire: "length (wire e m) = 4 + length (payload_bytes e m)"
  by (simp add: wire_def)

lemma serializePayload_eq:
  "serializePayload e m buffer off =
     do { b \<leftarrow> write_at buffer off (payload_bytes e m); Some (getPayloadSize m, b) }"
  by (cases m) (simp_all add: Let_def mem_htonl)

lemma getSize_nat: "unat (getSize m) = (4 + length (payload_bytes e m)) mod 4294967296"
proof -
  have "getSize m = of_nat (4 + length (payload_bytes e m))"
    by (simp add: getSize_def getPayloadSize_eq [of m e])
  then show ?thesis by (simp only: unat_of_nat) simp
qed

lemma getSize_fits: "fits m \<Longrightarrow> unat (getSize m) = length (wire e m)"
  by (simp add: getSize_nat [of m e] length_wire fits_def length_payload_bytes [of e])

lemma getPayloadSize_fits: "fits m \<Longrightarrow> unat (getPayloadSize m) = length (payload_bytes e m)"
  by (simp add: getPayloadSize_eq [of m e] fits_def length_payload_bytes [of e] unat_of_nat
      del: of_nat_add)

lemma serialize_short: "bufferSize < getSize m \<Longrightarrow> serialize e m buffer bufferSize = Some (0, buffer)"
  by (simp add: serialize_def)

lemma serialize_fits:
  assumes "fits m" "getSize m \<le> bufferSize" "unat bufferSize \<le> length buffer"
  shows "serialize e m buffer bufferSize
           = Some (getSize m, wire e m @ drop (length (wire e m)) buffer)"
proof -
  have len: "length (wire e m) \<le> length buffer"
    using assms getSize_fits [of m e] word_le_nat_alt le_trans by metis
  then have l: "4 + length (payload_bytes e m) \<le> length buffer"
    by (simp add: length_wire)
  have "unat (getPayloadSize m) + 4 = unat (getSize m)"
    using assms(1) getSize_fits [of m e] getPayloadSize_fits [of m e] by (simp add: length_wire)
  moreover have "\<not> bufferSize < getSize m"
    using assms(2) by (simp add: leD)
  ultimately show ?thesis
    using l by (simp add: serialize_def serializePayload_eq write_at_def wire_def mem_htonl Let_def
        add.commute)
qed

lemma serialize_overflow:
  assumes "\<not> fits m" "length buffer = unat (getSize m)"
  shows "serialize e m buffer (getSize m) = None"
proof -
  have big: "4294967292 \<le> length (payload_bytes e m)"
    using assms(1) by (simp add: fits_def length_payload_bytes [of e])
  have "length buffer < 4294967296"
    using assms(2) unsigned_less [of "getSize m"] by simp
  with big have "length buffer < 4 + length (payload_bytes e m)" by simp
  then show ?thesis
    by (auto simp: serialize_def serializePayload_eq write_at_def Let_def)
qed

lemma deserialize_wire: "RawMessage_deserialize e (be_bytes r @ p) = Some \<lparr>rm_reqId = r, rm_payload = p\<rparr>"
  by (simp add: RawMessage_deserialize_def RawMessage_vector_def ntohl_mem of_be_be)

lemma deserialize_Some_iff:
  "RawMessage_deserialize e bs = Some m \<longleftrightarrow> bs = be_bytes (rm_reqId m) @ rm_payload m"
proof
  assume "RawMessage_deserialize e bs = Some m"
  then have "4 \<le> length bs" and m: "m = \<lparr>rm_reqId = of_be_bytes (take 4 bs), rm_payload = drop 4 bs\<rparr>"
    by (auto simp: RawMessage_deserialize_def RawMessage_vector_def ntohl_mem split: if_splits)
  then show "bs = be_bytes (rm_reqId m) @ rm_payload m"
    by (simp add: be_of_be)
next
  assume "bs = be_bytes (rm_reqId m) @ rm_payload m"
  then show "RawMessage_deserialize e bs = Some m"
    by (simp add: deserialize_wire)
qed

lemma deserialize_None_iff: "RawMessage_deserialize e bs = None \<longleftrightarrow> length bs < 4"
  by (simp add: RawMessage_deserialize_def)

lemma wire_RawM: "wire e (RawM m) = be_bytes (rm_reqId m) @ rm_payload m"
  by (simp add: wire_def)

lemma fits_RawM: "fits (RawM m) \<longleftrightarrow> length (rm_payload m) < 4294967292"
  by (simp add: fits_def)

section \<open>Properties\<close>

text \<open>
  C5. A raw message survives the wire: serialized into a buffer that is large enough on a host of
  any byte order, it is read back unchanged by a host of any byte order from the bytes that
  \<open>serialize\<close> reports; the rest of the buffer is left alone. Holds for every payload for which
  \<open>getSize()\<close> does not wrap.
\<close>

theorem raw_message_roundtrip:
  assumes "length (rm_payload m) < 4294967292"
    and "getSize (RawM m) \<le> bufferSize" and "unat bufferSize \<le> length buffer"
  shows "\<exists>buffer'. serialize e (RawM m) buffer bufferSize = Some (getSize (RawM m), buffer')
    \<and> length buffer' = length buffer
    \<and> RawMessage_deserialize e' (take (unat (getSize (RawM m))) buffer') = Some m
    \<and> drop (unat (getSize (RawM m))) buffer' = drop (unat (getSize (RawM m))) buffer"
proof -
  have f: "fits (RawM m)" using assms(1) by (simp add: fits_RawM)
  have n: "unat (getSize (RawM m)) = length (wire e (RawM m))" using f by (rule getSize_fits)
  have "length (wire e (RawM m)) \<le> length buffer"
    using assms(2,3) n by (metis le_trans word_le_nat_alt)
  then show ?thesis
    using serialize_fits [OF f assms(2,3), of e] n by (simp add: wire_RawM deserialize_wire)
qed

theorem raw_message_roundtrip_witness:
  "\<exists>buffer'. serialize LittleEndian (RawM \<lparr>rm_reqId = 7, rm_payload = [1, 2]\<rparr>) (replicate 8 0) 8
       = Some (getSize (RawM \<lparr>rm_reqId = 7, rm_payload = [1, 2]\<rparr>), buffer')
    \<and> RawMessage_deserialize BigEndian
        (take (unat (getSize (RawM \<lparr>rm_reqId = 7, rm_payload = [1, 2]\<rparr>))) buffer')
        = Some \<lparr>rm_reqId = 7, rm_payload = [1, 2]\<rparr>"
  using raw_message_roundtrip [of "\<lparr>rm_reqId = 7, rm_payload = [1, 2]\<rparr>" 8 "replicate 8 0"
      LittleEndian BigEndian]
  by (auto simp: getSize_def)

text \<open>
  C27. What \<open>serialize\<close> does, for every kind of message whose size does not wrap: a buffer that is
  too small is refused with 0 and left untouched, otherwise the request id in network byte order and
  then the payload are written at its beginning and the total size is returned.
\<close>

theorem serialize_spec:
  assumes "length (payload_bytes e m) < 4294967292" and "unat bufferSize \<le> length buffer"
  shows "serialize e m buffer bufferSize =
    (if unat bufferSize < 4 + length (payload_bytes e m) then Some (0, buffer)
     else Some (of_nat (4 + length (payload_bytes e m)),
                be_bytes (getReqId m) @ payload_bytes e m @ drop (4 + length (payload_bytes e m)) buffer))"
proof -
  have f: "fits m" using assms(1) by (simp add: fits_def length_payload_bytes [of e])
  have n: "unat (getSize m) = 4 + length (payload_bytes e m)"
    using getSize_fits [OF f, of e] by (simp add: length_wire)
  have g: "getSize m = of_nat (4 + length (payload_bytes e m))"
    by (simp add: getSize_def getPayloadSize_eq [of m e])
  show ?thesis
  proof (cases "bufferSize < getSize m")
    case True
    with n show ?thesis by (simp add: serialize_short word_less_nat_alt)
  next
    case False
    then have "\<not> unat bufferSize < 4 + length (payload_bytes e m)" using n by (simp add: word_less_nat_alt)
    moreover have "getSize m \<le> bufferSize" using False by simp
    ultimately show ?thesis
      using serialize_fits [OF f _ assms(2), of e] g by (simp add: wire_def length_wire)
  qed
qed

theorem serialize_spec_witness:
  "serialize BigEndian (RawM (RawMessage 258)) [9, 9, 9, 9, 9] 5 = Some (4, [0, 0, 1, 2, 9])
   \<and> serialize BigEndian (RawM (RawMessage 258)) [9, 9, 9] 3 = Some (0, [9, 9, 9])"
  using serialize_spec [of BigEndian "RawM (RawMessage 258)" 5 "[9, 9, 9, 9, 9]"]
    serialize_spec [of BigEndian "RawM (RawMessage 258)" 3 "[9, 9, 9]"]
  by (simp add: RawMessage_def be_bytes_def)

text \<open>
  C29. Memory safety of the senders, exactly: both socket classes serialize into a buffer of
  \<open>getSize()\<close> bytes. The call stays inside that buffer if and only if the payload is shorter than
  \<open>2^32 - 4\<close> bytes; from there on the 32-bit size wraps and the payload is written past the end.
\<close>

theorem serialize_own_size_safe_iff:
  assumes "length buffer = unat (getSize m)"
  shows "serialize e m buffer (getSize m) \<noteq> None \<longleftrightarrow> length (payload_bytes e m) < 4294967292"
proof (cases "fits m")
  case True
  with serialize_fits [OF True order.refl, of buffer e] assms show ?thesis
    by (simp add: fits_def length_payload_bytes [of e])
next
  case False
  with serialize_overflow [OF False assms, of e] show ?thesis
    by (simp add: fits_def length_payload_bytes [of e])
qed

theorem serialize_own_size_safe_iff_witness:
  "serialize LittleEndian (RawM (RawMessage 1)) [0, 0, 0, 0] 4 \<noteq> None"
  using serialize_own_size_safe_iff [of "[0, 0, 0, 0]" "RawM (RawMessage 1)" LittleEndian]
  by (simp add: getSize_def RawMessage_def)

text \<open>
  C28. \<open>RawMessage::deserialize\<close> accepts exactly the datagrams of at least four bytes, and what it
  returns is the message with that wire image: on hosts of any byte order it is the inverse of the
  wire format, in both directions.
\<close>

theorem deserialize_inverts_wire:
  "(RawMessage_deserialize e bs = None \<longleftrightarrow> length bs < 4)
   \<and> (RawMessage_deserialize e bs = Some m \<longleftrightarrow> bs = wire e' (RawM m))"
  by (simp add: deserialize_None_iff deserialize_Some_iff wire_RawM)

text \<open>
  A typed message \<open>ILinxMessage<T>\<close> read back with the same \<open>T\<close> is the message that was
  written, on hosts of any byte order as far as the request id is concerned (the payload is copied
  byte by byte); a receiver whose \<open>T\<close> is larger than the datagram gets a null pointer, not an
  out-of-range read.
\<close>

theorem typed_message_roundtrip:
  assumes "length (tm_payload m) < 4294967292" and "length buffer = 4 + length (tm_payload m)"
  shows "\<exists>buffer'. serialize e (TypedM m) buffer (of_nat (length buffer)) = Some (of_nat (length buffer), buffer')
    \<and> ILinxMessage_deserialize e' sizeofT buffer' (of_nat (length buffer)) =
        (if sizeofT \<le> length (tm_payload m)
         then Some (Some (m\<lparr>tm_payload := take sizeofT (tm_payload m)\<rparr>)) else Some None)"
proof -
  have u: "unat (of_nat (length buffer) :: u32) = length buffer"
    using assms by (subst unat_of_nat, subst mod_less) simp_all
  then have "serialize e (TypedM m) buffer (of_nat (length buffer))
      = Some (of_nat (length buffer), be_bytes (tm_reqId m) @ tm_payload m)"
    using serialize_spec [of e "TypedM m" "of_nat (length buffer)" buffer] assms by simp
  then show ?thesis
    using u assms by (auto simp: ILinxMessage_deserialize_def read_at_def ntohl_mem of_be_be Let_def)
qed

theorem typed_message_roundtrip_witness:
  "\<exists>buffer'. serialize BigEndian (TypedM \<lparr>tm_reqId = 5, tm_payload = [1, 2, 3]\<rparr>) (replicate 7 0) 7
       = Some (7, buffer')
    \<and> ILinxMessage_deserialize LittleEndian 3 buffer' 7 = Some (Some \<lparr>tm_reqId = 5, tm_payload = [1, 2, 3]\<rparr>)"
  using typed_message_roundtrip [of "\<lparr>tm_reqId = 5, tm_payload = [1, 2, 3]\<rparr>" "replicate 7 0"
      BigEndian LittleEndian 3]
  by simp

text \<open>
  C40. \<open>MyMessage\<close> sent as a datagram and rebuilt with \<open>fromRawMessage\<close>: the request id and the value
  arrive whatever the two byte orders are, the temperature only between hosts of one byte order,
  otherwise its four bytes arrive swapped, because only the value is converted to network order.
\<close>

theorem my_message_roundtrip:
  assumes "length buffer = 12"
  shows "\<exists>datagram raw. serialize e (MyM m) buffer 12 = Some (12, datagram)
    \<and> RawMessage_deserialize e' datagram = Some raw
    \<and> MyMessage_fromRawMessage e' raw = Some (m\<lparr>mm_temperature :=
        (if e = e' then mm_temperature m else byteswap (mm_temperature m))\<rparr>)"
proof -
  let ?p = "be_bytes (mm_value m) @ mem_of_u32 e (mm_temperature m)"
  have "serialize e (MyM m) buffer 12 = Some (12, be_bytes (mm_reqId m) @ ?p)"
    using serialize_spec [of e "MyM m" 12 buffer] assms by simp
  moreover have "MyMessage_fromRawMessage e' \<lparr>rm_reqId = mm_reqId m, rm_payload = ?p\<rparr>
      = Some (m\<lparr>mm_temperature := (if e = e' then mm_temperature m else byteswap (mm_temperature m))\<rparr>)"
    by (simp add: MyMessage_fromRawMessage_def read_at_def ntohl_mem of_be_be u32_mem_cross Let_def)
  ultimately show ?thesis using deserialize_wire [of e' "mm_reqId m" ?p] by blast
qed

theorem my_message_roundtrip_witness:
  "\<exists>datagram raw. serialize LittleEndian (MyM \<lparr>mm_reqId = 3, mm_value = 42, mm_temperature = 1\<rparr>)
        (replicate 12 0) 12 = Some (12, datagram)
    \<and> RawMessage_deserialize BigEndian datagram = Some raw
    \<and> MyMessage_fromRawMessage BigEndian raw
        = Some \<lparr>mm_reqId = 3, mm_value = 42, mm_temperature = 0x01000000\<rparr>"
  using my_message_roundtrip [of "replicate 12 0" LittleEndian
      "\<lparr>mm_reqId = 3, mm_value = 42, mm_temperature = 1\<rparr>" BigEndian]
  by (simp add: byteswap_def be_bytes_def of_be_bytes_def)

text \<open>
  Rebuilding a \<open>MyMessage\<close> from a received datagram reads outside the payload exactly when the
  datagram is shorter than twelve bytes: \<open>deserialize\<close> accepts such a datagram and \<open>fromRawMessage\<close>
  does not look at the size.
\<close>

theorem my_message_short_datagram:
  assumes "RawMessage_deserialize e datagram = Some raw"
  shows "MyMessage_fromRawMessage e raw = None \<longleftrightarrow> length datagram < 12"
  using assms
  by (auto simp: deserialize_Some_iff MyMessage_fromRawMessage_def read_at_def Let_def)

theorem my_message_short_datagram_witness:
  "MyMessage_fromRawMessage LittleEndian (RawMessage 1) = None"
  using my_message_short_datagram [of LittleEndian "[0, 0, 0, 1]" "RawMessage 1"]
  by (simp add: deserialize_Some_iff RawMessage_def be_bytes_def)

end
