(* ===== verification/Inet.thy ===== *)
theory Inet
  imports Prelude
begin

text \<open>
  The two address conversions of the C library that the UDP code calls, for \<open>AF_INET\<close>:
  \<open>inet_pton\<close> reads the standard dotted-decimal form \<open>ddd.ddd.ddd.ddd\<close> (four decimal numbers
  between 0 and 255, no other notation: in particular no leading zero, which is the octal notation
  that POSIX excludes), and \<open>inet_ntoa\<close> prints it. An \<open>in_addr\<close> is represented by the number
  \<open>ntohl(s_addr)\<close>. The theory shows that printing and reading are inverse to each other.
\<close>

section \<open>Splitting at a separator\<close>

fun split_on :: "char \<Rightarrow> string \<Rightarrow> string list" where
  "split_on c [] = [[]]"
| "split_on c (x # xs) =
     (if x = c then [] # split_on c xs
      else (case split_on c xs of [] \<Rightarrow> [[x]] | w # ws \<Rightarrow> (x # w) # ws))"

lemma split_on_nonempty: "split_on c s \<noteq> []"
  by (cases s) (auto split: list.splits)

lemma split_on_single: "c \<notin> set s \<Longrightarrow> split_on c s = [s]"
  by (induction s) auto

lemma split_on_sep: "c \<notin> set s \<Longrightarrow> split_on c (s @ c # t) = s # split_on c t"
  by (induction s) auto

section \<open>One octet\<close>

definition octet :: "string \<Rightarrow> nat option" where
  "octet s =
     (if s = [] then None
      else if hd s = CHR ''0'' \<and> length s \<noteq> 1 then None
      else (case dec_val 0 s of None \<Rightarrow> None | Some n \<Rightarrow> if n \<le> 255 then Some n else None))"

lemma hd_to_string_pos: "0 < n \<Longrightarrow> hd (to_string n) \<noteq> digit_char 0"
proof (induction n rule: to_string.induct)
  case (1 n)
  show ?case
  proof (cases "n < 10")
    case True
    with "1.prems" show ?thesis
      by (metis digit_val_char gr0I less_numeral_extra(3) list.sel(1) option.inject
          to_string.simps zero_less_numeral)
  next
    case False
    with "1.IH" show ?thesis
      by (simp add: to_string.simps [of n] to_string_nonempty)
  qed
qed

lemma digit_char_0: "digit_char 0 = CHR ''0''"
  by code_simp

lemma octet_to_string: "n \<le> 255 \<Longrightarrow> octet (to_string n) = Some n"
proof (cases "n = 0")
  case True
  then show ?thesis by (simp add: octet_def to_string.simps digit_val_char)
next
  case False
  assume "n \<le> 255"
  from False hd_to_string_pos [of n] have "hd (to_string n) \<noteq> CHR ''0''"
    by (simp add: digit_char_0)
  with \<open>n \<le> 255\<close> show ?thesis
    by (simp add: octet_def to_string_nonempty dec_val_to_string)
qed

lemma octet_le: "octet s = Some n \<Longrightarrow> n \<le> 255"
  by (auto simp: octet_def split: if_splits option.splits)

section \<open>inet_pton and inet_ntoa\<close>

definition ipv4_num :: "nat \<Rightarrow> nat \<Rightarrow> nat \<Rightarrow> nat \<Rightarrow> u32" where
  "ipv4_num a b c d = of_nat (a * 16777216 + b * 65536 + c * 256 + d)"

definition inet_pton :: "string \<Rightarrow> u32 option" where
  "inet_pton s =
     (case map octet (split_on CHR ''.'' s) of
        [Some a, Some b, Some c, Some d] \<Rightarrow> Some (ipv4_num a b c d)
      | _ \<Rightarrow> None)"

definition inet_ntoa :: "u32 \<Rightarrow> string" where
  "inet_ntoa w =
     (let n = unat w in
      to_string (n div 16777216) @ ''.'' @ to_string (n div 65536 mod 256) @ ''.'' @
      to_string (n div 256 mod 256) @ ''.'' @ to_string (n mod 256))"

lemma dot_not_in_to_string: "CHR ''.'' \<notin> set (to_string n)"
  using to_string_digit_codes [of "CHR ''.''" n] by auto

lemma inet_pton_dotted:
  assumes "a \<le> 255" "b \<le> 255" "c \<le> 255" "d \<le> 255"
  shows "inet_pton (to_string a @ ''.'' @ to_string b @ ''.'' @ to_string c @ ''.'' @ to_string d)
           = Some (ipv4_num a b c d)"
proof -
  let ?dot = "CHR ''.''"
  have "split_on ?dot (to_string a @ ?dot # to_string b @ ?dot # to_string c @ ?dot # to_string d)
          = [to_string a, to_string b, to_string c, to_string d]"
    by (simp only: split_on_sep split_on_single dot_not_in_to_string not_False_eq_True)
  with assms show ?thesis
    by (simp add: inet_pton_def octet_to_string)
qed

lemma ipv4_num_digits:
  "ipv4_num (unat w div 16777216) (unat w div 65536 mod 256) (unat w div 256 mod 256) (unat w mod 256) = w"
proof -
  define n where "n = unat w"
  define p q r where "p = n div 256" and "q = p div 256" and "r = q div 256"
  have d: "n div 65536 = q" "n div 16777216 = r"
    by (simp_all add: p_def q_def r_def flip: div_mult2_eq)
  have "p * 256 + n mod 256 = n" "q * 256 + p mod 256 = p" "r * 256 + q mod 256 = q"
    by (simp_all add: p_def q_def r_def)
  then have "r * 16777216 + q mod 256 * 65536 + p mod 256 * 256 + n mod 256 = n"
    by linarith
  then have "n div 16777216 * 16777216 + n div 65536 mod 256 * 65536
      + n div 256 mod 256 * 256 + n mod 256 = n"
    by (simp only: d p_def [symmetric])
  then show ?thesis
    unfolding ipv4_num_def n_def by simp
qed

lemma inet_pton_ntoa: "inet_pton (inet_ntoa w) = Some w"
proof -
  have "unat w < 4294967296"
    using unsigned_less [of w] by simp
  then have "unat w div 16777216 < 256"
    by (simp add: div_less_iff_less_mult)
  then have "unat w div 16777216 \<le> 255" by simp
  moreover have "m mod 256 \<le> (255::nat)" for m
    using mod_less_divisor [of 256 m] by linarith
  ultimately show ?thesis
    unfolding inet_ntoa_def Let_def
    by (subst inet_pton_dotted) (simp_all add: ipv4_num_digits)
qed

lemma inet_ntoa_inj: "inet_ntoa v = inet_ntoa w \<Longrightarrow> v = w"
  by (metis inet_pton_ntoa option.inject)

lemma inet_pton_SomeD:
  assumes "inet_pton s = Some w"
  shows "\<exists>a b c d. a \<le> 255 \<and> b \<le> 255 \<and> c \<le> 255 \<and> d \<le> 255 \<and> w = ipv4_num a b c d
           \<and> map octet (split_on CHR ''.'' s) = [Some a, Some b, Some c, Some d]"
proof -
  obtain a b c d where "map octet (split_on CHR ''.'' s) = [Some a, Some b, Some c, Some d]"
    and "w = ipv4_num a b c d"
    using assms by (auto simp: inet_pton_def split: list.splits option.splits)
  then show ?thesis by (auto dest!: octet_le)
qed

lemma unat_ipv4_num:
  assumes "a \<le> 255" "b \<le> 255" "c \<le> 255" "d \<le> 255"
  shows "unat (ipv4_num a b c d) = a * 16777216 + b * 65536 + c * 256 + d"
  unfolding ipv4_num_def
  by (subst unat_of_nat, subst mod_less) (use assms in simp_all)

end
