(* ===== verification/Identifier.thy ===== *)
theory Identifier
  imports Inet
begin

text \<open>
  Endpoint identifiers: \<open>IIdentifier\<close> (IIdentifier.h) with its two implementations \<open>UnixInfo\<close>
  (UnixLinx.h) and \<open>PortInfo\<close> (UdpLinx.h), and the address classification of \<open>UdpFactory\<close> that the
  \<open>PortInfo\<close> constructor calls. The class hierarchy is one datatype, \<open>typeid\<close> and
  \<open>dynamic_cast\<close> look at its constructor. The lemmas show what equality of identifiers means:
  an equivalence on Unix names, port equality as soon as a group address takes part.
\<close>

section \<open>Address classes\<close>

definition isBroadcastIp :: "string \<Rightarrow> bool" where
  "isBroadcastIp ip \<longleftrightarrow> ip = ''255.255.255.255''"

definition isMulticastIp :: "string \<Rightarrow> bool" where
  "isMulticastIp ip =
     (case inet_pton (c_str ip) of
        None \<Rightarrow> False
      | Some ip_num \<Rightarrow> 0xE0000000 \<le> ip_num \<and> ip_num \<le> 0xEFFFFFFF)"

section \<open>Identifier objects\<close>

record unix_info =
  ui_value :: string

record port_info =
  pi_ip :: string
  pi_port :: u16
  pi_isRestrictedIp :: bool

datatype iidentifier = UnixId unix_info | PortId port_info

definition UnixInfo :: "string \<Rightarrow> unix_info" where
  "UnixInfo v = \<lparr>ui_value = v\<rparr>"

definition PortInfo_default :: port_info where
  "PortInfo_default = \<lparr>pi_ip = ''0.0.0.0'', pi_port = 0, pi_isRestrictedIp = False\<rparr>"

definition PortInfo :: "string \<Rightarrow> u16 \<Rightarrow> port_info" where
  "PortInfo ip port =
     \<lparr>pi_ip = ip, pi_port = port, pi_isRestrictedIp = isBroadcastIp ip \<or> isMulticastIp ip\<rparr>"

fun id_format :: "iidentifier \<Rightarrow> string" where
  "id_format (UnixId u) = ui_value u"
| "id_format (PortId p) = pi_ip p @ '':'' @ to_string (unat (pi_port p))"

definition UnixInfo_isEqual :: "unix_info \<Rightarrow> unix_info \<Rightarrow> bool" where
  "UnixInfo_isEqual this other \<longleftrightarrow> ui_value this = ui_value other"

definition PortInfo_isEqual :: "port_info \<Rightarrow> port_info \<Rightarrow> bool" where
  "PortInfo_isEqual this other =
     (if pi_isRestrictedIp this \<or> pi_isRestrictedIp other
      then pi_port this = pi_port other
      else pi_ip this = pi_ip other \<and> pi_port this = pi_port other)"

text \<open>
  \<open>operator==\<close> first compares the addresses of the two objects, then their dynamic types, and only
  then calls the virtual \<open>isEqual\<close>. An object is its address with its value.
\<close>

fun id_eq :: "iidentifier \<Rightarrow> iidentifier \<Rightarrow> bool" where
  "id_eq (UnixId u) (UnixId v) = UnixInfo_isEqual u v"
| "id_eq (PortId p) (PortId q) = PortInfo_isEqual p q"
| "id_eq _ _ = False"

definition IIdentifier_eq :: "nat \<times> iidentifier \<Rightarrow> nat \<times> iidentifier \<Rightarrow> bool" where
  "IIdentifier_eq this other = (if fst this = fst other then True else id_eq (snd this) (snd other))"

section \<open>Lemmas\<close>

lemma UnixInfo_isEqual_iff [simp]: "UnixInfo_isEqual u v \<longleftrightarrow> u = v"
  by (auto simp: UnixInfo_isEqual_def intro: unix_info.equality)

lemma id_eq_refl [simp]: "id_eq a a"
  by (cases a) (auto simp: PortInfo_isEqual_def)

lemma id_eq_sym: "id_eq a b \<longleftrightarrow> id_eq b a"
  by (cases a; cases b) (auto simp: PortInfo_isEqual_def)

lemma id_eq_UnixId [simp]:
  "id_eq (UnixId u) b \<longleftrightarrow> b = UnixId u"
  "id_eq b (UnixId u) \<longleftrightarrow> b = UnixId u"
  by (cases b; auto)+

text \<open>
  The address test is not observable: two objects at one address hold one value, and \<open>isEqual\<close> is
  reflexive. So the rest of the development compares identifiers by \<open>id_eq\<close>.
\<close>

lemma IIdentifier_eq_value:
  "(fst x = fst y \<longrightarrow> snd x = snd y) \<Longrightarrow> IIdentifier_eq x y = id_eq (snd x) (snd y)"
  by (auto simp: IIdentifier_eq_def)

lemma multicast_range:
  assumes "a \<le> 255" "b \<le> 255" "c \<le> 255" "d \<le> 255"
  shows "0xE0000000 \<le> ipv4_num a b c d \<and> ipv4_num a b c d \<le> 0xEFFFFFFF \<longleftrightarrow> 224 \<le> a \<and> a \<le> 239"
proof -
  let ?n = "a * 16777216 + b * 65536 + c * 256 + d"
  have "unat (0xE0000000 :: u32) = 3758096384" "unat (0xEFFFFFFF :: u32) = 4026531839"
    by simp_all
  then have "0xE0000000 \<le> ipv4_num a b c d \<and> ipv4_num a b c d \<le> 0xEFFFFFFF
      \<longleftrightarrow> 3758096384 \<le> ?n \<and> ?n \<le> 4026531839"
    by (simp only: word_le_nat_alt unat_ipv4_num [OF assms])
  also have "\<dots> \<longleftrightarrow> 224 \<le> a \<and> a \<le> 239"
    using assms by arith
  finally show ?thesis .
qed

lemma isMulticastIp_dotted:
  assumes "a \<le> 255" "b \<le> 255" "c \<le> 255" "d \<le> 255"
  shows "isMulticastIp (inet_ntoa (ipv4_num a b c d)) \<longleftrightarrow> 224 \<le> a \<and> a \<le> 239"
proof -
  have "CHR 0x00 \<notin> set (inet_ntoa w)" for w
    using to_string_digit_codes [of "CHR 0x00"] by (auto simp: inet_ntoa_def Let_def)
  then have "c_str (inet_ntoa w) = inet_ntoa w" for w by (simp add: c_str_id)
  then show ?thesis
    using multicast_range [OF assms] by (simp add: isMulticastIp_def inet_pton_ntoa)
qed

definition isGroupIp :: "string \<Rightarrow> bool" where
  "isGroupIp ip \<longleftrightarrow> isBroadcastIp ip \<or> isMulticastIp ip"

lemma PortInfo_isEqual_iff:
  "PortInfo_isEqual (PortInfo ip port) (PortInfo ip' port') \<longleftrightarrow>
     port = port' \<and> (ip = ip' \<or> isGroupIp ip \<or> isGroupIp ip')"
  by (auto simp: PortInfo_isEqual_def PortInfo_def isGroupIp_def)

section \<open>Properties\<close>

text \<open>
  \<open>isMulticastIp\<close> accepts exactly the strings that are a dotted-decimal IPv4 address with a
  first octet from 224 to 239 (class D).
\<close>

theorem isMulticastIp_iff:
  "isMulticastIp ip \<longleftrightarrow>
     (\<exists>a b c d. 224 \<le> a \<and> a \<le> 239 \<and> b \<le> 255 \<and> c \<le> 255 \<and> d \<le> 255
        \<and> map octet (split_on CHR ''.'' (c_str ip)) = [Some a, Some b, Some c, Some d])"
  (is "?L \<longleftrightarrow> ?R")
proof
  assume ?L
  then obtain w where w: "inet_pton (c_str ip) = Some w" "0xE0000000 \<le> w" "w \<le> 0xEFFFFFFF"
    by (auto simp: isMulticastIp_def split: option.splits)
  obtain a b c d where abcd: "a \<le> 255" "b \<le> 255" "c \<le> 255" "d \<le> 255" "w = ipv4_num a b c d"
    and m: "map octet (split_on CHR ''.'' (c_str ip)) = [Some a, Some b, Some c, Some d]"
    using inet_pton_SomeD [OF w(1)] by (elim exE conjE) (rule that)
  have "224 \<le> a \<and> a \<le> 239"
    using multicast_range [OF abcd(1-4)] w(2,3) unfolding abcd(5) by simp
  with abcd(2-4) m show ?R by (intro exI conjI) auto
next
  assume ?R
  then obtain a b c d where r: "224 \<le> a" "a \<le> 239" "b \<le> 255" "c \<le> 255" "d \<le> 255"
    and m: "map octet (split_on CHR ''.'' (c_str ip)) = [Some a, Some b, Some c, Some d]"
    by (elim exE conjE) (rule that)
  from m have "inet_pton (c_str ip) = Some (ipv4_num a b c d)" by (simp add: inet_pton_def)
  moreover have "0xE0000000 \<le> ipv4_num a b c d \<and> ipv4_num a b c d \<le> 0xEFFFFFFF"
    by (rule multicast_range [THEN iffD2]) (use r in simp_all)
  ultimately show ?L by (simp add: isMulticastIp_def)
qed

text \<open>
  Equality of two UDP endpoints built by the constructor: the ports agree, and the addresses
  agree or one of them is a broadcast or multicast address. So a client of a group accepts the
  answer of any member of the group on that port.
\<close>

theorem port_info_equality:
  "id_eq (PortId (PortInfo ip port)) (PortId (PortInfo ip' port')) \<longleftrightarrow>
     port = port' \<and> (ip = ip' \<or> isBroadcastIp ip \<or> isMulticastIp ip \<or> isBroadcastIp ip' \<or> isMulticastIp ip')"
  by (auto simp: PortInfo_isEqual_iff isGroupIp_def)

text \<open>
  Equality of identifiers is not an equivalence: two different unicast endpoints are both equal
  to the group endpoint of their port, and not equal to each other.
\<close>

lemma port_info_equality_not_transitive:
  assumes "isBroadcastIp g \<or> isMulticastIp g" and "ip \<noteq> ip'"
    and "\<not> isBroadcastIp ip" "\<not> isMulticastIp ip" "\<not> isBroadcastIp ip'" "\<not> isMulticastIp ip'"
  shows "id_eq (PortId (PortInfo ip port)) (PortId (PortInfo g port))
    \<and> id_eq (PortId (PortInfo g port)) (PortId (PortInfo ip' port))
    \<and> \<not> id_eq (PortId (PortInfo ip port)) (PortId (PortInfo ip' port))"
  using assms by (auto simp: PortInfo_isEqual_iff isGroupIp_def)

text \<open>
  \<open>operator==\<close> of identifiers on objects: reflexive and symmetric, never true between a Unix and
  a UDP identifier (\<open>typeid\<close> is compared before the unchecked downcast), and on Unix identifiers it
  is equality of the names. Two objects at one address are one object.
\<close>

theorem identifier_operator_eq:
  assumes "fst x = fst y \<longrightarrow> snd x = snd y"
  shows "IIdentifier_eq x x \<and> (IIdentifier_eq x y \<longleftrightarrow> IIdentifier_eq y x)
    \<and> (snd x = UnixId u \<longrightarrow> snd y = PortId p \<longrightarrow> \<not> IIdentifier_eq x y)
    \<and> (snd x = UnixId u \<longrightarrow> snd y = UnixId v \<longrightarrow> (IIdentifier_eq x y \<longleftrightarrow> ui_value u = ui_value v))"
proof -
  have "IIdentifier_eq x y = id_eq (snd x) (snd y)" "IIdentifier_eq y x = id_eq (snd y) (snd x)"
    using assms by (auto intro!: IIdentifier_eq_value)
  then show ?thesis
    using id_eq_sym [of "snd x" "snd y"]
    by (auto simp: IIdentifier_eq_def UnixInfo_isEqual_def simp del: UnixInfo_isEqual_iff)
qed

theorem identifier_operator_eq_witness:
  "\<not> IIdentifier_eq (16, UnixId (UnixInfo ''a'')) (32, PortId (PortInfo ''a'' 80))"
  by (rule identifier_operator_eq [THEN conjunct2, THEN conjunct2, THEN conjunct1, rule_format,
        of _ _ "UnixInfo ''a''" "PortInfo ''a'' 80"]) simp_all

end
