(* ===== verification/MessageFilter.thy ===== *)
theory MessageFilter
  imports Message Identifier
begin

text \<open>
  The message filters of LinxMessageFilter.h, the signal numbers of LinxMessageIds.h, the time-out
  and wildcard constants of LinxIpc.h, and the received-message structure of LinxServer.h that the
  filters are applied to.
\<close>

section \<open>Constants\<close>

definition IPC_PING_REQ :: u32 where "IPC_PING_REQ = 1"
definition IPC_PING_RSP :: u32 where "IPC_PING_RSP = 2"

definition IMMEDIATE_TIMEOUT :: int where "IMMEDIATE_TIMEOUT = 0"
definition INFINITE_TIMEOUT :: int where "INFINITE_TIMEOUT = - 1"
definition LINX_ANY_SIG :: "u32 list" where "LINX_ANY_SIG = []"
definition LINX_ANY_FROM :: "iidentifier option" where "LINX_ANY_FROM = None"
definition LINX_DEFAULT_QUEUE_SIZE :: nat where "LINX_DEFAULT_QUEUE_SIZE = 100"

section \<open>Received messages\<close>

text \<open>
  \<open>lr_from\<close> is the \<open>unique_ptr\<close> to the sender (possibly null), \<open>lr_server\<close> the \<open>weak_ptr\<close> to the
  server object, as the number of that object.
\<close>

record linx_received_message =
  lr_message :: raw_message
  lr_from :: "iidentifier option"
  lr_server :: nat

section \<open>Filters\<close>

definition matchesSignalSelector :: "imessage \<Rightarrow> u32 list \<Rightarrow> bool" where
  "matchesSignalSelector msg sigsel =
     (let reqId = getReqId msg in
      length sigsel = 0 \<or> find (\<lambda>id. id = reqId) sigsel \<noteq> None)"

definition matchesFrom :: "iidentifier option \<Rightarrow> iidentifier option \<Rightarrow> bool" where
  "matchesFrom from expected =
     (case expected of
        None \<Rightarrow> True
      | Some ex \<Rightarrow> (case from of None \<Rightarrow> False | Some f \<Rightarrow> id_eq f ex))"

text \<open>The predicate that queue, client and simple server build from the two filters.\<close>

definition matches :: "u32 list \<Rightarrow> iidentifier option \<Rightarrow> raw_message \<Rightarrow> iidentifier option \<Rightarrow> bool" where
  "matches sigsel expected msg from \<longleftrightarrow>
     matchesFrom from expected \<and> matchesSignalSelector (RawM msg) sigsel"

lemma find_eq_Some_iff: "(\<exists>y. find (\<lambda>id. id = x) xs = Some y) \<longleftrightarrow> x \<in> set xs"
  by (induction xs) auto

lemma matchesSignalSelector_iff:
  "matchesSignalSelector msg sigsel \<longleftrightarrow> sigsel = [] \<or> getReqId msg \<in> set sigsel"
  by (simp add: matchesSignalSelector_def find_eq_Some_iff)

lemma matchesFrom_simps [simp]:
  "matchesFrom from None"
  "\<not> matchesFrom None (Some i)"
  "matchesFrom (Some f) (Some i) = id_eq f i"
  by (simp_all add: matchesFrom_def)

lemma matches_any [simp]: "matches LINX_ANY_SIG LINX_ANY_FROM msg from"
  by (simp add: matches_def LINX_ANY_SIG_def LINX_ANY_FROM_def matchesSignalSelector_iff)

lemma matches_reqId: "matches sigsel i msg from \<Longrightarrow> sigsel \<noteq> [] \<Longrightarrow> rm_reqId msg \<in> set sigsel"
  by (simp add: matches_def matchesSignalSelector_iff)

end
