(* ===== verification/Deadlines.thy ===== *)
theory Deadlines
  imports MessageFilter
begin

text \<open>
  The class \<open>Deadline\<close> (Deadline.h). A \<open>steady_clock::time_point\<close> is its count of nanoseconds, the
  reading of the clock is an argument of every operation. \<open>time_point::max()\<close> stands for "no
  deadline". The lemmas bound the remaining time and relate it to expiry.
\<close>

section \<open>Model\<close>

definition time_point_max :: int where "time_point_max = 9223372036854775807"

record deadline =
  dl_deadline :: int

definition Deadline :: "int \<Rightarrow> int \<Rightarrow> deadline" where
  "Deadline now timeoutMs =
     (if timeoutMs \<noteq> INFINITE_TIMEOUT
      then \<lparr>dl_deadline = now + timeoutMs * 1000000\<rparr>
      else \<lparr>dl_deadline = time_point_max\<rparr>)"

definition isExpired :: "deadline \<Rightarrow> int \<Rightarrow> bool" where
  "isExpired d now = (if dl_deadline d = time_point_max then False else now > dl_deadline d)"

definition getRemainingTimeMs :: "deadline \<Rightarrow> int \<Rightarrow> int" where
  "getRemainingTimeMs d now =
     (if dl_deadline d = time_point_max then INFINITE_TIMEOUT
      else if now \<ge> dl_deadline d then 0
      else to_int32 ((dl_deadline d - now) div 1000000))"

section \<open>Lemmas\<close>

text \<open>
  The clock readings for which \<open>now() + milliseconds(timeoutMs)\<close> stays below \<open>time_point::max()\<close>
  for every 32-bit time-out: the first 292 years of the clock less 25 days.
\<close>

definition clock_ok :: "int \<Rightarrow> bool" where
  "clock_ok now \<longleftrightarrow> 0 \<le> now \<and> now < time_point_max - 2147483648 * 1000000"

definition int32 :: "int \<Rightarrow> bool" where
  "int32 t \<longleftrightarrow> - 2147483648 \<le> t \<and> t < 2147483648"

lemma Deadline_infinite [simp]:
  "\<not> isExpired (Deadline now INFINITE_TIMEOUT) now'"
  "getRemainingTimeMs (Deadline now INFINITE_TIMEOUT) now' = INFINITE_TIMEOUT"
  by (simp_all add: Deadline_def isExpired_def getRemainingTimeMs_def)

lemma Deadline_finite:
  assumes "clock_ok now" "int32 t" "t \<noteq> INFINITE_TIMEOUT"
  shows "dl_deadline (Deadline now t) = now + t * 1000000"
    and "dl_deadline (Deadline now t) < time_point_max"
  using assms by (auto simp: Deadline_def clock_ok_def int32_def)

lemma isExpired_finite:
  assumes "clock_ok now" "int32 t" "t \<noteq> INFINITE_TIMEOUT"
  shows "isExpired (Deadline now t) now' \<longleftrightarrow> now + t * 1000000 < now'"
  using Deadline_finite [OF assms] by (simp add: isExpired_def)

lemma remaining_finite:
  assumes "clock_ok now" "int32 t" "t \<noteq> INFINITE_TIMEOUT" "now \<le> now'"
  shows "getRemainingTimeMs (Deadline now t) now' = max 0 ((now + t * 1000000 - now') div 1000000)"
proof -
  let ?r = "(now + t * 1000000 - now') div 1000000"
  show ?thesis
  proof (cases "now' \<ge> now + t * 1000000")
    case True
    then have "?r \<le> 0" 
      using zdiv_mono1 [of "now + t * 1000000 - now'" 0 1000000] by simp
    with True show ?thesis
      using Deadline_finite [OF assms(1-3)] by (simp add: getRemainingTimeMs_def)
  next
    case False
    then have "0 \<le> ?r" by simp
    moreover have "?r \<le> t"
      using assms(4) by (simp add: zdiv_mono1 [of _ "t * 1000000" 1000000, simplified])
    ultimately have "to_int32 ?r = ?r"
      using assms(2) by (intro to_int32_id) (auto simp: int32_def)
    with False \<open>0 \<le> ?r\<close> show ?thesis
      using Deadline_finite [OF assms(1-3)] by (simp add: getRemainingTimeMs_def)
  qed
qed

section \<open>Properties\<close>

text \<open>
  The remaining time of a finite deadline, read at any later clock value: it is between 0 and
  the time-out, so the conversion to \<open>int\<close> loses nothing and it is never mistaken for "infinite";
  waiting for it never overshoots the deadline, and undershoots it by less than a millisecond.
\<close>

theorem remaining_time_bounds:
  assumes "clock_ok now" "int32 t" "t \<noteq> INFINITE_TIMEOUT" "now \<le> now'"
  shows "0 \<le> getRemainingTimeMs (Deadline now t) now'
    \<and> getRemainingTimeMs (Deadline now t) now' \<le> max 0 t
    \<and> now' + getRemainingTimeMs (Deadline now t) now' * 1000000 \<le> max now' (now + t * 1000000)
    \<and> now + t * 1000000 < now' + (getRemainingTimeMs (Deadline now t) now' + 1) * 1000000"
proof -
  let ?x = "now + t * 1000000 - now'"
  have d: "?x div 1000000 * 1000000 \<le> ?x" "?x < (?x div 1000000 + 1) * 1000000"
    by (simp_all add: minus_mod_eq_div_mult [symmetric] algebra_simps)
  from assms(4) d(1) have "?x div 1000000 \<le> t" by linarith
  with d assms(4) show ?thesis
    unfolding remaining_finite [OF assms] by (auto simp: max_def)
qed

theorem remaining_time_bounds_witness:
  "getRemainingTimeMs (Deadline 1000 200) 50001500 \<le> 200
   \<and> 1000 + 200 * 1000000 < 50001500 + (getRemainingTimeMs (Deadline 1000 200) 50001500 + 1) * 1000000"
  using remaining_time_bounds [of 1000 200 50001500]
  by (simp add: clock_ok_def time_point_max_def int32_def INFINITE_TIMEOUT_def)

text \<open>
  Expiry of a deadline: an infinite one never expires and always reports the infinite time-out;
  a finite one expires exactly when the clock has passed it, stays expired, and reports no remaining
  time from then on.
\<close>

lemma deadline_expiry:
  assumes "clock_ok now" "int32 t" "now \<le> now'" "now' \<le> now''"
  shows "(t = INFINITE_TIMEOUT \<longrightarrow> \<not> isExpired (Deadline now t) now'
            \<and> getRemainingTimeMs (Deadline now t) now' = INFINITE_TIMEOUT)
    \<and> (t \<noteq> INFINITE_TIMEOUT \<longrightarrow> (isExpired (Deadline now t) now' \<longleftrightarrow> now + t * 1000000 < now')
            \<and> (isExpired (Deadline now t) now' \<longrightarrow> isExpired (Deadline now t) now''
                 \<and> getRemainingTimeMs (Deadline now t) now'' = 0))"
proof (cases "t = INFINITE_TIMEOUT")
  case True
  then show ?thesis by simp
next
  case False
  have "now \<le> now''" using assms(3,4) by simp
  with isExpired_finite [OF assms(1,2) False] Deadline_finite [OF assms(1,2) False] assms(4) False
  show ?thesis by (auto simp: getRemainingTimeMs_def)
qed

end
