(* ===== verification/Kernel.thy ===== *)
theory Kernel
  imports Deadlines
begin

text \<open>
  The operating system as a parameter. The library's code is a client of the kernel: every system
  call it makes is a field of the record \<open>sys\<close>, a function on an abstract kernel state \<open>'k\<close>, and the
  definitions of the components take that record as an argument. What a theorem needs of the
  documented behaviour of a call is a named hypothesis: \<open>eventfd_sys\<close> is the semantics of a
  semaphore eventfd (eventfd(2), \<open>EFD_SEMAPHORE | EFD_NONBLOCK\<close>), \<open>clock_sys\<close> that of the steady clock.
\<close>

section \<open>System calls\<close>

datatype errno = EBADF | EOTHER int

datatype domain = AF_UNIX | AF_INET

text \<open>
  A socket address: the 108 bytes of \<open>sun_path\<close> and the address length, or the IPv4 address and the
  port (as numbers, the byte order conversions of the code being the identity on these).
\<close>

datatype sockaddr = SunAddr string nat | SinAddr u32 u16

text \<open>
  \<open>recvfrom\<close> returns an error number, or the bytes it stored and what the address structure of the
  caller holds afterwards: the callers clear it before the call, so it is the sender's address, or
  zero bytes when the sender has none. For a \<open>sockaddr_un\<close> this is the 108 characters of \<open>sun_path\<close>.
\<close>

datatype 'a recv_result = RecvErr errno | RecvOk "u8 list" 'a

datatype sockopt =
    AddMembership u32
  | Broadcast int
  | MulticastTtl int
  | MulticastLoop int

record 'k sys =
  sys_now :: "'k \<Rightarrow> int \<times> 'k"
  sys_eventfd :: "'k \<Rightarrow> int \<times> 'k"
  sys_write_u64 :: "int \<Rightarrow> u64 \<Rightarrow> 'k \<Rightarrow> int \<times> 'k"
  sys_read_u64 :: "int \<Rightarrow> 'k \<Rightarrow> int \<times> 'k"
  sys_socket :: "domain \<Rightarrow> 'k \<Rightarrow> int \<times> 'k"
  sys_bind :: "int \<Rightarrow> sockaddr \<Rightarrow> 'k \<Rightarrow> int \<times> 'k"
  sys_poll_in :: "int \<Rightarrow> int \<Rightarrow> 'k \<Rightarrow> (int \<times> errno) \<times> 'k"
  sys_fionread :: "int \<Rightarrow> 'k \<Rightarrow> nat option \<times> 'k"
  sys_recvfrom_un :: "int \<Rightarrow> nat \<Rightarrow> 'k \<Rightarrow> string recv_result \<times> 'k"
  sys_recvfrom_in :: "int \<Rightarrow> nat \<Rightarrow> 'k \<Rightarrow> (u32 \<times> u16) recv_result \<times> 'k"
  sys_sendto :: "int \<Rightarrow> u8 list \<Rightarrow> sockaddr \<Rightarrow> 'k \<Rightarrow> int \<times> 'k"
  sys_shutdown :: "int \<Rightarrow> 'k \<Rightarrow> 'k"
  sys_close :: "int \<Rightarrow> 'k \<Rightarrow> 'k"
  sys_setsockopt :: "int \<Rightarrow> sockopt \<Rightarrow> 'k \<Rightarrow> int \<times> 'k"
  sys_inet_aton :: "string \<Rightarrow> u32 option"

text \<open>The content of a zeroed vector of \<open>n\<close> bytes after \<open>recvfrom\<close> has stored \<open>data\<close> into it.\<close>

definition fill_buffer :: "nat \<Rightarrow> u8 list \<Rightarrow> u8 list" where
  "fill_buffer n data = take n data @ replicate (n - length data) 0"

lemma length_fill_buffer [simp]: "length (fill_buffer n data) = n"
  by (simp add: fill_buffer_def)

lemma fill_buffer_exact [simp]: "fill_buffer (length data) data = data"
  by (simp add: fill_buffer_def)

lemma fill_buffer_0 [simp]: "fill_buffer 0 data = []"
  by (simp add: fill_buffer_def)

section \<open>Documented behaviour: eventfd\<close>

text \<open>
  \<open>evc k fd\<close> is the counter of the semaphore eventfd \<open>fd\<close>, \<open>None\<close> when \<open>fd\<close> is no open eventfd. A
  write of 1 increments it unless it is at its maximum \<open>2 ^ 64 - 2\<close> (then it fails with \<open>EAGAIN\<close>),
  a read decrements it, and fails with \<open>EAGAIN\<close> when it is 0.
\<close>

definition evc_max :: nat where "evc_max = 18446744073709551614"

locale eventfd_sys =
  fixes S :: "'k sys" and evc :: "'k \<Rightarrow> int \<Rightarrow> nat option"
  assumes eventfd_create: "sys_eventfd S k = (fd, k') \<Longrightarrow> 0 \<le> fd \<Longrightarrow>
            evc k fd = None \<and> evc k' = (evc k)(fd \<mapsto> 0)"
    and eventfd_fail: "sys_eventfd S k = (fd, k') \<Longrightarrow> fd < 0 \<Longrightarrow> evc k' = evc k"
    and write_room: "evc k fd = Some n \<Longrightarrow> n < evc_max \<Longrightarrow>
            \<exists>k'. sys_write_u64 S fd 1 k = (8, k') \<and> evc k' = (evc k)(fd \<mapsto> Suc n)"
    and write_full: "evc k fd = Some n \<Longrightarrow> evc_max \<le> n \<Longrightarrow>
            \<exists>k'. sys_write_u64 S fd 1 k = (- 1, k') \<and> evc k' = evc k"
    and read_some: "evc k fd = Some (Suc n) \<Longrightarrow>
            \<exists>k'. sys_read_u64 S fd k = (8, k') \<and> evc k' = (evc k)(fd \<mapsto> n)"
    and read_none: "evc k fd = Some 0 \<Longrightarrow>
            \<exists>k'. sys_read_u64 S fd k = (- 1, k') \<and> evc k' = evc k"

text \<open>The calls on sockets do not touch eventfds; \<open>close\<close> ends the one it is given.\<close>

locale events_sys = eventfd_sys S evc
  for S :: "'k sys" and evc :: "'k \<Rightarrow> int \<Rightarrow> nat option" +
  assumes evc_poll: "sys_poll_in S fd timeout k = (p, k') \<Longrightarrow> evc k' = evc k"
    and evc_fionread: "sys_fionread S fd k = (avail, k') \<Longrightarrow> evc k' = evc k"
    and evc_recv_un: "sys_recvfrom_un S fd n k = (r, k') \<Longrightarrow> evc k' = evc k"
    and evc_recv_in: "sys_recvfrom_in S fd n k = (r', k') \<Longrightarrow> evc k' = evc k"
    and evc_sendto: "sys_sendto S fd d a k = (i, k') \<Longrightarrow> evc k' = evc k"
    and evc_shutdown: "evc (sys_shutdown S fd k) = evc k"
    and evc_close: "evc (sys_close S fd k) = (evc k)(fd := None)"

section \<open>Documented behaviour: the steady clock\<close>

text \<open>
  \<open>time k\<close> is what the steady clock shows in kernel state \<open>k\<close>. No call turns it back, and a reading
  of the clock takes at least one tick of it (a nanosecond), so that two readings never coincide.
\<close>

locale clock_sys =
  fixes S :: "'k sys" and time :: "'k \<Rightarrow> int"
  assumes clock_now: "sys_now S k = (t, k') \<Longrightarrow> t = time k \<and> time k < time k'"
    and clock_poll: "sys_poll_in S fd timeout k = (p, k') \<Longrightarrow> time k \<le> time k'"
    and clock_fionread: "sys_fionread S fd k = (avail, k') \<Longrightarrow> time k \<le> time k'"
    and clock_recv_un: "sys_recvfrom_un S fd n k = (r, k') \<Longrightarrow> time k \<le> time k'"
    and clock_recv_in: "sys_recvfrom_in S fd n k = (r', k') \<Longrightarrow> time k \<le> time k'"
    and clock_sendto: "sys_sendto S fd d a k = (i, k') \<Longrightarrow> time k \<le> time k'"

text \<open>
  A kernel on which every socket name has at most 106 characters: the \<open>sun_path\<close> that \<open>recvfrom\<close>
  leaves in the cleared structure still has a NUL after its first character.
\<close>

locale names_sys = clock_sys S time
  for S :: "'k sys" and time :: "'k \<Rightarrow> int" +
  assumes names_terminated: "sys_recvfrom_un S fd n k = (RecvOk d path, k') \<Longrightarrow>
            CHR 0x00 \<in> set (drop 1 path) \<and> length path = 108"

text \<open>
  A kernel whose calls have a bounded overhead: a call takes at most \<open>J\<close> nanoseconds more than the
  time it is asked to wait.
\<close>

locale bounded_sys = clock_sys S time
  for S :: "'k sys" and time :: "'k \<Rightarrow> int" +
  fixes J :: int
  assumes bound_now: "sys_now S k = (t, k') \<Longrightarrow> time k' \<le> time k + J"
    and bound_poll: "sys_poll_in S fd timeout k = (p, k') \<Longrightarrow> 0 \<le> timeout \<Longrightarrow>
            time k' \<le> time k + timeout * 1000000 + J"
    and bound_fionread: "sys_fionread S fd k = (avail, k') \<Longrightarrow> time k' \<le> time k + J"
    and bound_recv_un: "sys_recvfrom_un S fd n k = (r, k') \<Longrightarrow> time k' \<le> time k + J"
    and bound_recv_in: "sys_recvfrom_in S fd n k = (r', k') \<Longrightarrow> time k' \<le> time k + J"
    and bound_sendto: "sys_sendto S fd d a k = (i, k') \<Longrightarrow> time k' \<le> time k + J"

locale bounded_names_sys = bounded_sys S time J + names_sys S time
  for S :: "'k sys" and time :: "'k \<Rightarrow> int" and J :: int

section \<open>The deadline and the clock\<close>

text \<open>The operations of \<open>Deadline\<close> with the clock readings they make.\<close>

definition Deadline_at :: "'k sys \<Rightarrow> int \<Rightarrow> 'k \<Rightarrow> deadline \<times> 'k" where
  "Deadline_at S timeoutMs k =
     (if timeoutMs \<noteq> INFINITE_TIMEOUT
      then let (now, k') = sys_now S k in (Deadline now timeoutMs, k')
      else (Deadline 0 timeoutMs, k))"

definition isExpired_at :: "'k sys \<Rightarrow> deadline \<Rightarrow> 'k \<Rightarrow> bool \<times> 'k" where
  "isExpired_at S d k =
     (if dl_deadline d = time_point_max then (False, k)
      else let (now, k') = sys_now S k in (isExpired d now, k'))"

definition getRemainingTimeMs_at :: "'k sys \<Rightarrow> deadline \<Rightarrow> 'k \<Rightarrow> int \<times> 'k" where
  "getRemainingTimeMs_at S d k =
     (if dl_deadline d = time_point_max then (INFINITE_TIMEOUT, k)
      else let (now, k') = sys_now S k in (getRemainingTimeMs d now, k'))"

context clock_sys
begin

lemma Deadline_at_time: "Deadline_at S t k = (d, k') \<Longrightarrow> time k \<le> time k'"
  using clock_now by (force simp: Deadline_at_def split: if_splits prod.splits)

lemma isExpired_at_time: "isExpired_at S d k = (b, k') \<Longrightarrow> time k \<le> time k'"
  using clock_now by (force simp: isExpired_at_def split: if_splits prod.splits)

lemma getRemainingTimeMs_at_time: "getRemainingTimeMs_at S d k = (r, k') \<Longrightarrow> time k \<le> time k'"
  using clock_now by (force simp: getRemainingTimeMs_at_def split: if_splits prod.splits)

lemma Deadline_at_finite:
  assumes "clock_ok (time k)" "int32 timeoutMs" "timeoutMs \<noteq> INFINITE_TIMEOUT" "Deadline_at S timeoutMs k = (dl, k1)"
  shows "dl_deadline dl = time k + timeoutMs * 1000000" and "dl_deadline dl \<noteq> time_point_max" and "time k \<le> time k1"
proof -
  obtain now where n: "sys_now S k = (now, k1)" and d: "dl = Deadline now timeoutMs"
    using assms(3,4) by (auto simp: Deadline_at_def split: prod.splits)
  from clock_now [OF n] have "now = time k" "time k \<le> time k1" by auto
  with Deadline_finite [OF assms(1-3)] d
  show "dl_deadline dl = time k + timeoutMs * 1000000" "dl_deadline dl \<noteq> time_point_max" "time k \<le> time k1" by auto
qed

text \<open>A finite deadline that is found unexpired has come nearer by at least a tick.\<close>

lemma isExpired_at_progress:
  assumes "isExpired_at S d k = (False, k')" "dl_deadline d \<noteq> time_point_max"
  shows "time k \<le> dl_deadline d \<and> time k < time k'"
proof -
  obtain now k1 where n: "sys_now S k = (now, k1)" by fastforce
  with assms clock_now [OF n] show ?thesis
    by (auto simp: isExpired_at_def isExpired_def split: if_splits)
qed

end

context bounded_sys
begin

lemma J_pos: "0 < J"
proof -
  obtain t k' where "sys_now S undefined = (t, k')" by fastforce
  with clock_now [OF this] bound_now [OF this] show ?thesis by simp
qed

lemma bound_Deadline_at: "Deadline_at S t k = (d, k') \<Longrightarrow> time k' \<le> time k + J"
  using bound_now [of k] J_pos by (auto simp: Deadline_at_def split: if_splits prod.splits)

lemma bound_isExpired_at: "isExpired_at S d k = (b, k') \<Longrightarrow> time k' \<le> time k + J"
  using bound_now [of k] J_pos by (auto simp: isExpired_at_def split: if_splits prod.splits)

text \<open>Waiting for the remaining time ends at the deadline, or now if it has passed.\<close>

lemma bound_remaining_at:
  assumes "getRemainingTimeMs_at S d k = (t, k')" "dl_deadline d \<noteq> time_point_max"
    and "dl_deadline d - time k < 2147483648 * 1000000"
  shows "0 \<le> t \<and> time k + t * 1000000 \<le> max (time k) (dl_deadline d) \<and> time k' \<le> time k + J"
proof -
  obtain now where n: "sys_now S k = (now, k')" and t: "t = getRemainingTimeMs d now"
    using assms(1,2) by (auto simp: getRemainingTimeMs_at_def split: prod.splits)
  have now: "now = time k" using clock_now [OF n] by simp
  show ?thesis
  proof (cases "now \<ge> dl_deadline d")
    case True
    with assms(2) t now bound_now [OF n] show ?thesis by (simp add: getRemainingTimeMs_def)
  next
    case False
    let ?r = "(dl_deadline d - now) div 1000000"
    have r: "0 \<le> ?r" "?r * 1000000 \<le> dl_deadline d - now" using False by simp_all
    moreover from r(2) assms(3) now have "?r < 2147483648" by linarith
    ultimately have "t = ?r" using t assms(2) False by (simp add: getRemainingTimeMs_def to_int32_id)
    with r now bound_now [OF n] show ?thesis by simp
  qed
qed

end

section \<open>Documented behaviour: descriptors\<close>

text \<open>
  \<open>fds k\<close> is the set of open descriptors. \<open>socket\<close> and \<open>eventfd\<close> open a fresh one or fail, \<open>close\<close>
  closes one, the other calls leave the set alone.
\<close>

locale fd_sys =
  fixes S :: "'k sys" and fds :: "'k \<Rightarrow> int set"
  assumes fds_nonneg: "fd \<in> fds k \<Longrightarrow> 0 \<le> fd"
    and fds_socket: "sys_socket S d k = (fd, k') \<Longrightarrow>
            (if fd < 0 then fds k' = fds k else fd \<notin> fds k \<and> fds k' = insert fd (fds k))"
    and fds_eventfd: "sys_eventfd S k = (fd, k') \<Longrightarrow>
            (if fd < 0 then fds k' = fds k else fd \<notin> fds k \<and> fds k' = insert fd (fds k))"
    and fds_close: "fds (sys_close S fd k) = fds k - {fd}"
    and fds_shutdown: "fds (sys_shutdown S fd k) = fds k"
    and fds_bind: "sys_bind S fd a k = (r, k') \<Longrightarrow> fds k' = fds k"
    and fds_setsockopt: "sys_setsockopt S fd opt k = (r, k') \<Longrightarrow> fds k' = fds k"
    and fds_read: "sys_read_u64 S fd k = (r, k') \<Longrightarrow> fds k' = fds k"

text \<open>A kernel on which the remaining calls leave the descriptors alone, too.\<close>

locale fd_frame_sys = fd_sys S fds
  for S :: "'k sys" and fds :: "'k \<Rightarrow> int set" +
  assumes fds_now: "sys_now S k = (t, k') \<Longrightarrow> fds k' = fds k"
    and fds_write: "sys_write_u64 S fd v k = (r, k') \<Longrightarrow> fds k' = fds k"
    and fds_poll: "sys_poll_in S fd timeout k = (p, k') \<Longrightarrow> fds k' = fds k"
    and fds_fionread: "sys_fionread S fd k = (avail, k') \<Longrightarrow> fds k' = fds k"
    and fds_recv_un: "sys_recvfrom_un S fd n k = (x, k') \<Longrightarrow> fds k' = fds k"
    and fds_recv_in: "sys_recvfrom_in S fd n k = (x', k') \<Longrightarrow> fds k' = fds k"
    and fds_sendto: "sys_sendto S fd d a k = (r, k') \<Longrightarrow> fds k' = fds k"
begin

lemma Deadline_at_fds: "Deadline_at S t k = (d, k') \<Longrightarrow> fds k' = fds k"
  using fds_now by (force simp: Deadline_at_def split: if_splits prod.splits)

lemma isExpired_at_fds: "isExpired_at S d k = (b, k') \<Longrightarrow> fds k' = fds k"
  using fds_now by (force simp: isExpired_at_def split: if_splits prod.splits)

lemma getRemainingTimeMs_at_fds: "getRemainingTimeMs_at S d k = (r, k') \<Longrightarrow> fds k' = fds k"
  using fds_now by (force simp: getRemainingTimeMs_at_def split: if_splits prod.splits)

end

end
