(* ===== verification/EventFd.thy ===== *)
theory EventFd
  imports Kernel
begin

text \<open>
  The class \<open>LinxEventFd\<close> (LinxEventFd.h, LinxEventFd.cpp) over the kernel parameter. The loop of
  \<open>clearEvents\<close> is a partial function: \<open>None\<close> would be a loop that never ends. Under the documented
  eventfd semantics the operations are those of a counter, and the loop ends.
\<close>

section \<open>Model\<close>

record linx_eventfd =
  efd :: int

definition LinxEventFd :: "'k sys \<Rightarrow> 'k \<Rightarrow> linx_eventfd \<times> 'k" where
  "LinxEventFd S k = (let (fd, k') = sys_eventfd S k in (\<lparr>efd = fd\<rparr>, k'))"

definition LinxEventFd_dtor :: "'k sys \<Rightarrow> linx_eventfd \<Rightarrow> 'k \<Rightarrow> 'k" where
  "LinxEventFd_dtor S this k = (if efd this \<ge> 0 then sys_close S (efd this) k else k)"

definition writeEvent :: "'k sys \<Rightarrow> linx_eventfd \<Rightarrow> 'k \<Rightarrow> int \<times> 'k" where
  "writeEvent S this k =
     (if efd this < 0 then (- 1, k)
      else let (s, k') = sys_write_u64 S (efd this) 1 k
           in if s \<noteq> 8 then (- 2, k') else (0, k'))"

definition readEvent :: "'k sys \<Rightarrow> linx_eventfd \<Rightarrow> 'k \<Rightarrow> int \<times> 'k" where
  "readEvent S this k =
     (if efd this < 0 then (- 1, k)
      else let (s, k') = sys_read_u64 S (efd this) k
           in if s \<noteq> 8 then (- 2, k') else (0, k'))"

partial_function (option) clear_loop :: "'k sys \<Rightarrow> int \<Rightarrow> 'k \<Rightarrow> 'k option" where
  "clear_loop S fd k =
     (let r = sys_read_u64 S fd k in if fst r = 8 then clear_loop S fd (snd r) else Some (snd r))"

declare clear_loop.simps [code]

definition clearEvents :: "'k sys \<Rightarrow> linx_eventfd \<Rightarrow> 'k \<Rightarrow> 'k option" where
  "clearEvents S this k = (if efd this < 0 then Some k else clear_loop S (efd this) k)"

definition LinxEventFd_getFd :: "linx_eventfd \<Rightarrow> int" where
  "LinxEventFd_getFd this = efd this"

section \<open>An unopened object never reaches the kernel\<close>

lemma closed_eventfd [simp]:
  assumes "efd this < 0"
  shows "writeEvent S this k = (- 1, k)" "readEvent S this k = (- 1, k)"
    "clearEvents S this k = Some k" "LinxEventFd_dtor S this k = k"
  using assms by (simp_all add: writeEvent_def readEvent_def clearEvents_def LinxEventFd_dtor_def)

section \<open>The counter under the documented semantics\<close>

context eventfd_sys
begin

lemma writeEvent_room:
  assumes "evc k (efd e) = Some n" "n < evc_max" "0 \<le> efd e"
  shows "\<exists>k'. writeEvent S e k = (0, k') \<and> evc k' = (evc k)(efd e \<mapsto> Suc n)"
  using write_room [OF assms(1,2)] assms(3) by (auto simp: writeEvent_def)

lemma writeEvent_full:
  assumes "evc k (efd e) = Some n" "evc_max \<le> n" "0 \<le> efd e"
  shows "\<exists>k'. writeEvent S e k = (- 2, k') \<and> evc k' = evc k"
  using write_full [OF assms(1,2)] assms(3) by (auto simp: writeEvent_def)

lemma readEvent_some:
  assumes "evc k (efd e) = Some (Suc n)" "0 \<le> efd e"
  shows "\<exists>k'. readEvent S e k = (0, k') \<and> evc k' = (evc k)(efd e \<mapsto> n)"
  using read_some [OF assms(1)] assms(2) by (auto simp: readEvent_def)

lemma readEvent_none:
  assumes "evc k (efd e) = Some 0" "0 \<le> efd e"
  shows "\<exists>k'. readEvent S e k = (- 2, k') \<and> evc k' = evc k"
  using read_none [OF assms(1)] assms(2) by (auto simp: readEvent_def)

lemma clear_loop_returns:
  "evc k fd = Some n \<Longrightarrow> \<exists>k'. clear_loop S fd k = Some k' \<and> evc k' = (evc k)(fd \<mapsto> 0)"
proof (induction n arbitrary: k)
  case 0
  then obtain k' where "sys_read_u64 S fd k = (- 1, k')" "evc k' = evc k"
    using read_none by blast
  with 0 show ?case by (auto simp: clear_loop.simps [of S fd k])
next
  case (Suc n)
  then obtain k' where r: "sys_read_u64 S fd k = (8, k')" and e: "evc k' = (evc k)(fd \<mapsto> n)"
    using read_some by blast
  then obtain k'' where "clear_loop S fd k' = Some k''" "evc k'' = (evc k')(fd \<mapsto> 0)"
    using Suc.IH [of k'] by (metis fun_upd_same)
  with r e show ?case by (auto simp: clear_loop.simps [of S fd k])
qed

lemma clearEvents_returns:
  assumes "evc k (efd e) = Some n" "0 \<le> efd e"
  shows "\<exists>k'. clearEvents S e k = Some k' \<and> evc k' = (evc k)(efd e \<mapsto> 0)"
  using clear_loop_returns [OF assms(1)] assms(2) by (auto simp: clearEvents_def)

lemma LinxEventFd_new:
  assumes "LinxEventFd S k = (e, k')" "0 \<le> efd e"
  shows "evc k (efd e) = None" "evc k' = (evc k)(efd e \<mapsto> 0)"
  using assms eventfd_create [of k "efd e" k'] by (auto simp: LinxEventFd_def split: prod.splits)

end

section \<open>The descriptors\<close>

context fd_frame_sys
begin

lemma writeEvent_fds: "writeEvent S e k = (r, k') \<Longrightarrow> fds k' = fds k"
  using fds_write by (auto simp: writeEvent_def split: if_splits prod.splits)

lemma readEvent_fds: "readEvent S e k = (r, k') \<Longrightarrow> fds k' = fds k"
  using fds_read by (auto simp: readEvent_def split: if_splits prod.splits)

lemma clear_loop_fds: "clear_loop T fd k = Some k' \<Longrightarrow> T = S \<Longrightarrow> fds k' = fds k"
proof (induction rule: clear_loop.raw_induct [rotated, consumes 1, case_names 1])
  case (1 loop T fd k k')
  obtain r k1 where r: "sys_read_u64 T fd k = (r, k1)" by fastforce
  then have "fds k1 = fds k" using fds_read "1.prems" by simp
  with r "1"(1,2) "1.prems" show ?case by (auto simp: Let_def split: if_splits)
qed

lemma clearEvents_fds: "clearEvents S e k = Some k' \<Longrightarrow> fds k' = fds k"
  using clear_loop_fds [OF _ refl] by (auto simp: clearEvents_def split: if_splits)

lemma LinxEventFd_dtor_fds: "fds (LinxEventFd_dtor S e k) = fds k - {efd e}"
  using fds_nonneg [of "efd e" k] by (auto simp: LinxEventFd_dtor_def fds_close)

end

end
