(* ===== verification/LinxQueue.thy ===== *)
theory LinxQueue
  imports EventFd "HOL-Library.Multiset"
begin

text \<open>
  The bounded message queue \<open>LinxQueue\<close> (LinxQueue.h, LinxQueue.cpp). Every public operation runs
  under the mutex, so an operation is one atomic function on the queue object and the kernel state
  (which holds the eventfd counter). The waits on the condition variable are modelled with the
  schedule of what the other threads do while this one sleeps. The lemmas give the invariant that
  ties the eventfd counter to the number of queued messages, the selective first-in-first-out
  behaviour, and the conditions under which a wait returns.
\<close>

section \<open>Model\<close>

record linx_queue =
  q_stopped :: bool
  q_efd :: linx_eventfd
  q_max_size :: int
  q_queue :: "linx_received_message list"

definition LinxQueue :: "linx_eventfd \<Rightarrow> int \<Rightarrow> linx_queue" where
  "LinxQueue e sz = \<lparr>q_stopped = False, q_efd = e, q_max_size = sz, q_queue = []\<rparr>"

definition LinxQueue_add ::
  "'k sys \<Rightarrow> linx_received_message \<Rightarrow> linx_queue \<Rightarrow> 'k \<Rightarrow> int \<times> linx_queue \<times> 'k" where
  "LinxQueue_add S msg q k =
     (if length (q_queue q) < to_size_t (q_max_size q)
      then let q' = q\<lparr>q_queue := q_queue q @ [msg]\<rparr>;
               (_, k') = writeEvent S (q_efd q) k
           in (0, q', k')
      else (- 1, q, k))"

definition LinxQueue_stop :: "'k sys \<Rightarrow> linx_queue \<Rightarrow> 'k \<Rightarrow> (linx_queue \<times> 'k) option" where
  "LinxQueue_stop S q k =
     (case clearEvents S (q_efd q) k of
        None \<Rightarrow> None
      | Some k' \<Rightarrow> Some (q\<lparr>q_stopped := True, q_queue := []\<rparr>, k'))"

definition LinxQueue_clear :: "'k sys \<Rightarrow> linx_queue \<Rightarrow> 'k \<Rightarrow> (linx_queue \<times> 'k) option" where
  "LinxQueue_clear S q k =
     (case clearEvents S (q_efd q) k of
        None \<Rightarrow> None
      | Some k' \<Rightarrow> Some (q\<lparr>q_queue := []\<rparr>, k'))"

text \<open>The destructor stops the queue, then its eventfd member is destroyed.\<close>

definition LinxQueue_dtor :: "'k sys \<Rightarrow> linx_queue \<Rightarrow> 'k \<Rightarrow> 'k option" where
  "LinxQueue_dtor S q k =
     (case LinxQueue_stop S q k of
        None \<Rightarrow> None
      | Some (q', k') \<Rightarrow> Some (LinxEventFd_dtor S (q_efd q') k'))"

definition queue_match :: "u32 list \<Rightarrow> iidentifier option \<Rightarrow> linx_received_message \<Rightarrow> bool" where
  "queue_match sigsel from msg \<longleftrightarrow> matches sigsel from (lr_message msg) (lr_from msg)"

lemma queue_match_any [simp]: "queue_match LINX_ANY_SIG LINX_ANY_FROM lr"
  by (simp add: queue_match_def matches_def LINX_ANY_SIG_def LINX_ANY_FROM_def matchesSignalSelector_iff)

lemma extract_any: "List.extract (queue_match LINX_ANY_SIG LINX_ANY_FROM) [lr] = Some ([], lr, [])"
  by (simp add: extract_Cons_code)

definition findMessage ::
  "'k sys \<Rightarrow> u32 list \<Rightarrow> iidentifier option \<Rightarrow> linx_queue \<Rightarrow> 'k
     \<Rightarrow> linx_received_message option \<times> linx_queue \<times> 'k" where
  "findMessage S sigsel from q k =
     (case List.extract (queue_match sigsel from) (q_queue q) of
        None \<Rightarrow> (None, q, k)
      | Some (before, msg, after) \<Rightarrow>
          let q' = q\<lparr>q_queue := before @ after\<rparr>;
              (_, k') = readEvent S (q_efd q) k
          in (Some msg, q', k'))"

definition getMessage ::
  "'k sys \<Rightarrow> u32 list \<Rightarrow> iidentifier option \<Rightarrow> linx_queue \<Rightarrow> 'k
     \<Rightarrow> linx_received_message option \<times> linx_queue \<times> 'k" where
  "getMessage S sigsel from q k = findMessage S sigsel from q k"

definition LinxQueue_size :: "linx_queue \<Rightarrow> int" where
  "LinxQueue_size q = to_int32 (int (length (q_queue q)))"

definition LinxQueue_getFd :: "linx_queue \<Rightarrow> int" where
  "LinxQueue_getFd q = LinxEventFd_getFd (q_efd q)"

section \<open>Waiting\<close>

text \<open>
  While a thread sleeps on the condition variable it has released the mutex, and other threads run
  operations on the queue. \<open>run_op\<close> is one such operation; a schedule gives, for every wake-up
  (notified or spurious), the operations that ran before it.
\<close>

datatype queue_op =
    OpAdd linx_received_message
  | OpGet "u32 list" "iidentifier option"
  | OpClear
  | OpStop

datatype op_out = Added bool | Got "linx_received_message option" | Done

fun queue_step :: "'k sys \<Rightarrow> queue_op \<Rightarrow> linx_queue \<times> 'k \<Rightarrow> (op_out \<times> linx_queue \<times> 'k) option" where
  "queue_step S (OpAdd m) (q, k) =
     (let (r, q', k') = LinxQueue_add S m q k in Some (Added (r = 0), q', k'))"
| "queue_step S (OpGet sigsel from) (q, k) =
     (let (m, q', k') = getMessage S sigsel from q k in Some (Got m, q', k'))"
| "queue_step S OpClear (q, k) = map_option (Pair Done) (LinxQueue_clear S q k)"
| "queue_step S OpStop (q, k) = map_option (Pair Done) (LinxQueue_stop S q k)"

fun queue_run :: "'k sys \<Rightarrow> queue_op list \<Rightarrow> linx_queue \<times> 'k \<Rightarrow> (op_out list \<times> linx_queue \<times> 'k) option" where
  "queue_run S [] s = Some ([], s)"
| "queue_run S (x # xs) s =
     (case queue_step S x s of
        None \<Rightarrow> None
      | Some (out, s') \<Rightarrow> map_option (\<lambda>(outs, s''). (out # outs, s'')) (queue_run S xs s'))"

text \<open>
  \<open>m_cv.wait(lock, pred)\<close> is \<open>while (!pred()) wait(lock);\<close>. \<open>None\<close>: the schedule is over and the
  thread is still waiting.
\<close>

fun waitForMessage ::
  "'k sys \<Rightarrow> u32 list \<Rightarrow> iidentifier option \<Rightarrow> queue_op list list \<Rightarrow> linx_queue \<times> 'k
     \<Rightarrow> (linx_received_message option \<times> linx_queue \<times> 'k) option" where
  "waitForMessage S sigsel from sched (q, k) =
     (let (msg, q', k') = findMessage S sigsel from q k in
      if msg \<noteq> None \<or> q_stopped q' then Some (msg, q', k')
      else (case sched of
              [] \<Rightarrow> None
            | ops # rest \<Rightarrow>
                (case queue_run S ops (q', k') of
                   None \<Rightarrow> None
                 | Some (_, s'') \<Rightarrow> waitForMessage S sigsel from rest s'')))"

text \<open>
  \<open>m_cv.wait_for(lock, timeout, pred)\<close> is \<open>while (!pred()) if (wait_until(...) == timeout) return
  pred();\<close>. The schedule ends with the time-out, before which the operations \<open>final\<close> run.
\<close>

fun waitForMessage_timed ::
  "'k sys \<Rightarrow> u32 list \<Rightarrow> iidentifier option \<Rightarrow> queue_op list list \<Rightarrow> queue_op list \<Rightarrow> linx_queue \<times> 'k
     \<Rightarrow> (linx_received_message option \<times> linx_queue \<times> 'k) option" where
  "waitForMessage_timed S sigsel from sched final (q, k) =
     (let (msg, q', k') = findMessage S sigsel from q k in
      if msg \<noteq> None \<or> q_stopped q' then Some (msg, q', k')
      else (case sched of
              [] \<Rightarrow>
                (case queue_run S final (q', k') of
                   None \<Rightarrow> None
                 | Some (_, q'', k'') \<Rightarrow> Some (findMessage S sigsel from q'' k''))
            | ops # rest \<Rightarrow>
                (case queue_run S ops (q', k') of
                   None \<Rightarrow> None
                 | Some (_, s'') \<Rightarrow> waitForMessage_timed S sigsel from rest final s'')))"

definition LinxQueue_get ::
  "'k sys \<Rightarrow> int \<Rightarrow> u32 list \<Rightarrow> iidentifier option \<Rightarrow> queue_op list list \<Rightarrow> queue_op list
     \<Rightarrow> linx_queue \<times> 'k \<Rightarrow> (linx_received_message option \<times> linx_queue \<times> 'k) option" where
  "LinxQueue_get S timeoutMs sigsel from sched final s =
     (if timeoutMs = IMMEDIATE_TIMEOUT then Some (getMessage S sigsel from (fst s) (snd s))
      else if timeoutMs = INFINITE_TIMEOUT then waitForMessage S sigsel from sched s
      else waitForMessage_timed S sigsel from sched final s)"

declare waitForMessage.simps [simp del] waitForMessage_timed.simps [simp del]

section \<open>The specification: a bounded selective mailbox\<close>

text \<open>
  The mailbox knows nothing of eventfds and kernels: a bounded list of messages from which the
  oldest one that satisfies a predicate can be taken, and a flag that says the mailbox is shut.
\<close>

record mailbox =
  mb_msgs :: "linx_received_message list"
  mb_capacity :: nat
  mb_shut :: bool

definition mb_take :: "('a \<Rightarrow> bool) \<Rightarrow> 'a list \<Rightarrow> 'a option \<times> 'a list" where
  "mb_take P ms =
     (case dropWhile (\<lambda>m. \<not> P m) ms of
        [] \<Rightarrow> (None, ms)
      | m # rest \<Rightarrow> (Some m, takeWhile (\<lambda>m. \<not> P m) ms @ rest))"

fun mb_step :: "queue_op \<Rightarrow> mailbox \<Rightarrow> op_out \<times> mailbox" where
  "mb_step (OpAdd m) b =
     (if length (mb_msgs b) < mb_capacity b
      then (Added True, b\<lparr>mb_msgs := mb_msgs b @ [m]\<rparr>) else (Added False, b))"
| "mb_step (OpGet sigsel from) b =
     (let (r, ms) = mb_take (queue_match sigsel from) (mb_msgs b) in (Got r, b\<lparr>mb_msgs := ms\<rparr>))"
| "mb_step OpClear b = (Done, b\<lparr>mb_msgs := []\<rparr>)"
| "mb_step OpStop b = (Done, b\<lparr>mb_msgs := [], mb_shut := True\<rparr>)"

fun mb_run :: "queue_op list \<Rightarrow> mailbox \<Rightarrow> op_out list \<times> mailbox" where
  "mb_run [] b = ([], b)"
| "mb_run (x # xs) b =
     (let (out, b') = mb_step x b; (outs, b'') = mb_run xs b' in (out # outs, b''))"

definition mailbox_of :: "linx_queue \<Rightarrow> mailbox" where
  "mailbox_of q = \<lparr>mb_msgs = q_queue q, mb_capacity = to_size_t (q_max_size q), mb_shut = q_stopped q\<rparr>"

text \<open>The capacity of a queue that is made for \<open>n\<close> messages, \<open>n\<close> a \<open>size_t\<close> passed as an \<open>int\<close>.\<close>

lemma queue_capacity:
  "to_size_t (to_int32 (int q)) =
     (let n = q mod 4294967296 in if n < 2147483648 then n else n + 18446744069414584320)"
proof -
  define n where "n = q mod 4294967296"
  have n: "int q mod 4294967296 = int n" "n < 4294967296" by (simp_all add: n_def zmod_int)
  have "(int q + 2147483648) mod 4294967296 = (int n + 2147483648) mod 4294967296"
    by (simp only: n(1) [symmetric] mod_add_left_eq)
  then have i: "to_int32 (int q) = (int n + 2147483648) mod 4294967296 - 2147483648"
    by (simp add: to_int32_def)
  show ?thesis
  proof (cases "n < 2147483648")
    case True
    then have "to_int32 (int q) = int n" using i by simp
    with True show ?thesis by (simp add: to_size_t_nonneg n_def)
  next
    case False
    have "(int n + 2147483648) mod 4294967296 = int n + 2147483648 - 4294967296"
      using False n(2) by (simp add: mod_pos_geq)
    then have "to_int32 (int q) = int n - 4294967296" using i by simp
    with False n(2) show ?thesis by (simp add: to_size_t_neg Let_def flip: n_def)
  qed
qed

lemma mb_run_append:
  "mb_run (xs @ ys) b = (let (outs, b') = mb_run xs b; (outs', b'') = mb_run ys b' in (outs @ outs', b''))"
  by (induction xs arbitrary: b) (auto split: prod.splits)

lemma mb_take_None_iff: "mb_take P ms = (None, ms') \<longleftrightarrow> (\<forall>m\<in>set ms. \<not> P m) \<and> ms' = ms"
proof (cases "dropWhile (\<lambda>m. \<not> P m) ms")
  case Nil
  then have "\<forall>m\<in>set ms. \<not> P m" by (simp add: dropWhile_eq_Nil_conv)
  with Nil show ?thesis by (auto simp: mb_take_def simp del: dropWhile_eq_Nil_conv)
next
  case (Cons m rest)
  then have "\<not> (\<forall>m\<in>set ms. \<not> P m)"
    by (metis dropWhile_eq_Nil_conv list.distinct(1))
  with Cons show ?thesis by (auto simp: mb_take_def)
qed

lemma mb_take_SomeD:
  assumes "mb_take P ms = (Some m, ms')"
  shows "\<exists>us vs. ms = us @ m # vs \<and> P m \<and> (\<forall>u\<in>set us. \<not> P u) \<and> ms' = us @ vs"
proof -
  let ?us = "takeWhile (\<lambda>m. \<not> P m) ms"
  obtain vs where d: "dropWhile (\<lambda>m. \<not> P m) ms = m # vs" and m': "ms' = ?us @ vs"
    using assms by (auto simp: mb_take_def split: list.splits)
  then have "ms = ?us @ m # vs" by (metis takeWhile_dropWhile_id)
  moreover have "P m" using d by (metis dropWhile_eq_Cons_conv)
  ultimately show ?thesis using m' by (blast dest: set_takeWhileD)
qed

lemma mb_take_Some:
  "P m \<Longrightarrow> \<forall>u\<in>set us. \<not> P u \<Longrightarrow> mb_take P (us @ m # vs) = (Some m, us @ vs)"
  by (simp add: mb_take_def dropWhile_append3 takeWhile_append2)

lemma mb_take_filter:
  "mb_take P ms = (r, ms') \<Longrightarrow> filter P ms = (case r of None \<Rightarrow> [] | Some m \<Rightarrow> [m]) @ filter P ms'"
  by (cases r) (auto simp: mb_take_None_iff dest!: mb_take_SomeD simp: filter_empty_conv)

lemma mb_take_mset:
  "mb_take P ms = (r, ms') \<Longrightarrow> mset ms = (case r of None \<Rightarrow> {#} | Some m \<Rightarrow> {#m#}) + mset ms'"
  by (cases r) (auto simp: mb_take_None_iff dest!: mb_take_SomeD)

lemma extract_mb_take:
  "mb_take P ms = (case List.extract P ms of None \<Rightarrow> (None, ms) | Some (us, m, vs) \<Rightarrow> (Some m, us @ vs))"
proof (cases "List.extract P ms")
  case None
  then have "mb_take P ms = (None, ms)" by (auto simp: extract_None_iff mb_take_None_iff)
  with None show ?thesis by simp
next
  case (Some t)
  then obtain us m vs where "List.extract P ms = Some (us, m, vs)" by (cases t) auto
  moreover from this have "ms = us @ m # vs" "P m" "\<forall>u\<in>set us. \<not> P u"
    by (auto dest: extract_SomeE)
  ultimately show ?thesis by (simp add: mb_take_Some)
qed

section \<open>The operations seen through the mailbox\<close>

lemma findMessage_fields:
  assumes "findMessage S sigsel from q k = (r, q', k')"
  shows "mb_take (queue_match sigsel from) (q_queue q) = (r, q_queue q')"
    and "q' = q\<lparr>q_queue := q_queue q'\<rparr>"
    and "k' = (if r = None then k else snd (readEvent S (q_efd q) k))"
  using assms
  by (auto simp: findMessage_def extract_mb_take Let_def split: option.splits prod.splits)

lemma LinxQueue_add_fields:
  assumes "LinxQueue_add S m q k = (r, q', k')"
  shows "r = (if length (q_queue q) < to_size_t (q_max_size q) then 0 else - 1)"
    and "q' = (if r = 0 then q\<lparr>q_queue := q_queue q @ [m]\<rparr> else q)"
    and "k' = (if r = 0 then snd (writeEvent S (q_efd q) k) else k)"
  using assms by (auto simp: LinxQueue_add_def Let_def split: if_splits prod.splits)

lemma queue_step_simulates:
  assumes "queue_step S x (q, k) = Some (out, q', k')"
  shows "mb_step x (mailbox_of q) = (out, mailbox_of q')"
    and "q_efd q' = q_efd q" and "q_max_size q' = q_max_size q"
proof -
  have "mb_step x (mailbox_of q) = (out, mailbox_of q') \<and> q_efd q' = q_efd q
          \<and> q_max_size q' = q_max_size q"
  proof (cases x)
    case (OpAdd m)
    then obtain r where a: "LinxQueue_add S m q k = (r, q', k')" and out: "out = Added (r = 0)"
      using assms by (auto split: prod.splits)
    with OpAdd LinxQueue_add_fields(1,2) [OF a] show ?thesis
      by (auto simp: mailbox_of_def)
  next
    case (OpGet sigsel frm)
    then obtain r where f: "findMessage S sigsel frm q k = (r, q', k')" and out: "out = Got r"
      using assms by (auto simp: getMessage_def split: prod.splits)
    note ff = findMessage_fields [OF f]
    from ff(2) have "q_efd q' = q_efd q" "q_max_size q' = q_max_size q" "q_stopped q' = q_stopped q"
      by (metis linx_queue.select_convs linx_queue.surjective linx_queue.update_convs(4))+
    with OpGet out ff(1) show ?thesis by (simp add: mailbox_of_def)
  next
    case OpClear
    with assms show ?thesis
      by (auto simp: mailbox_of_def LinxQueue_clear_def split: option.splits)
  next
    case OpStop
    with assms show ?thesis
      by (auto simp: mailbox_of_def LinxQueue_stop_def split: option.splits)
  qed
  then show "mb_step x (mailbox_of q) = (out, mailbox_of q')"
    and "q_efd q' = q_efd q" and "q_max_size q' = q_max_size q" by auto
qed

lemma queue_step_OpAdd:
  assumes "queue_step S (OpAdd m) (q, k) = Some (out, q', k')"
  shows "out = Added True \<and> length (q_queue q) < to_size_t (q_max_size q) \<and> q_queue q' = q_queue q @ [m]
    \<or> out = Added False \<and> q_queue q' = q_queue q"
proof -
  obtain r where a: "LinxQueue_add S m q k = (r, q', k')" and "out = Added (r = 0)"
    using assms by (auto split: prod.splits)
  with LinxQueue_add_fields(1,2) [OF a] show ?thesis by (auto split: if_splits)
qed

lemma queue_run_simulates:
  "queue_run S xs (q, k) = Some (outs, q', k') \<Longrightarrow>
     q_efd q' = q_efd q \<and> q_max_size q' = q_max_size q \<and> length outs = length xs"
proof (induction xs arbitrary: q k outs)
  case (Cons x xs)
  then obtain out q1 k1 outs' where s: "queue_step S x (q, k) = Some (out, q1, k1)"
    and r: "queue_run S xs (q1, k1) = Some (outs', q', k')" and o: "outs = out # outs'"
    by (auto split: option.splits)
  from Cons.IH [OF r] queue_step_simulates(2,3) [OF s] o show ?case by auto
qed auto

section \<open>What goes in and what comes out\<close>

fun delivered :: "op_out list \<Rightarrow> linx_received_message list" where
  "delivered (Got (Some m) # os) = m # delivered os"
| "delivered (_ # os) = delivered os"
| "delivered [] = []"

fun accepted :: "queue_op list \<Rightarrow> op_out list \<Rightarrow> linx_received_message list" where
  "accepted (OpAdd m # xs) (Added True # os) = m # accepted xs os"
| "accepted (_ # xs) (_ # os) = accepted xs os"
| "accepted _ _ = []"

text \<open>One step of the ledger, in the order of the messages and as a multiset.\<close>

lemma queue_step_ledger:
  assumes s: "queue_step S x (q, k) = Some (out, q', k')" and x: "x \<noteq> OpClear" "x \<noteq> OpStop"
  shows "mset (q_queue q) + mset (accepted [x] [out]) = mset (delivered [out]) + mset (q_queue q')"
    and "(\<forall>sg fr. x = OpGet sg fr \<longrightarrow> P = queue_match sg fr) \<Longrightarrow>
      filter P (q_queue q @ accepted [x] [out]) = delivered [out] @ filter P (q_queue q')"
proof -
  note sim = queue_step_simulates(1) [OF s]
  have "mset (q_queue q) + mset (accepted [x] [out]) = mset (delivered [out]) + mset (q_queue q')
    \<and> ((\<forall>sg fr. x = OpGet sg fr \<longrightarrow> P = queue_match sg fr) \<longrightarrow>
      filter P (q_queue q @ accepted [x] [out]) = delivered [out] @ filter P (q_queue q'))"
  proof (cases x)
    case (OpAdd m)
    with queue_step_OpAdd [of S m q k out q' k'] s show ?thesis by auto
  next
    case (OpGet sg fr)
    with sim obtain r where t: "mb_take (queue_match sg fr) (q_queue q) = (r, q_queue q')"
      and out: "out = Got r"
      by (auto simp: mailbox_of_def split: prod.splits)
    from mb_take_filter [OF t] mb_take_mset [OF t] OpGet out show ?thesis
      by (cases r) auto
  qed (use x in auto)
  then show "mset (q_queue q) + mset (accepted [x] [out]) = mset (delivered [out]) + mset (q_queue q')"
    and "(\<forall>sg fr. x = OpGet sg fr \<longrightarrow> P = queue_match sg fr) \<Longrightarrow>
      filter P (q_queue q @ accepted [x] [out]) = delivered [out] @ filter P (q_queue q')" by auto
qed

lemma delivered_Cons: "delivered (out # outs) = delivered [out] @ delivered outs"
  by (cases "out # outs" rule: delivered.cases) auto

lemma accepted_Cons: "accepted (x # xs) (out # outs) = accepted [x] [out] @ accepted xs outs"
proof (cases x)
  case (OpAdd m)
  then show ?thesis
    by (cases out; cases "out = Added True") auto
qed auto

lemma queue_run_ledger:
  assumes "queue_run S xs (q, k) = Some (outs, q', k')" "OpClear \<notin> set xs" "OpStop \<notin> set xs"
  shows "mset (q_queue q) + mset (accepted xs outs) = mset (delivered outs) + mset (q_queue q')"
  using assms
proof (induction xs arbitrary: q k outs)
  case (Cons x xs)
  then obtain out q1 k1 outs' where s: "queue_step S x (q, k) = Some (out, q1, k1)"
    and r: "queue_run S xs (q1, k1) = Some (outs', q', k')" and o: "outs = out # outs'"
    by (auto split: option.splits)
  have x: "x \<noteq> OpClear" "x \<noteq> OpStop" using Cons.prems by auto
  have ih: "mset (q_queue q1) + mset (accepted xs outs') = mset (delivered outs') + mset (q_queue q')"
    using Cons.IH [OF r] Cons.prems by auto
  from queue_step_ledger(1) [OF s x] ih show ?case
    unfolding o delivered_Cons [of out outs'] accepted_Cons [of x xs out outs']
    by (simp add: add.assoc) (metis add.assoc add.commute)
qed auto

lemma queue_run_fifo:
  assumes "queue_run S xs (q, k) = Some (outs, q', k')" "OpClear \<notin> set xs" "OpStop \<notin> set xs"
    and "\<forall>sg' fr'. OpGet sg' fr' \<in> set xs \<longrightarrow> sg' = sg \<and> fr' = fr"
  shows "filter (queue_match sg fr) (q_queue q @ accepted xs outs)
           = delivered outs @ filter (queue_match sg fr) (q_queue q')"
  using assms
proof (induction xs arbitrary: q k outs)
  case (Cons x xs)
  let ?P = "queue_match sg fr"
  from Cons.prems obtain out q1 k1 outs' where s: "queue_step S x (q, k) = Some (out, q1, k1)"
    and r: "queue_run S xs (q1, k1) = Some (outs', q', k')" and o: "outs = out # outs'"
    by (auto split: option.splits)
  have x: "x \<noteq> OpClear" "x \<noteq> OpStop" "\<forall>sg' fr'. x = OpGet sg' fr' \<longrightarrow> ?P = queue_match sg' fr'"
    using Cons.prems by auto
  have ih: "filter ?P (q_queue q1 @ accepted xs outs') = delivered outs' @ filter ?P (q_queue q')"
    using Cons.IH [OF r] Cons.prems by auto
  have "filter ?P (q_queue q @ accepted (x # xs) outs)
      = filter ?P (q_queue q @ accepted [x] [out]) @ filter ?P (accepted xs outs')"
    unfolding o accepted_Cons [of x xs out outs'] by simp
  also have "\<dots> = delivered [out] @ filter ?P (q_queue q1 @ accepted xs outs')"
    unfolding queue_step_ledger(2) [OF s x] by simp
  also have "\<dots> = delivered outs @ filter ?P (q_queue q')"
    unfolding o delivered_Cons [of out outs'] ih by simp
  finally show ?case .
qed auto

section \<open>The invariant: the eventfd counts the queued messages\<close>

definition queue_wf :: "linx_queue \<Rightarrow> bool" where
  "queue_wf q \<longleftrightarrow> 0 \<le> q_max_size q \<and> q_max_size q < 2147483648
     \<and> length (q_queue q) \<le> to_size_t (q_max_size q)"

definition queue_ok :: "('k \<Rightarrow> int \<Rightarrow> nat option) \<Rightarrow> linx_queue \<times> 'k \<Rightarrow> bool" where
  "queue_ok evc s \<longleftrightarrow> queue_wf (fst s)
     \<and> (0 \<le> efd (q_efd (fst s)) \<longrightarrow> evc (snd s) (efd (q_efd (fst s))) = Some (length (q_queue (fst s))))"

lemma queue_wf_length: "queue_wf q \<Longrightarrow> length (q_queue q) < evc_max"
  by (auto simp: queue_wf_def to_size_t_nonneg evc_max_def)

lemma queue_step_wf:
  assumes s: "queue_step S x (q, k) = Some (out, q', k')" and "queue_wf q"
  shows "queue_wf q'"
proof -
  note sim = queue_step_simulates [OF s]
  have "length (q_queue q') \<le> to_size_t (q_max_size q)"
  proof (cases x)
    case (OpGet sg fr)
    with sim(1) obtain r where "mb_take (queue_match sg fr) (q_queue q) = (r, q_queue q')"
      by (auto simp: mailbox_of_def split: prod.splits)
    from mb_take_mset [OF this] have "length (q_queue q') \<le> length (q_queue q)"
      by (metis mset_subset_eq_add_right size_mset size_mset_mono)
    with \<open>queue_wf q\<close> show ?thesis by (simp add: queue_wf_def)
  next
    case (OpAdd m)
    with queue_step_OpAdd [of S m q k out q' k'] s \<open>queue_wf q\<close> show ?thesis
      by (auto simp: queue_wf_def)
  qed (use sim(1) \<open>queue_wf q\<close> in \<open>auto simp: mailbox_of_def queue_wf_def split: if_splits\<close>)
  with sim(3) \<open>queue_wf q\<close> show ?thesis by (simp add: queue_wf_def)
qed

context eventfd_sys
begin

lemma add_counted:
  assumes ok: "queue_ok evc (q, k)" and a: "LinxQueue_add S m q k = (r, q', k')"
  shows "queue_ok evc (q', k')" and "\<forall>fd. fd \<noteq> efd (q_efd q) \<longrightarrow> evc k' fd = evc k fd"
proof -
  have s: "queue_step S (OpAdd m) (q, k) = Some (Added (r = 0), q', k')" using a by simp
  have wf: "queue_wf q" and wf': "queue_wf q'"
    using ok queue_step_wf [OF s] by (auto simp: queue_ok_def)
  note f = LinxQueue_add_fields [OF a]
  have "queue_ok evc (q', k') \<and> (\<forall>fd. fd \<noteq> efd (q_efd q) \<longrightarrow> evc k' fd = evc k fd)"
  proof (cases "r = 0 \<and> 0 \<le> efd (q_efd q)")
    case True
    then obtain k1 where "writeEvent S (q_efd q) k = (0, k1)"
      and "evc k1 = (evc k)(efd (q_efd q) \<mapsto> Suc (length (q_queue q)))"
      using ok writeEvent_room [of k "q_efd q"] queue_wf_length [OF wf] by (auto simp: queue_ok_def)
    with True f wf' show ?thesis by (auto simp: queue_ok_def)
  next
    case False
    with f ok wf' show ?thesis by (auto simp: queue_ok_def split: if_splits)
  qed
  then show "queue_ok evc (q', k')" "\<forall>fd. fd \<noteq> efd (q_efd q) \<longrightarrow> evc k' fd = evc k fd" by auto
qed

lemma find_counted:
  assumes ok: "queue_ok evc (q, k)" and g: "findMessage S sg fr q k = (r, q', k')"
  shows "queue_ok evc (q', k')" and "\<forall>fd. fd \<noteq> efd (q_efd q) \<longrightarrow> evc k' fd = evc k fd"
proof -
  have s: "queue_step S (OpGet sg fr) (q, k) = Some (Got r, q', k')" using g by (simp add: getMessage_def)
  have wf': "queue_wf q'" using ok queue_step_wf [OF s] by (auto simp: queue_ok_def)
  note f = findMessage_fields [OF g] and e = queue_step_simulates(2) [OF s]
  have "queue_ok evc (q', k') \<and> (\<forall>fd. fd \<noteq> efd (q_efd q) \<longrightarrow> evc k' fd = evc k fd)"
  proof (cases r)
    case None
    with f ok have "q_queue q' = q_queue q" "k' = k" by (auto simp: mb_take_None_iff)
    with ok wf' e show ?thesis by (simp add: queue_ok_def)
  next
    case (Some m)
    with f mb_take_mset [OF f(1)] have len: "length (q_queue q) = Suc (length (q_queue q'))"
      by (metis add_mset_add_single option.simps(5) size_add_mset size_mset union_commute)
    show ?thesis
    proof (cases "0 \<le> efd (q_efd q)")
      case True
      then obtain k1 where "readEvent S (q_efd q) k = (0, k1)"
        and "evc k1 = (evc k)(efd (q_efd q) \<mapsto> length (q_queue q'))"
        using ok readEvent_some [of k "q_efd q"] len by (auto simp: queue_ok_def)
      with f(3) Some wf' e show ?thesis by (auto simp: queue_ok_def)
    next
      case False
      with f(3) Some wf' e show ?thesis by (auto simp: queue_ok_def)
    qed
  qed
  then show "queue_ok evc (q', k')" "\<forall>fd. fd \<noteq> efd (q_efd q) \<longrightarrow> evc k' fd = evc k fd" by auto
qed

lemma clearEvents_counted:
  assumes "queue_ok evc (q, k)"
  shows "\<exists>k'. clearEvents S (q_efd q) k = Some k'
    \<and> (0 \<le> efd (q_efd q) \<longrightarrow> evc k' (efd (q_efd q)) = Some 0)
    \<and> (\<forall>fd. fd \<noteq> efd (q_efd q) \<longrightarrow> evc k' fd = evc k fd)"
proof (cases "0 \<le> efd (q_efd q)")
  case True
  with assms clearEvents_returns [of k "q_efd q"] show ?thesis by (fastforce simp: queue_ok_def)
qed simp

lemma queue_step_ok:
  assumes ok: "queue_ok evc (q, k)"
  shows "\<exists>out q' k'. queue_step S x (q, k) = Some (out, q', k') \<and> queue_ok evc (q', k')
    \<and> (\<forall>fd. fd \<noteq> efd (q_efd q) \<longrightarrow> evc k' fd = evc k fd)"
proof (cases x)
  case (OpAdd m)
  obtain r q' k' where a: "LinxQueue_add S m q k = (r, q', k')" by (metis prod_cases3)
  with OpAdd add_counted [OF ok a] show ?thesis by simp
next
  case (OpGet sg fr)
  obtain r q' k' where a: "findMessage S sg fr q k = (r, q', k')" by (metis prod_cases3)
  with OpGet find_counted [OF ok a] show ?thesis by (simp add: getMessage_def)
next
  case OpClear
  with clearEvents_counted [OF ok] ok show ?thesis
    by (auto simp: LinxQueue_clear_def queue_ok_def queue_wf_def)
next
  case OpStop
  with clearEvents_counted [OF ok] ok show ?thesis
    by (auto simp: LinxQueue_stop_def queue_ok_def queue_wf_def)
qed

lemma queue_run_ok:
  assumes "queue_ok evc (q, k)"
  shows "\<exists>outs q' k'. queue_run S xs (q, k) = Some (outs, q', k') \<and> queue_ok evc (q', k')"
  using assms
proof (induction xs arbitrary: q k)
  case (Cons x xs)
  then obtain out q1 k1 where s: "queue_step S x (q, k) = Some (out, q1, k1)" "queue_ok evc (q1, k1)"
    using queue_step_ok by blast
  with Cons.IH [of q1 k1] show ?case by auto
qed auto

end

section \<open>Waiting\<close>

text \<open>A search that finds nothing changes nothing; a search that finds something finds a match.\<close>

lemma findMessage_None: "findMessage S sg fr q k = (None, q', k') \<Longrightarrow>
    q' = q \<and> k' = k \<and> (\<forall>m\<in>set (q_queue q). \<not> queue_match sg fr m)"
  by (auto simp: findMessage_def extract_None_iff Let_def split: option.splits prod.splits)

lemma findMessage_Some: "findMessage S sg fr q k = (Some m, q', k') \<Longrightarrow> queue_match sg fr m"
  using findMessage_fields(1) [of S sg fr q k "Some m" q' k'] by (auto dest: mb_take_SomeD)

lemma findMessage_hit:
  "m \<in> set (q_queue q) \<Longrightarrow> queue_match sg fr m \<Longrightarrow> \<exists>m' q' k'. findMessage S sg fr q k = (Some m', q', k')"
  by (metis findMessage_None option.exhaust prod_cases3)

lemma queue_run_append:
  "queue_run S (xs @ ys) s =
     (case queue_run S xs s of
        None \<Rightarrow> None
      | Some (outs, s') \<Rightarrow> map_option (\<lambda>(outs', s''). (outs @ outs', s'')) (queue_run S ys s'))"
  by (induction xs arbitrary: s)
     (auto simp: option.map_comp comp_def case_prod_unfold option.map_ident split: option.splits)

lemma waitForMessage_sound:
  "waitForMessage S sg fr sched (q, k) = Some (r, q', k') \<Longrightarrow>
     (case r of None \<Rightarrow> q_stopped q' | Some m \<Rightarrow> queue_match sg fr m)"
proof (induction sched arbitrary: q k)
  case Nil
  then show ?case
    by (subst (asm) waitForMessage.simps)
       (auto simp: Let_def split: prod.splits if_splits option.splits dest: findMessage_Some)
next
  case (Cons ops sched)
  obtain msg q1 k1 where f: "findMessage S sg fr q k = (msg, q1, k1)" by (metis prod_cases3)
  show ?case
  proof (cases "msg \<noteq> None \<or> q_stopped q1")
    case True
    with Cons.prems f show ?thesis
      by (subst (asm) waitForMessage.simps) (auto split: option.splits dest: findMessage_Some)
  next
    case False
    with Cons.prems f obtain outs q2 k2 where "waitForMessage S sg fr sched (q2, k2) = Some (r, q', k')"
      by (subst (asm) waitForMessage.simps) (auto split: option.splits)
    then show ?thesis by (rule Cons.IH)
  qed
qed

lemma waitForMessage_stopped:
  "q_stopped q \<Longrightarrow> waitForMessage S sg fr sched (q, k) = Some (findMessage S sg fr q k)"
  using findMessage_fields(2) [of S sg fr q k]
  by (subst waitForMessage.simps) (auto split: prod.splits dest!: arg_cong [where f = q_stopped])

lemma waitForMessage_timed_stopped:
  "q_stopped q \<Longrightarrow> waitForMessage_timed S sg fr sched final (q, k) = Some (findMessage S sg fr q k)"
  using findMessage_fields(2) [of S sg fr q k]
  by (subst waitForMessage_timed.simps) (auto split: prod.splits dest!: arg_cong [where f = q_stopped])

lemma queue_step_stopped:
  "queue_step S x (q, k) = Some (out, q', k') \<Longrightarrow> q_stopped q \<or> x = OpStop \<Longrightarrow> q_stopped q'"
  using queue_step_simulates(1) [of S x q k out q' k']
  by (cases x) (auto simp: mailbox_of_def split: if_splits prod.splits)

lemma queue_run_stopped:
  "queue_run S xs (q, k) = Some (outs, q', k') \<Longrightarrow> q_stopped q \<or> OpStop \<in> set xs \<Longrightarrow> q_stopped q'"
proof (induction xs arbitrary: q k outs)
  case (Cons x xs)
  then obtain out q1 k1 outs' where s: "queue_step S x (q, k) = Some (out, q1, k1)"
    and r: "queue_run S xs (q1, k1) = Some (outs', q', k')"
    by (auto split: option.splits)
  have "q_stopped q1 \<or> OpStop \<in> set xs"
    using queue_step_stopped [OF s] Cons.prems(2) by auto
  with r show ?case by (rule Cons.IH)
qed auto

context eventfd_sys
begin

lemma waitForMessage_blocked:
  assumes "queue_ok evc (q, k)" "waitForMessage S sg fr sched (q, k) = None"
  shows "\<exists>outs q' k'. queue_run S (concat sched) (q, k) = Some (outs, q', k')
    \<and> \<not> q_stopped q' \<and> (\<forall>m\<in>set (q_queue q'). \<not> queue_match sg fr m)"
  using assms
proof (induction sched arbitrary: q k)
  case Nil
  then show ?case
    by (subst (asm) waitForMessage.simps)
       (auto split: prod.splits if_splits dest: findMessage_None)
next
  case (Cons ops sched)
  obtain msg q1 k1 where f: "findMessage S sg fr q k = (msg, q1, k1)" by (metis prod_cases3)
  from Cons.prems(2) f have n: "msg = None" "\<not> q_stopped q1"
    by (auto simp: waitForMessage.simps [of S sg fr "ops # sched"] split: if_splits)
  then have q1: "q1 = q" "k1 = k" using f findMessage_None [of S sg fr q k q1 k1] by auto
  obtain outs q2 k2 where r: "queue_run S ops (q, k) = Some (outs, q2, k2)" and ok: "queue_ok evc (q2, k2)"
    using queue_run_ok Cons.prems(1) by blast
  from Cons.prems(2) f n q1 r have "waitForMessage S sg fr sched (q2, k2) = None"
    by (simp add: waitForMessage.simps [of S sg fr "ops # sched"])
  from Cons.IH [OF ok this] r show ?case by (auto simp: queue_run_append)
qed

lemma waitForMessage_timed_returns:
  assumes "queue_ok evc (q, k)"
  shows "\<exists>r q' k'. waitForMessage_timed S sg fr sched final (q, k) = Some (r, q', k') \<and> queue_ok evc (q', k')
    \<and> (case r of None \<Rightarrow> q_stopped q' \<or> (\<forall>m\<in>set (q_queue q'). \<not> queue_match sg fr m)
       | Some m \<Rightarrow> queue_match sg fr m)"
  using assms
proof (induction sched arbitrary: q k)
  case Nil
  obtain msg q1 k1 where f: "findMessage S sg fr q k = (msg, q1, k1)" by (metis prod_cases3)
  show ?case
  proof (cases "msg \<noteq> None \<or> q_stopped q1")
    case True
    with f find_counted(1) [OF Nil f] findMessage_Some show ?thesis
      by (subst waitForMessage_timed.simps) (auto split: option.splits)
  next
    case False
    with f have q1: "q1 = q" "k1 = k" using findMessage_None [of S sg fr q k q1 k1] by auto
    obtain outs q2 k2 where r: "queue_run S final (q, k) = Some (outs, q2, k2)" and ok: "queue_ok evc (q2, k2)"
      using queue_run_ok Nil by blast
    obtain msg' q3 k3 where f': "findMessage S sg fr q2 k2 = (msg', q3, k3)" by (metis prod_cases3)
    from find_counted(1) [OF ok f'] f' False f q1 r show ?thesis
      by (subst waitForMessage_timed.simps) (auto split: option.splits dest: findMessage_None findMessage_Some)
  qed
next
  case (Cons ops sched)
  obtain msg q1 k1 where f: "findMessage S sg fr q k = (msg, q1, k1)" by (metis prod_cases3)
  show ?case
  proof (cases "msg \<noteq> None \<or> q_stopped q1")
    case True
    with f find_counted(1) [OF Cons.prems f] findMessage_Some show ?thesis
      by (subst waitForMessage_timed.simps) (auto split: option.splits)
  next
    case False
    with f have q1: "q1 = q" "k1 = k" using findMessage_None [of S sg fr q k q1 k1] by auto
    obtain outs q2 k2 where r: "queue_run S ops (q, k) = Some (outs, q2, k2)" and ok: "queue_ok evc (q2, k2)"
      using queue_run_ok Cons.prems by blast
    from Cons.IH [OF ok] f False q1 r show ?thesis
      by (subst waitForMessage_timed.simps) auto
  qed
qed

end

section \<open>The descriptors\<close>

context fd_frame_sys
begin

lemma queue_step_fds: "queue_step S x (q, k) = Some (out, q', k') \<Longrightarrow> fds k' = fds k"
  by (cases x)
    (auto simp: LinxQueue_add_def getMessage_def findMessage_def LinxQueue_clear_def LinxQueue_stop_def Let_def
      dest: writeEvent_fds readEvent_fds clearEvents_fds split: if_splits option.splits prod.splits)

lemma LinxQueue_dtor_fds:
  assumes "LinxQueue_dtor S q k = Some k'"
  shows "fds k' = fds k - {efd (q_efd q)}"
  using assms queue_step_fds [of OpStop q k]
  by (auto simp: LinxQueue_dtor_def LinxEventFd_dtor_fds LinxQueue_stop_def split: option.splits)

end

end
