(* ===== verification/RefKernel.thy ===== *)
theory RefKernel
  imports EventFd "HOL-Library.AList"
begin

text \<open>
  A concrete kernel for the parameter \<open>sys\<close>: a clock, semaphore eventfds, and datagram sockets with
  an address and a queue of datagrams, behaving as their manual pages say. It shows that the
  hypotheses about the kernel can hold together, and every concrete run of the development is
  evaluated in it. \<open>AF_UNIX\<close> addresses are the abstract names (the first \<open>len - 2\<close> bytes of
  \<open>sun_path\<close>), an \<open>AF_INET\<close> socket bound to address 0 receives for every address.
\<close>

section \<open>State\<close>

record ref_socket =
  rs_addr :: "sockaddr option"
  rs_in :: "(u8 list \<times> sockaddr) list"
  rs_shut :: bool

record ref_kernel =
  rk_clock :: int
  rk_efds :: "(int \<times> nat) list"
  rk_socks :: "(int \<times> ref_socket) list"

definition ref_init :: ref_kernel where
  "ref_init = \<lparr>rk_clock = 0, rk_efds = [], rk_socks = []\<rparr>"

section \<open>Eventfds and the clock\<close>

text \<open>A new descriptor is above every open one.\<close>

definition ref_fresh_fd :: "ref_kernel \<Rightarrow> int" where
  "ref_fresh_fd k = Max (insert 3 (set (map fst (rk_efds k) @ map fst (rk_socks k)))) + 1"

definition ref_eventfd :: "ref_kernel \<Rightarrow> int \<times> ref_kernel" where
  "ref_eventfd k =
     (let fd = ref_fresh_fd k in (fd, k\<lparr>rk_efds := AList.update fd 0 (rk_efds k)\<rparr>))"

definition ref_write :: "int \<Rightarrow> u64 \<Rightarrow> ref_kernel \<Rightarrow> int \<times> ref_kernel" where
  "ref_write fd v k =
     (case map_of (rk_efds k) fd of
        None \<Rightarrow> (- 1, k)
      | Some n \<Rightarrow> if n + unat v \<le> evc_max then (8, k\<lparr>rk_efds := AList.update fd (n + unat v) (rk_efds k)\<rparr>)
                  else (- 1, k))"

definition ref_read :: "int \<Rightarrow> ref_kernel \<Rightarrow> int \<times> ref_kernel" where
  "ref_read fd k =
     (case map_of (rk_efds k) fd of
        Some (Suc n) \<Rightarrow> (8, k\<lparr>rk_efds := AList.update fd n (rk_efds k)\<rparr>)
      | _ \<Rightarrow> (- 1, k))"

definition ref_now :: "ref_kernel \<Rightarrow> int \<times> ref_kernel" where
  "ref_now k = (rk_clock k, k\<lparr>rk_clock := rk_clock k + 1\<rparr>)"

section \<open>Datagram sockets\<close>

definition ref_socket_new :: "domain \<Rightarrow> ref_kernel \<Rightarrow> int \<times> ref_kernel" where
  "ref_socket_new d k =
     (let fd = ref_fresh_fd k in
      (fd, k\<lparr>rk_socks := AList.update fd \<lparr>rs_addr = None, rs_in = [], rs_shut = False\<rparr> (rk_socks k)\<rparr>))"

fun addr_key :: "sockaddr \<Rightarrow> sockaddr" where
  "addr_key (SunAddr path len) = SunAddr (take (len - 2) path) len"
| "addr_key (SinAddr ip port) = SinAddr ip port"

fun addr_receives :: "sockaddr \<Rightarrow> sockaddr \<Rightarrow> bool" where
  "addr_receives (SinAddr ip port) (SinAddr ip' port') \<longleftrightarrow> port = port' \<and> (ip = 0 \<or> ip = ip')"
| "addr_receives a b \<longleftrightarrow> a = b"

definition ref_bind :: "int \<Rightarrow> sockaddr \<Rightarrow> ref_kernel \<Rightarrow> int \<times> ref_kernel" where
  "ref_bind fd a k =
     (case map_of (rk_socks k) fd of
        None \<Rightarrow> (- 1, k)
      | Some s \<Rightarrow>
          if list_ex (\<lambda>(_, t). rs_addr t = Some (addr_key a)) (rk_socks k) then (- 1, k)
          else (0, k\<lparr>rk_socks := AList.update fd (s\<lparr>rs_addr := Some (addr_key a)\<rparr>) (rk_socks k)\<rparr>))"

text \<open>\<open>poll\<close> for input; an infinite wait with nothing to come ends with \<open>EINTR\<close> (4).\<close>

definition ref_poll :: "int \<Rightarrow> int \<Rightarrow> ref_kernel \<Rightarrow> (int \<times> errno) \<times> ref_kernel" where
  "ref_poll fd timeout k =
     (case map_of (rk_socks k) fd of
        None \<Rightarrow> ((1, EOTHER 0), k)
      | Some s \<Rightarrow>
          if rs_in s \<noteq> [] \<or> rs_shut s then ((1, EOTHER 0), k)
          else if timeout < 0 then ((- 1, EOTHER 4), k)
          else ((0, EOTHER 0), k\<lparr>rk_clock := rk_clock k + timeout * 1000000\<rparr>))"

definition ref_fionread :: "int \<Rightarrow> ref_kernel \<Rightarrow> nat option \<times> ref_kernel" where
  "ref_fionread fd k =
     (case map_of (rk_socks k) fd of
        None \<Rightarrow> (None, k)
      | Some s \<Rightarrow> (case rs_in s of [] \<Rightarrow> (Some 0, k) | (d, _) # _ \<Rightarrow> (Some (length d), k)))"

text \<open>The address a receiver sees: the sender's name, in a zeroed \<open>sun_path\<close>.\<close>

fun addr_view :: "sockaddr option \<Rightarrow> sockaddr" where
  "addr_view None = SunAddr (replicate 108 (CHR 0x00)) 2"
| "addr_view (Some (SunAddr path len)) = SunAddr (path @ replicate (108 - length path) (CHR 0x00)) len"
| "addr_view (Some (SinAddr ip port)) = SinAddr ip port"

definition ref_recvfrom :: "(sockaddr \<Rightarrow> 'a) \<Rightarrow> int \<Rightarrow> nat \<Rightarrow> ref_kernel \<Rightarrow> 'a recv_result \<times> ref_kernel" where
  "ref_recvfrom view fd n k0 =
     (let k = k0\<lparr>rk_clock := rk_clock k0 + 1\<rparr> in
      case (if fd < 0 then None else map_of (rk_socks k) fd) of
        None \<Rightarrow> (RecvErr EBADF, k)
      | Some s \<Rightarrow>
          (case rs_in s of
             [] \<Rightarrow> if rs_shut s then (RecvOk [] (view (addr_view None)), k) else (RecvErr (EOTHER 11), k)
           | (d, a) # rest \<Rightarrow>
               (RecvOk (take n d) (view a),
                k\<lparr>rk_socks := AList.update fd (s\<lparr>rs_in := rest\<rparr>) (rk_socks k)\<rparr>)))"

fun sun_view :: "sockaddr \<Rightarrow> string" where
  "sun_view (SunAddr path len) = take 107 (path @ replicate 107 (CHR 0x00)) @ [CHR 0x00]"
| "sun_view (SinAddr ip port) = replicate 108 (CHR 0x00)"

fun sin_view :: "sockaddr \<Rightarrow> u32 \<times> u16" where
  "sin_view (SunAddr path len) = (0, 0)"
| "sin_view (SinAddr ip port) = (ip, port)"

definition ref_sendto :: "int \<Rightarrow> u8 list \<Rightarrow> sockaddr \<Rightarrow> ref_kernel \<Rightarrow> int \<times> ref_kernel" where
  "ref_sendto fd d a k =
     (case map_of (rk_socks k) fd of
        None \<Rightarrow> (- 1, k)
      | Some s \<Rightarrow>
          (case find (\<lambda>(_, t). \<not> rs_shut t
                 \<and> (case rs_addr t of None \<Rightarrow> False | Some b \<Rightarrow> addr_receives b (addr_key a))) (rk_socks k) of
             None \<Rightarrow> (case a of SunAddr _ _ \<Rightarrow> - 1 | SinAddr _ _ \<Rightarrow> int (length d), k)
           | Some (fd', t) \<Rightarrow>
               (int (length d),
                k\<lparr>rk_socks := AList.update fd' (t\<lparr>rs_in := rs_in t @ [(d, addr_view (rs_addr s))]\<rparr>) (rk_socks k)\<rparr>)))"

definition ref_shutdown :: "int \<Rightarrow> ref_kernel \<Rightarrow> ref_kernel" where
  "ref_shutdown fd k =
     (case map_of (rk_socks k) fd of
        None \<Rightarrow> k
      | Some s \<Rightarrow> k\<lparr>rk_socks := AList.update fd (s\<lparr>rs_shut := True\<rparr>) (rk_socks k)\<rparr>)"

definition ref_close :: "int \<Rightarrow> ref_kernel \<Rightarrow> ref_kernel" where
  "ref_close fd k = k\<lparr>rk_efds := AList.delete fd (rk_efds k), rk_socks := AList.delete fd (rk_socks k)\<rparr>"

definition ref_setsockopt :: "int \<Rightarrow> sockopt \<Rightarrow> ref_kernel \<Rightarrow> int \<times> ref_kernel" where
  "ref_setsockopt fd opt k = (if map_of (rk_socks k) fd = None then - 1 else 0, k)"

definition ref_sys :: "ref_kernel sys" where
  "ref_sys = \<lparr>
     sys_now = ref_now, sys_eventfd = ref_eventfd, sys_write_u64 = ref_write, sys_read_u64 = ref_read,
     sys_socket = ref_socket_new, sys_bind = ref_bind, sys_poll_in = ref_poll,
     sys_fionread = ref_fionread, sys_recvfrom_un = ref_recvfrom sun_view,
     sys_recvfrom_in = ref_recvfrom sin_view, sys_sendto = ref_sendto,
     sys_shutdown = ref_shutdown, sys_close = ref_close, sys_setsockopt = ref_setsockopt,
     sys_inet_aton = inet_pton \<rparr>"

definition ref_evc :: "ref_kernel \<Rightarrow> int \<Rightarrow> nat option" where
  "ref_evc k = map_of (rk_efds k)"

section \<open>The documented eventfd semantics holds\<close>

lemma ref_fresh:
  "map_of (rk_efds k) (ref_fresh_fd k) = None" "map_of (rk_socks k) (ref_fresh_fd k) = None"
  "0 < ref_fresh_fd k"
proof -
  let ?A = "insert 3 (set (map fst (rk_efds k) @ map fst (rk_socks k)))"
  have "ref_fresh_fd k \<notin> ?A" "3 < ref_fresh_fd k"
    using Max_ge [of ?A "ref_fresh_fd k"] Max_ge [of ?A 3] by (auto simp: ref_fresh_fd_def)
  then show "map_of (rk_efds k) (ref_fresh_fd k) = None" "map_of (rk_socks k) (ref_fresh_fd k) = None"
    "0 < ref_fresh_fd k"
    by (auto simp: map_of_eq_None_iff)
qed

interpretation ref_eventfd: eventfd_sys ref_sys ref_evc
proof unfold_locales
  fix k fd k'
  assume "sys_eventfd ref_sys k = (fd, k')" "0 \<le> fd"
  then show "ref_evc k fd = None \<and> ref_evc k' = (ref_evc k)(fd \<mapsto> 0)"
    using ref_fresh [of k]
    by (auto simp: ref_sys_def ref_eventfd_def ref_evc_def update_conv' Let_def split: if_splits)
next
  fix k fd k'
  assume "sys_eventfd ref_sys k = (fd, k')" "fd < 0"
  then show "ref_evc k' = ref_evc k"
    using ref_fresh(3) [of k] by (auto simp: ref_sys_def ref_eventfd_def Let_def)
next
  fix k fd n
  assume "ref_evc k fd = Some n" "n < evc_max"
  then show "\<exists>k'. sys_write_u64 ref_sys fd 1 k = (8, k') \<and> ref_evc k' = (ref_evc k)(fd \<mapsto> Suc n)"
    by (auto simp: ref_sys_def ref_write_def ref_evc_def update_conv')
next
  fix k fd n
  assume "ref_evc k fd = Some n" "evc_max \<le> n"
  then show "\<exists>k'. sys_write_u64 ref_sys fd 1 k = (- 1, k') \<and> ref_evc k' = ref_evc k"
    by (auto simp: ref_sys_def ref_write_def ref_evc_def)
next
  fix k fd n
  assume "ref_evc k fd = Some (Suc n)"
  then show "\<exists>k'. sys_read_u64 ref_sys fd k = (8, k') \<and> ref_evc k' = (ref_evc k)(fd \<mapsto> n)"
    by (auto simp: ref_sys_def ref_read_def ref_evc_def update_conv')
next
  fix k fd
  assume "ref_evc k fd = Some 0"
  then show "\<exists>k'. sys_read_u64 ref_sys fd k = (- 1, k') \<and> ref_evc k' = ref_evc k"
    by (auto simp: ref_sys_def ref_read_def ref_evc_def)
qed

interpretation ref_events: events_sys ref_sys ref_evc
  by unfold_locales
     (auto simp: ref_sys_def ref_poll_def ref_fionread_def ref_recvfrom_def ref_sendto_def ref_shutdown_def
       ref_close_def ref_evc_def delete_conv' Let_def
       split: option.splits list.splits if_splits prod.splits)

section \<open>The documented clock semantics holds\<close>

lemma sun_view_terminated: "CHR 0x00 \<in> set (drop 1 (sun_view a)) \<and> length (sun_view a) = 108"
  by (cases a) auto

interpretation ref_names: names_sys ref_sys rk_clock
proof unfold_locales
  fix fd n k d path k'
  assume "sys_recvfrom_un ref_sys fd n k = (RecvOk d path, k')"
  then show "CHR 0x00 \<in> set (drop 1 path) \<and> length path = 108"
    using sun_view_terminated
    by (auto simp: ref_sys_def ref_recvfrom_def Let_def split: option.splits list.splits if_splits)
qed (auto simp: ref_sys_def ref_now_def ref_poll_def ref_fionread_def ref_recvfrom_def ref_sendto_def
      Let_def split: option.splits list.splits if_splits prod.splits)

interpretation ref_bounded: bounded_names_sys ref_sys rk_clock 1
  by unfold_locales
     (auto simp: ref_sys_def ref_now_def ref_poll_def ref_fionread_def ref_recvfrom_def ref_sendto_def
       Let_def split: option.splits list.splits if_splits prod.splits)

section \<open>The documented descriptor semantics holds\<close>

lemma find_Some_entry: "find P xs = Some (a, b) \<Longrightarrow> map_of xs a \<noteq> None"
proof -
  assume "find P xs = Some (a, b)"
  then have "(a, b) \<in> set xs" by (metis find_Some_iff nth_mem)
  then show ?thesis by (metis weak_map_of_SomeI option.distinct(1))
qed

definition ref_fds :: "ref_kernel \<Rightarrow> int set" where
  "ref_fds k = {fd. 0 \<le> fd \<and> (map_of (rk_efds k) fd \<noteq> None \<or> map_of (rk_socks k) fd \<noteq> None)}"

interpretation ref_fd: fd_sys ref_sys ref_fds
proof unfold_locales
  fix d k fd k'
  assume "sys_socket ref_sys d k = (fd, k')"
  then show "if fd < 0 then ref_fds k' = ref_fds k else fd \<notin> ref_fds k \<and> ref_fds k' = insert fd (ref_fds k)"
    using ref_fresh [of k]
    by (auto simp: ref_sys_def ref_socket_new_def ref_fds_def update_conv' Let_def split: if_splits)
next
  fix k fd k'
  assume "sys_eventfd ref_sys k = (fd, k')"
  then show "if fd < 0 then ref_fds k' = ref_fds k else fd \<notin> ref_fds k \<and> ref_fds k' = insert fd (ref_fds k)"
    using ref_fresh [of k]
    by (auto simp: ref_sys_def ref_eventfd_def ref_fds_def update_conv' Let_def split: if_splits)
next
  fix fd k
  show "ref_fds (sys_close ref_sys fd k) = ref_fds k - {fd}"
    by (auto simp: ref_sys_def ref_close_def ref_fds_def delete_conv')
next
  fix fd k
  show "ref_fds (sys_shutdown ref_sys fd k) = ref_fds k"
    by (auto simp: ref_sys_def ref_shutdown_def ref_fds_def update_conv' split: option.splits)
next
  fix fd a k r k'
  assume "sys_bind ref_sys fd a k = (r, k')"
  then show "ref_fds k' = ref_fds k"
    by (auto simp: ref_sys_def ref_bind_def ref_fds_def update_conv' split: option.splits if_splits)
next
  fix fd k r k'
  assume "sys_read_u64 ref_sys fd k = (r, k')"
  then show "ref_fds k' = ref_fds k"
    by (auto simp: ref_sys_def ref_read_def ref_fds_def update_conv' split: option.splits nat.splits if_splits)
qed (auto simp: ref_fds_def ref_sys_def ref_setsockopt_def)

interpretation ref_fd_frame: fd_frame_sys ref_sys ref_fds
  by unfold_locales
    (auto simp: ref_sys_def ref_now_def ref_write_def ref_poll_def ref_fionread_def ref_recvfrom_def ref_sendto_def
      ref_fds_def update_conv' Let_def
      split: option.splits list.splits if_splits prod.splits
      dest!: find_Some_entry)

section \<open>Evaluation\<close>

text \<open>The bound of an eventfd, compared as an integer when a run is evaluated.\<close>

lemma ref_write_code [code]:
  "ref_write fd v k =
     (case map_of (rk_efds k) fd of
        None \<Rightarrow> (- 1, k)
      | Some n \<Rightarrow>
          if int n + uint v \<le> 18446744073709551614
          then (8, k\<lparr>rk_efds := AList.update fd (n + nat (uint v)) (rk_efds k)\<rparr>)
          else (- 1, k))"
proof -
  have u: "unat v = nat (uint v)" "int (unat v) = uint v" by simp_all
  have "n + unat v \<le> evc_max \<longleftrightarrow> int n + uint v \<le> 18446744073709551614" for n
    unfolding evc_max_def u(2) [symmetric] by linarith
  then show ?thesis unfolding ref_write_def u(1) by (simp split: option.split)
qed

end
