(* ===== verification/QueueProps.thy ===== *)
theory QueueProps
  imports LinxQueue RefKernel
begin

text \<open>
  The properties of the message queue, stated for a queue that was built by its constructor and used
  by any sequence of operations of any threads. Their hypothesis about the kernel is the documented
  behaviour of a semaphore eventfd, \<open>eventfd_sys S evc\<close>; the witnesses instantiate it with the
  reference kernel.
\<close>

section \<open>A fresh queue\<close>

context eventfd_sys
begin

lemma fresh_queue_ok:
  assumes "LinxEventFd S k = (e, k')" "0 \<le> sz" "sz < 2147483648"
  shows "queue_ok evc (LinxQueue e sz, k')"
  using assms LinxEventFd_new [of k e k'] by (auto simp: queue_ok_def queue_wf_def LinxQueue_def)

lemma queue_run_mailbox:
  assumes "queue_ok evc (q, k)"
  shows "\<exists>outs q' k'. queue_run S xs (q, k) = Some (outs, q', k') \<and> queue_ok evc (q', k')
    \<and> q_efd q' = q_efd q \<and> q_max_size q' = q_max_size q
    \<and> mb_run xs (mailbox_of q) = (outs, mailbox_of q')"
  using assms
proof (induction xs arbitrary: q k)
  case (Cons x xs)
  then obtain out q1 k1 where s: "queue_step S x (q, k) = Some (out, q1, k1)" and ok: "queue_ok evc (q1, k1)"
    using queue_step_ok by blast
  note sim = queue_step_simulates [OF s]
  from Cons.IH [OF ok] s sim show ?case by auto
qed simp

end

lemma queue_run_fresh:
  assumes "eventfd_sys S evc" "LinxEventFd S k = (e, k0)" "0 \<le> sz" "sz < 2147483648"
  shows "\<exists>outs q k'. queue_run S xs (LinxQueue e sz, k0) = Some (outs, q, k') \<and> queue_ok evc (q, k')
    \<and> q_efd q = e \<and> q_max_size q = sz \<and> mb_run xs (mailbox_of (LinxQueue e sz)) = (outs, mailbox_of q)"
  using eventfd_sys.queue_run_mailbox [OF assms(1) eventfd_sys.fresh_queue_ok [OF assms]]
  by (simp add: LinxQueue_def)

text \<open>The queue that the witnesses use: capacity 2, on the reference kernel.\<close>

definition demo_efd :: linx_eventfd where
  "demo_efd = fst (LinxEventFd ref_sys ref_init)"

definition demo_kernel :: ref_kernel where
  "demo_kernel = snd (LinxEventFd ref_sys ref_init)"

definition demo_msg :: "u32 \<Rightarrow> linx_received_message" where
  "demo_msg r = \<lparr>lr_message = RawMessage r, lr_from = None, lr_server = 0\<rparr>"

lemma demo_LinxEventFd: "LinxEventFd ref_sys ref_init = (demo_efd, demo_kernel)"
  by (simp add: demo_efd_def demo_kernel_def)

lemma demo_efd_val: "efd demo_efd = 4"
  by (simp add: demo_efd_def LinxEventFd_def ref_sys_def ref_eventfd_def ref_init_def ref_fresh_fd_def Let_def)

lemma demo_queue_ok: "queue_ok ref_evc (LinxQueue demo_efd 2, demo_kernel)"
  by (rule ref_eventfd.fresh_queue_ok [OF demo_LinxEventFd]) simp_all

section \<open>Properties\<close>

text \<open>
  C2. From its construction on, and whatever sequence of add, get, clear and stop the threads run,
  every operation returns, the queue never holds more than the \<open>size\<close> messages it was built for, and
  the counter of its eventfd, the descriptor that \<open>getPollFd\<close> hands out, equals the number of queued
  messages: the descriptor polls readable exactly when a message can be fetched.
\<close>

theorem queue_counter_invariant:
  assumes "eventfd_sys S evc" "LinxEventFd S k = (e, k0)" "0 \<le> efd e" "0 \<le> sz" "sz < 2147483648"
  shows "\<exists>outs q k'. queue_run S ops (LinxQueue e sz, k0) = Some (outs, q, k')
    \<and> LinxQueue_size q = int (length (q_queue q)) \<and> LinxQueue_size q \<le> sz
    \<and> LinxQueue_getFd q = efd e \<and> evc k' (LinxQueue_getFd q) = Some (length (q_queue q))"
proof -
  obtain outs q k' where r: "queue_run S ops (LinxQueue e sz, k0) = Some (outs, q, k')"
    and ok: "queue_ok evc (q, k')" and e: "q_efd q = e" "q_max_size q = sz"
    using queue_run_fresh [OF assms(1,2,4,5)] by blast
  have "int (length (q_queue q)) \<le> sz" "LinxQueue_size q = int (length (q_queue q))"
    using ok e assms(4,5) by (auto simp: queue_ok_def queue_wf_def to_size_t_nonneg LinxQueue_size_def to_int32_id)
  with r ok e assms(3) show ?thesis
    by (auto simp: queue_ok_def LinxQueue_getFd_def LinxEventFd_getFd_def)
qed

theorem queue_counter_invariant_witness:
  "\<exists>outs q k'. queue_run ref_sys [OpAdd (demo_msg 7), OpAdd (demo_msg 8), OpAdd (demo_msg 9), OpGet [8] None]
      (LinxQueue demo_efd 2, demo_kernel) = Some (outs, q, k')
    \<and> ref_evc k' 4 = Some (length (q_queue q))"
  using queue_counter_invariant [OF ref_eventfd.eventfd_sys_axioms demo_LinxEventFd, of 2
      "[OpAdd (demo_msg 7), OpAdd (demo_msg 8), OpAdd (demo_msg 9), OpGet [8] None]"]
  by (auto simp: demo_efd_val)

text \<open>
  C1. The queue, with its eventfd and kernel, implements the bounded selective mailbox: any sequence
  of operations gives the results that the mailbox gives (messages accepted until the capacity is
  reached and refused beyond, the oldest matching message taken, the others left in order) and ends
  in the state that corresponds to that of the mailbox.
\<close>

theorem queue_refines_mailbox:
  assumes "eventfd_sys S evc" "LinxEventFd S k = (e, k0)" "0 \<le> sz" "sz < 2147483648"
  shows "\<exists>outs q k'. queue_run S ops (LinxQueue e sz, k0) = Some (outs, q, k')
    \<and> mb_run ops \<lparr>mb_msgs = [], mb_capacity = nat sz, mb_shut = False\<rparr> = (outs, mailbox_of q)"
  using queue_run_fresh [OF assms, of ops] assms(3,4)
  by (auto simp: mailbox_of_def LinxQueue_def to_size_t_nonneg)

theorem queue_refines_mailbox_witness:
  "\<exists>outs q k'. queue_run ref_sys [OpAdd (demo_msg 7), OpAdd (demo_msg 8), OpAdd (demo_msg 9), OpGet [8] None]
      (LinxQueue demo_efd 2, demo_kernel) = Some (outs, q, k')
    \<and> outs = [Added True, Added True, Added False, Got (Some (demo_msg 8))] \<and> q_queue q = [demo_msg 7]"
  using queue_refines_mailbox [OF ref_eventfd.eventfd_sys_axioms demo_LinxEventFd, of 2
      "[OpAdd (demo_msg 7), OpAdd (demo_msg 8), OpAdd (demo_msg 9), OpGet [8] None]"]
  by (auto simp: mailbox_of_def mb_take_def queue_match_def matches_def matchesSignalSelector_iff
      demo_msg_def RawMessage_def)

text \<open>
  C17. Nothing is lost, duplicated or invented: over any sequence of adds and gets, the messages that
  were accepted together with those that were there are, as a multiset, those that were delivered
  together with those that are left.
\<close>

theorem queue_conservation:
  assumes "eventfd_sys S evc" "queue_ok evc (q, k)" "OpClear \<notin> set ops" "OpStop \<notin> set ops"
  shows "\<exists>outs q' k'. queue_run S ops (q, k) = Some (outs, q', k')
    \<and> mset (q_queue q) + mset (accepted ops outs) = mset (delivered outs) + mset (q_queue q')"
proof -
  obtain outs q' k' where r: "queue_run S ops (q, k) = Some (outs, q', k')"
    using eventfd_sys.queue_run_ok [OF assms(1,2)] by blast
  with queue_run_ledger [OF r assms(3,4)] show ?thesis by blast
qed

theorem queue_conservation_witness:
  "\<exists>outs q' k'. queue_run ref_sys [OpAdd (demo_msg 7), OpGet [7] None] (LinxQueue demo_efd 2, demo_kernel)
       = Some (outs, q', k')
    \<and> mset (accepted [OpAdd (demo_msg 7), OpGet [7] None] outs) = mset (delivered outs) + mset (q_queue q')"
  using queue_conservation [OF ref_eventfd.eventfd_sys_axioms demo_queue_ok, of "[OpAdd (demo_msg 7), OpGet [7] None]"]
  by (auto simp: LinxQueue_def)

text \<open>
  C18. Selective first in, first out: when every get of the sequence asks with one selector (signals
  and sender), the matching messages are delivered in the order in which they were accepted, and
  those still undelivered are the later ones.
\<close>

theorem queue_fifo:
  assumes "eventfd_sys S evc" "queue_ok evc (q, k)" "OpClear \<notin> set ops" "OpStop \<notin> set ops"
    and "\<forall>sg' fr'. OpGet sg' fr' \<in> set ops \<longrightarrow> sg' = sg \<and> fr' = fr"
  shows "\<exists>outs q' k'. queue_run S ops (q, k) = Some (outs, q', k')
    \<and> filter (queue_match sg fr) (q_queue q @ accepted ops outs)
        = delivered outs @ filter (queue_match sg fr) (q_queue q')"
proof -
  obtain outs q' k' where r: "queue_run S ops (q, k) = Some (outs, q', k')"
    using eventfd_sys.queue_run_ok [OF assms(1,2)] by blast
  with queue_run_fifo [OF r assms(3-5)] show ?thesis by blast
qed

theorem queue_fifo_witness:
  "\<exists>outs q' k'. queue_run ref_sys [OpAdd (demo_msg 7), OpAdd (demo_msg 8), OpGet [8] None]
       (LinxQueue demo_efd 2, demo_kernel) = Some (outs, q', k')
    \<and> filter (queue_match [8] None) (accepted [OpAdd (demo_msg 7), OpAdd (demo_msg 8), OpGet [8] None] outs)
        = delivered outs @ filter (queue_match [8] None) (q_queue q')"
  using queue_fifo [OF ref_eventfd.eventfd_sys_axioms demo_queue_ok,
      of "[OpAdd (demo_msg 7), OpAdd (demo_msg 8), OpGet [8] None]" "[8]" None]
  by (auto simp: LinxQueue_def)



text \<open>
  C20. A get with a finite time-out always returns, whatever the other threads do: with a message
  that matches, or with nothing because the queue was stopped or no matching message was in it at
  that moment. It keeps the counter invariant.
\<close>

theorem queue_wait_timed:
  assumes "eventfd_sys S evc" "queue_ok evc (q, k)" "timeoutMs \<noteq> INFINITE_TIMEOUT"
  shows "\<exists>r q' k'. LinxQueue_get S timeoutMs sg fr sched final (q, k) = Some (r, q', k')
    \<and> queue_ok evc (q', k')
    \<and> (case r of Some m \<Rightarrow> queue_match sg fr m
       | None \<Rightarrow> q_stopped q' \<or> filter (queue_match sg fr) (q_queue q') = [])"
proof (cases "timeoutMs = IMMEDIATE_TIMEOUT")
  case True
  obtain r q' k' where f: "findMessage S sg fr q k = (r, q', k')" by (metis prod_cases3)
  with eventfd_sys.find_counted(1) [OF assms(1,2) f] True show ?thesis
    by (cases r) (auto simp: LinxQueue_get_def getMessage_def filter_empty_conv
        dest: findMessage_None findMessage_Some)
next
  case False
  with assms(3) eventfd_sys.waitForMessage_timed_returns [OF assms(1,2), of sg fr sched final] show ?thesis
    by (force simp: LinxQueue_get_def filter_empty_conv split: option.splits)
qed

theorem queue_wait_timed_witness:
  "\<exists>r q' k'. LinxQueue_get ref_sys 50 [7] None [[OpAdd (demo_msg 8)]] [OpAdd (demo_msg 7)]
     (LinxQueue demo_efd 2, demo_kernel) = Some (r, q', k') \<and> queue_ok ref_evc (q', k')"
  using queue_wait_timed [OF ref_eventfd.eventfd_sys_axioms demo_queue_ok, of 50 "[7]" None
      "[[OpAdd (demo_msg 8)]]" "[OpAdd (demo_msg 7)]"]
  by (auto simp: INFINITE_TIMEOUT_def)

text \<open>
  Stopping is final: there is no operation that resets the flag. After a stop, and whatever
  further operations, every get returns at once, with whatever its time-out, the result that an
  immediate get has.
\<close>

theorem queue_stop_is_final:
  assumes "queue_run S ops (q, k) = Some (outs, q', k')" and "OpStop \<in> set ops \<or> q_stopped q"
  shows "q_stopped q'
    \<and> LinxQueue_get S timeoutMs sg fr sched final (q', k') = Some (getMessage S sg fr q' k')"
proof -
  have "q_stopped q'" using queue_run_stopped [OF assms(1)] assms(2) by blast
  then show ?thesis
    by (simp add: LinxQueue_get_def getMessage_def waitForMessage_stopped waitForMessage_timed_stopped)
qed

theorem queue_stop_is_final_witness:
  "\<exists>q' k'. queue_run ref_sys [OpAdd (demo_msg 7), OpStop] (LinxQueue demo_efd 2, demo_kernel)
      = Some ([Added True, Done], q', k')
    \<and> LinxQueue_get ref_sys INFINITE_TIMEOUT [] None [] [] (q', k') = Some (getMessage ref_sys [] None q' k')"
proof -
  obtain outs q' k' where r: "queue_run ref_sys [OpAdd (demo_msg 7), OpStop] (LinxQueue demo_efd 2, demo_kernel)
      = Some (outs, q', k')"
    and m: "mb_run [OpAdd (demo_msg 7), OpStop] (mailbox_of (LinxQueue demo_efd 2)) = (outs, mailbox_of q')"
    using ref_eventfd.queue_run_mailbox [OF demo_queue_ok] by blast
  from m have "outs = [Added True, Done]"
    by (simp add: mailbox_of_def LinxQueue_def to_size_t_nonneg)
  with r queue_stop_is_final [OF r, of INFINITE_TIMEOUT "[]" None "[]" "[]"] show ?thesis by auto
qed

end
