(* ===== verification/GenericSocket.thy ===== *)
theory GenericSocket
  imports Kernel
begin

text \<open>
  The interface \<open>GenericSocket<IdentifierType>\<close> (GenericSocket.h) that clients and servers are
  templates over: a record with one field per virtual function, and the two casts between
  \<open>IdentifierType\<close> and \<open>IIdentifier\<close> that the templates use. A socket object \<open>'s\<close> works on the kernel
  state \<open>'k\<close>; \<open>None\<close> is a call that does not return (undefined behaviour, a failed \<open>assert\<close> or an
  endless loop). The locale \<open>generic_socket\<close> is the contract between the socket classes and their
  clients, \<open>timed_socket\<close> adds what the clock shows; both are interpreted on the two socket classes.
\<close>

section \<open>The virtual function table\<close>

text \<open>
  What \<open>receive\<close> hands back: the return code and what it stored through its two pointer arguments
  (\<open>None\<close>: nothing stored). The first two arguments of \<open>so_receive\<close> say whether these pointers are
  non-null.
\<close>

type_synonym received = "int \<times> raw_message option \<times> iidentifier option"

record ('i, 's, 'k) socket_ops =
  so_upcast :: "'i \<Rightarrow> iidentifier"
  so_downcast :: "iidentifier \<Rightarrow> 'i option"
  so_open :: "'s \<Rightarrow> 'k \<Rightarrow> (int \<times> 's \<times> 'k) option"
  so_close :: "'s \<Rightarrow> 'k \<Rightarrow> 's \<times> 'k"
  so_getFd :: "'s \<Rightarrow> int"
  so_send :: "imessage \<Rightarrow> 'i \<Rightarrow> 's \<Rightarrow> 'k \<Rightarrow> (int \<times> 'k) option"
  so_receive :: "bool \<Rightarrow> bool \<Rightarrow> int \<Rightarrow> 's \<Rightarrow> 'k \<Rightarrow> (received \<times> 'k) option"
  so_flush :: "'s \<Rightarrow> 'k \<Rightarrow> int \<times> 'k"

section \<open>The contract\<close>

locale generic_socket =
  fixes V :: "('i, 's, 'k) socket_ops"
  assumes receive_positive: "so_receive V pm pf t s k = Some ((ret, m, f), k') \<Longrightarrow> 0 < ret \<Longrightarrow>
            (pm \<longrightarrow> (\<exists>msg. m = Some msg \<and> ret = 4 + int (length (rm_payload msg))))
            \<and> (pf \<longrightarrow> (\<exists>i. f = Some (so_upcast V i)))"
    and receive_nothing: "so_receive V pm pf t s k = Some ((ret, m, f), k') \<Longrightarrow> ret \<le> 0 \<Longrightarrow>
            m = None \<and> f = None"
    and send_code: "so_send V msg i s k = Some (r, k') \<Longrightarrow> r \<le> 0"
    and downcast_upcast: "so_downcast V (so_upcast V i) = Some i"
    and downcast_SomeD: "so_downcast V x = Some i \<Longrightarrow> x = so_upcast V i"
    and receive_closed: "so_getFd V s < 0 \<Longrightarrow> so_receive V pm pf t s k = Some ((- 1, None, None), k)"
    and send_closed: "so_getFd V s < 0 \<Longrightarrow> so_send V msg i s k = Some (- 1, k)"
    and close_closed: "so_getFd V (fst (so_close V s k)) < 0"

context generic_socket
begin

text \<open>A call of \<open>receive\<close> either stores nothing or both the message and its sender.\<close>

lemma receive_cases:
  assumes "so_receive V True True t s k = Some (x, k')"
  obtains ret where "ret \<le> 0" "x = (ret, None, None)"
  | ret m i where "0 < ret" "x = (ret, Some m, Some (so_upcast V i))" "ret = 4 + int (length (rm_payload m))"
proof -
  obtain ret m f where x: "x = (ret, m, f)" by (cases x)
  from assms receive_nothing [of True True t s k ret m f k'] receive_positive [of True True t s k ret m f k'] x that
  show thesis by (cases "0 < ret") auto
qed

end

text \<open>
  The clock along the calls of a socket, and the arguments for which the calls return (no undefined
  behaviour): \<open>can_send\<close> says which receivers a message can be addressed to.
\<close>

locale timed_socket = generic_socket V + clock_sys S time
  for V :: "('i, 's, 'k) socket_ops" and S :: "'k sys" and time :: "'k \<Rightarrow> int" +
  fixes can_send :: "'i \<Rightarrow> bool"
  assumes time_receive: "so_receive V pm pf t s k = Some (r, k') \<Longrightarrow> time k \<le> time k'"
    and time_send: "so_send V msg i s k = Some (c, k') \<Longrightarrow> time k \<le> time k'"
    and receive_returns: "so_receive V pm pf t s k \<noteq> None"
    and sender_reachable: "so_receive V pm pf t s k = Some ((ret, m, Some (so_upcast V i)), k') \<Longrightarrow> can_send i"
    and send_returns: "fits msg \<Longrightarrow> can_send i \<Longrightarrow> so_send V msg i s k \<noteq> None"

text \<open>The same with bounds on the time that the calls take.\<close>

locale bounded_socket = timed_socket V S time can_send + bounded_sys S time J
  for V :: "('i, 's, 'k) socket_ops" and S :: "'k sys" and time :: "'k \<Rightarrow> int"
    and can_send :: "'i \<Rightarrow> bool" and J :: int +
  assumes bound_receive: "so_receive V pm pf t s k = Some (r, k') \<Longrightarrow> 0 \<le> t \<Longrightarrow>
            time k' \<le> time k + t * 1000000 + 3 * J"
    and bound_send: "so_send V msg i s k = Some (c, k') \<Longrightarrow> time k' \<le> time k + J"

text \<open>The same over a kernel with eventfds: a socket leaves the eventfds of others alone.\<close>

locale evc_socket = generic_socket V + eventfd_sys S evc
  for V :: "('i, 's, 'k) socket_ops" and S :: "'k sys" and evc :: "'k \<Rightarrow> int \<Rightarrow> nat option" +
  assumes receive_evc: "so_receive V pm pf t s k = Some (r, k') \<Longrightarrow> evc k' = evc k"
    and send_evc: "so_send V msg i s k = Some (c, k') \<Longrightarrow> evc k' = evc k"
    and close_evc: "so_close V s k = (s', k') \<Longrightarrow> fd \<noteq> so_getFd V s \<Longrightarrow> evc k' fd = evc k fd"

section \<open>Reading C strings from memory\<close>

text \<open>
  \<open>std::string(&buf[off])\<close>: the characters up to the first NUL at or after \<open>off\<close>; without one the
  read runs past the end of \<open>buf\<close>, which is undefined behaviour.
\<close>

definition c_string_at :: "string \<Rightarrow> nat \<Rightarrow> string option" where
  "c_string_at buf off = (if CHR 0x00 \<in> set (drop off buf) then Some (c_str (drop off buf)) else None)"

text \<open>\<open>strncpy(dst, src, n)\<close> with \<open>n\<close> at most the length of \<open>src\<close>: the \<open>n\<close> characters it stores.\<close>

definition strncpy_bytes :: "string \<Rightarrow> nat \<Rightarrow> string" where
  "strncpy_bytes src n =
     (let p = take n (c_str src) in p @ replicate (n - length p) (CHR 0x00))"

lemma length_strncpy_bytes [simp]: "length (strncpy_bytes src n) = n"
  by (simp add: strncpy_bytes_def Let_def)

lemma strncpy_bytes_id: "CHR 0x00 \<notin> set src \<Longrightarrow> strncpy_bytes src (length src) = src"
  by (simp add: strncpy_bytes_def c_str_id)

section \<open>Receiving a datagram\<close>

text \<open>
  What the \<open>receive\<close> functions of the two socket classes have in common, as a specification of both:
  \<open>recv\<close> is the \<open>recvfrom\<close> with the address structure of the class, \<open>name\<close> reads the sender from it
  (\<open>None\<close>: undefined behaviour).
\<close>

definition dgram_receive ::
  "'k sys \<Rightarrow> (int \<Rightarrow> nat \<Rightarrow> 'k \<Rightarrow> 'a recv_result \<times> 'k) \<Rightarrow> ('a \<Rightarrow> iidentifier option) \<Rightarrow> endian \<Rightarrow> bool
     \<Rightarrow> bool \<Rightarrow> int \<Rightarrow> int \<Rightarrow> 'k \<Rightarrow> (received \<times> 'k) option" where
  "dgram_receive S recv name e pm pf t fd k =
     (if fd < 0 then Some ((- 1, None, None), k)
      else let ((pollrc, errno), k1) = sys_poll_in S fd t k in
        if pollrc < 0 then Some ((if errno = EBADF then 0 else - 2, None, None), k1)
        else if pollrc = 0 then Some ((0, None, None), k1)
        else let (avail, k2) = sys_fionread S fd k1;
                 n = (case avail of None \<Rightarrow> 0 | Some n \<Rightarrow> n);
                 (res, k3) = recv fd n k2 in
          (case res of
             RecvErr errno' \<Rightarrow> Some ((if errno' = EBADF then 0 else - 4, None, None), k3)
           | RecvOk data a \<Rightarrow>
               if length data \<noteq> n then Some ((- 5, None, None), k3)
               else (case RawMessage_deserialize e data of
                   None \<Rightarrow> Some ((- 6, None, None), k3)
                 | Some msg \<Rightarrow>
                     if pf \<and> name a = None then None
                     else Some ((int n, if pm then Some msg else None, if pf then name a else None), k3))))"

lemma dgram_receive_inv:
  assumes "dgram_receive S recv name e pm pf t fd k = Some ((ret, m, f), k')"
  shows "(ret \<le> 0 \<and> m = None \<and> f = None) \<or>
    (\<exists>k1 k2 n errno a msg r. 0 \<le> fd \<and> sys_poll_in S fd t k = ((r, errno), k1) \<and> 0 < r
      \<and> sys_fionread S fd k1 = (Some n, k2)
      \<and> recv fd n k2 = (RecvOk (wire e (RawM msg)) a, k')
      \<and> n = 4 + length (rm_payload msg) \<and> ret = int n
      \<and> m = (if pm then Some msg else None) \<and> f = (if pf then name a else None) \<and> (pf \<longrightarrow> name a \<noteq> None))"
proof (cases "0 < ret")
  case True
  then have "0 \<le> fd" using assms by (auto simp: dgram_receive_def split: if_splits)
  obtain r errno k1 where p: "sys_poll_in S fd t k = ((r, errno), k1)" by (metis prod.collapse)
  obtain avail k2 where a: "sys_fionread S fd k1 = (avail, k2)" by (metis prod.collapse)
  define n where "n = (case avail of None \<Rightarrow> 0 | Some n \<Rightarrow> n)"
  obtain res k3 where r: "recv fd n k2 = (res, k3)" by (metis prod.collapse)
  from assms True \<open>0 \<le> fd\<close> p a r have "0 < r"
    by (auto simp: dgram_receive_def split: if_splits)
  moreover obtain data ad where "res = RecvOk data ad"
    using assms True \<open>0 \<le> fd\<close> p a r
    by (cases res) (auto simp: dgram_receive_def Let_def n_def split: if_splits)
  moreover from this have "length data = n"
    using assms True \<open>0 \<le> fd\<close> p a r \<open>0 < r\<close>
    by (auto simp: dgram_receive_def Let_def n_def split: if_splits)
  ultimately obtain data ad where rd: "0 < r" "res = RecvOk data ad" "length data = n" by blast
  have eq: "(case RawMessage_deserialize e data of
        None \<Rightarrow> Some ((- 6, None, None), k3)
      | Some msg \<Rightarrow>
          if pf \<and> name ad = None then None
          else Some ((int n, if pm then Some msg else None, if pf then name ad else None), k3))
      = Some ((ret, m, f), k')"
    using assms True \<open>0 \<le> fd\<close> p a r rd unfolding n_def
    by (simp add: dgram_receive_def Let_def split: if_splits)
  then obtain msg where d: "RawMessage_deserialize e data = Some msg"
    using True by (cases "RawMessage_deserialize e data") auto
  then have w: "data = wire e (RawM msg)" by (simp add: deserialize_Some_iff wire_RawM)
  then have n: "n = 4 + length (rm_payload msg)" using rd(3) by (simp add: length_wire)
  then have "avail = Some n" by (cases avail) (auto simp: n_def)
  moreover have "int n = ret \<and> m = (if pm then Some msg else None) \<and> f = (if pf then name ad else None)
      \<and> (pf \<longrightarrow> name ad \<noteq> None) \<and> k3 = k'"
    using eq d by (auto split: if_splits)
  ultimately show ?thesis using \<open>0 \<le> fd\<close> p a r rd w n by blast
next
  case False
  with assms show ?thesis
    by (auto simp: dgram_receive_def Let_def deserialize_Some_iff
        split: if_splits prod.splits recv_result.splits option.splits)
qed

text \<open>Whatever part of the kernel state the three calls leave alone, \<open>receive\<close> leaves alone.\<close>

lemma dgram_receive_frame:
  assumes "dgram_receive S recv name e pm pf t fd k = Some (x, k')"
    and poll: "\<And>p k k'. sys_poll_in S fd t k = (p, k') \<Longrightarrow> obs k' = obs k"
    and fionread: "\<And>a k k'. sys_fionread S fd k = (a, k') \<Longrightarrow> obs k' = obs k"
    and recv: "\<And>n k res k'. recv fd n k = (res, k') \<Longrightarrow> obs k' = obs k"
  shows "obs k' = obs k"
  using assms(1) poll fionread recv
  by (auto simp: dgram_receive_def Let_def split: if_splits recv_result.splits option.splits prod.splits)

lemma dgram_receive_time:
  assumes "clock_sys S time" "dgram_receive S recv name e pm pf t fd k = Some (x, k')"
    and recv: "\<And>n k res k'. recv fd n k = (res, k') \<Longrightarrow> time k \<le> time k'"
  shows "time k \<le> time k'"
proof (cases "0 \<le> fd")
  case True
  note poll = clock_sys.clock_poll [OF assms(1)] and fion = clock_sys.clock_fionread [OF assms(1)]
  obtain r errno k1 where p: "sys_poll_in S fd t k = ((r, errno), k1)" by (metis prod.collapse)
  obtain avail k2 where a: "sys_fionread S fd k1 = (avail, k2)" by (metis prod.collapse)
  obtain res k3 where v: "recv fd (case avail of None \<Rightarrow> 0 | Some n \<Rightarrow> n) k2 = (res, k3)"
    by (metis prod.collapse)
  from poll [OF p] fion [OF a] recv [OF v] assms(2) True p a v show ?thesis
    by (auto simp: dgram_receive_def Let_def split: if_splits recv_result.splits option.splits)
qed (use assms(2) in \<open>auto simp: dgram_receive_def\<close>)

lemma dgram_receive_bound:
  assumes "bounded_sys S time J" "dgram_receive S recv name e pm pf t fd k = Some (x, k')" "0 \<le> t"
    and recv: "\<And>n k res k'. recv fd n k = (res, k') \<Longrightarrow> time k' \<le> time k + J"
  shows "time k' \<le> time k + t * 1000000 + 3 * J"
proof (cases "0 \<le> fd")
  case True
  note poll = bounded_sys.bound_poll [OF assms(1) _ assms(3)] and fion = bounded_sys.bound_fionread [OF assms(1)]
    and J = bounded_sys.J_pos [OF assms(1)]
  obtain r errno k1 where p: "sys_poll_in S fd t k = ((r, errno), k1)" by (metis prod.collapse)
  obtain avail k2 where a: "sys_fionread S fd k1 = (avail, k2)" by (metis prod.collapse)
  obtain res k3 where v: "recv fd (case avail of None \<Rightarrow> 0 | Some n \<Rightarrow> n) k2 = (res, k3)"
    by (metis prod.collapse)
  have "k' = k1 \<or> k' = k3"
    using assms(2) True p a v
    by (auto simp: dgram_receive_def Let_def split: if_splits recv_result.splits option.splits)
  with poll [OF p] fion [OF a] recv [OF v] J show ?thesis by auto
next
  case False
  with assms(2,3) bounded_sys.J_pos [OF assms(1)] show ?thesis by (auto simp: dgram_receive_def)
qed

lemma dgram_receive_returns:
  assumes "\<And>n k d a k'. recv fd n k = (RecvOk d a, k') \<Longrightarrow> name a \<noteq> None"
  shows "dgram_receive S recv name e pm pf t fd k \<noteq> None"
  by (auto simp: dgram_receive_def Let_def split: prod.splits recv_result.splits option.splits
      dest: assms)

lemma serialize_whole:
  assumes "fits m"
  shows "serialize e m (replicate (unat (getSize m)) 0) (getSize m) = Some (getSize m, wire e m)"
    and "getSize m \<noteq> 0" and "take (unat (getSize m)) (wire e m) = wire e m"
proof -
  have n: "unat (getSize m) = length (wire e m)" by (rule getSize_fits [OF assms])
  with serialize_fits [OF assms order.refl, of "replicate (unat (getSize m)) 0" e]
  show "serialize e m (replicate (unat (getSize m)) 0) (getSize m) = Some (getSize m, wire e m)"
    by simp
  show "getSize m \<noteq> 0" using n length_wire [of e m] by auto
  show "take (unat (getSize m)) (wire e m) = wire e m" using n by simp
qed

section \<open>Owning a descriptor\<close>

text \<open>
  \<open>owns V fds B s k\<close>: the open descriptors are those of \<open>B\<close>, which the socket object has nothing to
  do with, and the object's own, if it has one.
\<close>

definition own :: "('i, 's, 'k) socket_ops \<Rightarrow> 's \<Rightarrow> int set" where
  "own V s = (if 0 \<le> so_getFd V s then {so_getFd V s} else {})"

definition owns :: "('i, 's, 'k) socket_ops \<Rightarrow> ('k \<Rightarrow> int set) \<Rightarrow> int set \<Rightarrow> 's \<Rightarrow> 'k \<Rightarrow> bool" where
  "owns V fds B s k \<longleftrightarrow> B \<inter> own V s = {} \<and> fds k = B \<union> own V s"

datatype sock_op = SockOpen | SockClose

fun sock_run :: "('i, 's, 'k) socket_ops \<Rightarrow> sock_op list \<Rightarrow> 's \<times> 'k \<Rightarrow> ('s \<times> 'k) option" where
  "sock_run V [] (s, k) = Some (s, k)"
| "sock_run V (SockOpen # ops) (s, k) =
     (case so_open V s k of None \<Rightarrow> None | Some (_, s', k') \<Rightarrow> sock_run V ops (s', k'))"
| "sock_run V (SockClose # ops) (s, k) = sock_run V ops (so_close V s k)"

locale owning_socket = generic_socket V
  for V :: "('i, 's, 'k) socket_ops" +
  fixes fds :: "'k \<Rightarrow> int set" and good :: "'s \<Rightarrow> bool"
  assumes open_owns: "owns V fds B s k \<Longrightarrow> good s \<Longrightarrow>
            \<exists>r s' k'. so_open V s k = Some (r, s', k') \<and> owns V fds B s' k' \<and> good s'"
    and close_owns: "owns V fds B s k \<Longrightarrow> good s \<Longrightarrow> so_close V s k = (s', k') \<Longrightarrow>
            owns V fds B s' k' \<and> good s'"
begin

lemma close_releases:
  assumes "owns V fds B s k" "good s" "so_close V s k = (s', k')"
  shows "fds k' = B"
  using close_owns [OF assms] close_closed [of s k] assms(3) by (simp add: owns_def own_def)

lemma sock_run_owns:
  "owns V fds B s k \<Longrightarrow> good s \<Longrightarrow>
     \<exists>s' k'. sock_run V ops (s, k) = Some (s', k') \<and> owns V fds B s' k' \<and> good s'"
proof (induction ops arbitrary: s k)
  case (Cons x ops)
  show ?case
  proof (cases x)
    case SockOpen
    with open_owns [OF Cons.prems] Cons.IH show ?thesis by fastforce
  next
    case SockClose
    obtain s' k' where "so_close V s k = (s', k')" by fastforce
    with close_owns [OF Cons.prems this] Cons.IH SockClose show ?thesis by auto
  qed
qed auto

end

text \<open>A socket that owns its descriptor, and leaves all of them alone when it sends and receives.\<close>

locale frame_socket = owning_socket V fds good + fd_frame_sys S fds
  for V :: "('i, 's, 'k) socket_ops" and fds :: "'k \<Rightarrow> int set" and good :: "'s \<Rightarrow> bool" and S :: "'k sys" +
  assumes receive_fds: "so_receive V pm pf t s k = Some (r, k') \<Longrightarrow> fds k' = fds k"
    and send_fds: "so_send V msg i s k = Some (c, k') \<Longrightarrow> fds k' = fds k"

end
