(* ===== verification/UnixSocket.thy ===== *)
theory UnixSocket
  imports GenericSocket
begin

text \<open>
  The class \<open>AfUnixSocket\<close> (AfUnixSocket.h, AfUnixSocket.cpp), every operation over the kernel
  parameter. The socket names are abstract \<open>AF_UNIX\<close> names: they start at the second character of
  \<open>sun_path\<close>. Writes into the 108 characters of \<open>sun_path\<close> and reads of a C string from it are
  checked accesses.
\<close>

section \<open>Model\<close>

record af_unix_socket =
  us_fd :: int
  us_address :: string
  us_socketName :: string

definition AfUnixSocket :: "string \<Rightarrow> af_unix_socket" where
  "AfUnixSocket socketName =
     \<lparr>us_fd = - 1, us_address = replicate 108 (CHR 0x00), us_socketName = socketName\<rparr>"

definition createAddress :: "string \<Rightarrow> string \<Rightarrow> (string \<times> nat) option" where
  "createAddress sun_path name =
     (let address_length = 2 + length name + 1 in
      case write_at sun_path 1 (strncpy_bytes name (length name)) of
        None \<Rightarrow> None
      | Some sun_path' \<Rightarrow> Some (sun_path', address_length))"

definition AfUnixSocket_open ::
  "'k sys \<Rightarrow> af_unix_socket \<Rightarrow> 'k \<Rightarrow> (int \<times> af_unix_socket \<times> 'k) option" where
  "AfUnixSocket_open S this k =
     (if us_fd this \<ge> 0 then Some (- 1, this, k)
      else let (fd, k1) = sys_socket S AF_UNIX k in
        if fd < 0 then Some (- 1, this\<lparr>us_fd := - 1\<rparr>, k1)
        else (case createAddress (us_address this) (us_socketName this) of
            None \<Rightarrow> None
          | Some (path, address_length) \<Rightarrow>
              let this1 = this\<lparr>us_fd := fd, us_address := path\<rparr>;
                  (r, k2) = sys_bind S fd (SunAddr path address_length) k1 in
              if r < 0 then Some (- 1, this1\<lparr>us_fd := - 1\<rparr>, sys_close S fd k2)
              else Some (0, this1, k2)))"

definition AfUnixSocket_close :: "'k sys \<Rightarrow> af_unix_socket \<Rightarrow> 'k \<Rightarrow> af_unix_socket \<times> 'k" where
  "AfUnixSocket_close S this k =
     (if us_fd this \<ge> 0
      then (this\<lparr>us_fd := - 1\<rparr>, sys_close S (us_fd this) (sys_shutdown S (us_fd this) k))
      else (this, k))"

definition AfUnixSocket_dtor :: "'k sys \<Rightarrow> af_unix_socket \<Rightarrow> 'k \<Rightarrow> 'k" where
  "AfUnixSocket_dtor S this k = snd (AfUnixSocket_close S this k)"

definition AfUnixSocket_receive ::
  "'k sys \<Rightarrow> endian \<Rightarrow> bool \<Rightarrow> bool \<Rightarrow> int \<Rightarrow> af_unix_socket \<Rightarrow> 'k \<Rightarrow> (received \<times> 'k) option" where
  "AfUnixSocket_receive S e want_msg want_from timeoutMs this k =
     (if us_fd this < 0 then Some ((- 1, None, None), k)
      else let ((pollrc, errno), k1) = sys_poll_in S (us_fd this) timeoutMs k in
        if pollrc < 0 then Some ((if errno = EBADF then 0 else - 2, None, None), k1)
        else if pollrc = 0 then Some ((0, None, None), k1)
        else let (avail, k2) = sys_fionread S (us_fd this) k1;
                 bytes_available = (case avail of None \<Rightarrow> 0 | Some n \<Rightarrow> n);
                 (res, k3) = sys_recvfrom_un S (us_fd this) bytes_available k2 in
          (case res of
             RecvErr errno' \<Rightarrow> Some ((if errno' = EBADF then 0 else - 4, None, None), k3)
           | RecvOk data sun_path \<Rightarrow>
               if length data \<noteq> bytes_available then Some ((- 5, None, None), k3)
               else (case RawMessage_deserialize e (fill_buffer bytes_available data) of
                   None \<Rightarrow> Some ((- 6, None, None), k3)
                 | Some ipc \<Rightarrow>
                     (case (if want_from then map_option Some (c_string_at sun_path 1) else Some None) of
                        None \<Rightarrow> None
                      | Some name \<Rightarrow>
                          Some ((int (length data), if want_msg then Some ipc else None,
                                 map_option (\<lambda>n. UnixId (UnixInfo n)) name), k3)))))"

definition AfUnixSocket_send ::
  "'k sys \<Rightarrow> endian \<Rightarrow> imessage \<Rightarrow> unix_info \<Rightarrow> af_unix_socket \<Rightarrow> 'k \<Rightarrow> (int \<times> 'k) option" where
  "AfUnixSocket_send S e message to this k =
     (if us_fd this < 0 then Some (- 1, k)
      else let sendSize = getSize message in
        (case serialize e message (replicate (unat sendSize) 0) sendSize of
           None \<Rightarrow> None
         | Some (result, buffer) \<Rightarrow>
             if result = 0 then Some (- 2, k)
             else (case createAddress (replicate 108 (CHR 0x00)) (ui_value to) of
                 None \<Rightarrow> None
               | Some (path, address_length) \<Rightarrow>
                   let (len, k1) = sys_sendto S (us_fd this) (take (unat result) buffer)
                                     (SunAddr path address_length) k in
                   if len < 0 then Some (- 3, k1)
                   else if (of_int len :: u32) \<noteq> result then Some (- 4, k1)
                   else Some (0, k1))))"

definition AfUnixSocket_flush :: "'k sys \<Rightarrow> af_unix_socket \<Rightarrow> 'k \<Rightarrow> int \<times> 'k" where
  "AfUnixSocket_flush S this k =
     (if us_fd this < 0 then (- 1, k)
      else let (avail, k1) = sys_fionread S (us_fd this) k;
               bytes_available = (case avail of None \<Rightarrow> 0 | Some n \<Rightarrow> n) in
        if bytes_available > 0
        then let (_, k2) = sys_recvfrom_un S (us_fd this) bytes_available k1 in (int bytes_available, k2)
        else (int bytes_available, k1))"

definition AfUnixSocket_getFd :: "af_unix_socket \<Rightarrow> int" where
  "AfUnixSocket_getFd this = us_fd this"

fun UnixInfo_cast :: "iidentifier \<Rightarrow> unix_info option" where
  "UnixInfo_cast (UnixId u) = Some u"
| "UnixInfo_cast (PortId p) = None"

definition AfUnixSocket_ops :: "'k sys \<Rightarrow> endian \<Rightarrow> (unix_info, af_unix_socket, 'k) socket_ops" where
  "AfUnixSocket_ops S e =
     \<lparr>so_upcast = UnixId, so_downcast = UnixInfo_cast, so_open = AfUnixSocket_open S,
      so_close = AfUnixSocket_close S, so_getFd = AfUnixSocket_getFd, so_send = AfUnixSocket_send S e,
      so_receive = AfUnixSocket_receive S e, so_flush = AfUnixSocket_flush S\<rparr>"

lemma AfUnixSocket_ops_sel [simp]:
  "so_upcast (AfUnixSocket_ops S e) = UnixId" "so_downcast (AfUnixSocket_ops S e) = UnixInfo_cast"
  "so_open (AfUnixSocket_ops S e) = AfUnixSocket_open S" "so_close (AfUnixSocket_ops S e) = AfUnixSocket_close S"
  "so_getFd (AfUnixSocket_ops S e) = AfUnixSocket_getFd" "so_send (AfUnixSocket_ops S e) = AfUnixSocket_send S e"
  "so_receive (AfUnixSocket_ops S e) = AfUnixSocket_receive S e"
  "so_flush (AfUnixSocket_ops S e) = AfUnixSocket_flush S"
  by (simp_all add: AfUnixSocket_ops_def)

section \<open>The interface contract\<close>

definition sun_sender :: "string \<Rightarrow> iidentifier option" where
  "sun_sender path = map_option (\<lambda>n. UnixId (UnixInfo n)) (c_string_at path 1)"

lemma AfUnixSocket_receive_eq:
  "AfUnixSocket_receive S e pm pf t this k =
     dgram_receive S (sys_recvfrom_un S) sun_sender e pm pf t (us_fd this) k"
  by (auto simp: AfUnixSocket_receive_def dgram_receive_def sun_sender_def Let_def
      split: prod.split recv_result.split option.split)

lemma AfUnixSocket_send_closed: "us_fd this < 0 \<Longrightarrow> AfUnixSocket_send S e m to this k = Some (- 1, k)"
  by (simp add: AfUnixSocket_send_def)

lemma AfUnixSocket_send_code: "AfUnixSocket_send S e m to this k = Some (r, k') \<Longrightarrow> r \<le> 0"
  by (auto simp: AfUnixSocket_send_def Let_def split: if_splits option.splits prod.splits)

lemma AfUnixSocket_close_fd: "us_fd (fst (AfUnixSocket_close S this k)) < 0"
  by (auto simp: AfUnixSocket_close_def)

lemma UnixInfo_cast_SomeD: "UnixInfo_cast x = Some i \<Longrightarrow> x = UnixId i"
  by (cases x) auto

interpretation unix_socket: generic_socket "AfUnixSocket_ops S e"
  for S :: "'k sys" and e
proof unfold_locales
  fix pm pf t s k ret m f k'
  assume "so_receive (AfUnixSocket_ops S e) pm pf t s k = Some ((ret, m, f), k')" "0 < ret"
  then show "(pm \<longrightarrow> (\<exists>msg. m = Some msg \<and> ret = 4 + int (length (rm_payload msg))))
      \<and> (pf \<longrightarrow> (\<exists>i. f = Some (so_upcast (AfUnixSocket_ops S e) i)))"
    by (auto simp: AfUnixSocket_receive_eq sun_sender_def dest!: dgram_receive_inv)
next
  fix pm pf t s k ret m f k'
  assume "so_receive (AfUnixSocket_ops S e) pm pf t s k = Some ((ret, m, f), k')" "ret \<le> 0"
  then show "m = None \<and> f = None"
    by (auto simp: AfUnixSocket_receive_eq dest!: dgram_receive_inv)
qed (auto simp: AfUnixSocket_getFd_def AfUnixSocket_receive_def AfUnixSocket_send_closed
      AfUnixSocket_close_fd dest: AfUnixSocket_send_code UnixInfo_cast_SomeD)

lemma AfUnixSocket_send_time:
  assumes "clock_sys S time" "AfUnixSocket_send S e m to this k = Some (r, k')"
  shows "time k \<le> time k'"
  using assms(2) clock_sys.clock_sendto [OF assms(1)]
  by (auto simp: AfUnixSocket_send_def Let_def split: if_splits option.splits prod.splits)

lemma AfUnixSocket_send_returns:
  assumes "fits m" "length (ui_value i) \<le> 107"
  shows "AfUnixSocket_send S e m i this k \<noteq> None"
  using assms
  by (auto simp: AfUnixSocket_send_def serialize_whole createAddress_def write_at_def Let_def
      split: prod.splits)

sublocale names_sys \<subseteq> unix_timed: timed_socket "AfUnixSocket_ops S e" S time "\<lambda>i. length (ui_value i) \<le> 107" for e
proof unfold_locales
  fix pm pf t s k r k'
  assume r: "so_receive (AfUnixSocket_ops S e) pm pf t s k = Some (r, k')"
  show "time k \<le> time k'"
    by (rule dgram_receive_time [OF clock_sys_axioms])
      (use r in \<open>auto simp: AfUnixSocket_receive_eq dest: clock_recv_un\<close>)
next
  fix msg i s k c k'
  assume "so_send (AfUnixSocket_ops S e) msg i s k = Some (c, k')"
  then show "time k \<le> time k'" using AfUnixSocket_send_time [OF clock_sys_axioms] by simp
next
  fix pm pf t k and s :: af_unix_socket
  have "dgram_receive S (sys_recvfrom_un S) sun_sender e pm pf t (us_fd s) k \<noteq> None"
    by (rule dgram_receive_returns) (auto simp: sun_sender_def c_string_at_def dest: names_terminated)
  then show "so_receive (AfUnixSocket_ops S e) pm pf t s k \<noteq> None"
    by (simp add: AfUnixSocket_receive_eq)
next
  fix pm pf t s k ret m i k'
  assume "so_receive (AfUnixSocket_ops S e) pm pf t s k
      = Some ((ret, m, Some (so_upcast (AfUnixSocket_ops S e) i)), k')"
  then have "dgram_receive S (sys_recvfrom_un S) sun_sender e pm pf t (us_fd s) k = Some ((ret, m, Some (UnixId i)), k')"
    by (simp add: AfUnixSocket_receive_eq)
  from dgram_receive_inv [OF this] obtain fd n k2 d path k3 where "sys_recvfrom_un S fd n k2 = (RecvOk d path, k3)"
    and "Some (UnixId i) = (if pf then sun_sender path else None)" by auto
  then show "length (ui_value i) \<le> 107"
    using names_terminated length_takeWhile_le [of "\<lambda>c. c \<noteq> CHR 0x00" "drop 1 path"]
    by (fastforce simp: sun_sender_def c_string_at_def c_str_def UnixInfo_def split: if_splits)
next
  fix msg k and i :: unix_info and s :: af_unix_socket
  assume "fits msg" "length (ui_value i) \<le> 107"
  then show "so_send (AfUnixSocket_ops S e) msg i s k \<noteq> None"
    using AfUnixSocket_send_returns by simp
qed

lemma AfUnixSocket_send_bound:
  assumes "bounded_sys S time J" "AfUnixSocket_send S e m to this k = Some (r, k')"
  shows "time k' \<le> time k + J"
  using assms(2) bounded_sys.bound_sendto [OF assms(1)] bounded_sys.J_pos [OF assms(1)]
  by (force simp: AfUnixSocket_send_def Let_def split: if_splits option.splits prod.splits)

sublocale bounded_names_sys \<subseteq> unix_bounded: bounded_socket "AfUnixSocket_ops S e" S time "\<lambda>i. length (ui_value i) \<le> 107" J for e
proof unfold_locales
  fix pm pf t s k r k'
  assume r: "so_receive (AfUnixSocket_ops S e) pm pf t s k = Some (r, k')" and t: "0 \<le> t"
  show "time k' \<le> time k + t * 1000000 + 3 * J"
    by (rule dgram_receive_bound [OF bounded_sys_axioms _ t])
      (use r in \<open>auto simp: AfUnixSocket_receive_eq dest: bound_recv_un\<close>)
next
  fix msg i s k c k'
  assume "so_send (AfUnixSocket_ops S e) msg i s k = Some (c, k')"
  then show "time k' \<le> time k + J" using AfUnixSocket_send_bound [OF bounded_sys_axioms] by simp
qed

lemma AfUnixSocket_send_frame:
  assumes "AfUnixSocket_send S e m to this k = Some (r, k')"
    and "\<And>fd d a k r k'. sys_sendto S fd d a k = (r, k') \<Longrightarrow> obs k' = obs k"
  shows "obs k' = obs k"
  using assms
  by (auto simp: AfUnixSocket_send_def Let_def split: if_splits option.splits prod.splits)

sublocale events_sys \<subseteq> unix_evc: evc_socket "AfUnixSocket_ops S e" S evc for e
proof unfold_locales
  fix pm pf t s k r k'
  assume r: "so_receive (AfUnixSocket_ops S e) pm pf t s k = Some (r, k')"
  show "evc k' = evc k"
    by (rule dgram_receive_frame [where obs = evc])
      (use r in \<open>auto simp: AfUnixSocket_receive_eq dest: evc_poll evc_fionread evc_recv_un\<close>)
next
  fix msg i s k c k'
  assume "so_send (AfUnixSocket_ops S e) msg i s k = Some (c, k')"
  then show "evc k' = evc k" using AfUnixSocket_send_frame [where obs = evc] evc_sendto by fastforce
next
  fix s k s' k' fd
  assume "so_close (AfUnixSocket_ops S e) s k = (s', k')" "fd \<noteq> so_getFd (AfUnixSocket_ops S e) s"
  then show "evc k' fd = evc k fd"
    by (auto simp: AfUnixSocket_close_def AfUnixSocket_getFd_def evc_close evc_shutdown split: if_splits)
qed

section \<open>Descriptors\<close>

definition unix_good :: "af_unix_socket \<Rightarrow> bool" where
  "unix_good s \<longleftrightarrow> length (us_address s) = 108 \<and> length (us_socketName s) \<le> 107"

lemma createAddress_length:
  "createAddress path name = Some (path', n) \<Longrightarrow> length path' = length path"
  by (auto simp: createAddress_def Let_def dest: write_at_length split: option.splits)

lemma createAddress_good: "unix_good s \<Longrightarrow> \<exists>path n. createAddress (us_address s) (us_socketName s) = Some (path, n)"
  by (auto simp: createAddress_def unix_good_def write_at_def Let_def)

lemma own_unix: "own (AfUnixSocket_ops S e) s = (if 0 \<le> us_fd s then {us_fd s} else {})"
  by (simp add: own_def AfUnixSocket_getFd_def)

lemma AfUnixSocket_open_owns:
  assumes "fd_sys S fds" "owns (AfUnixSocket_ops S e) fds B s k" "unix_good s"
  shows "\<exists>r s' k'. AfUnixSocket_open S s k = Some (r, s', k')
    \<and> owns (AfUnixSocket_ops S e) fds B s' k' \<and> unix_good s'
    \<and> (r = 0 \<longrightarrow> 0 \<le> us_fd s') \<and> (us_fd s < 0 \<longrightarrow> r \<noteq> 0 \<longrightarrow> us_fd s' = - 1)"
proof (cases "0 \<le> us_fd s")
  case True
  with assms(2,3) show ?thesis by (simp add: AfUnixSocket_open_def)
next
  case False
  obtain fd k1 where so: "sys_socket S AF_UNIX k = (fd, k1)" by fastforce
  obtain path n where ca: "createAddress (us_address s) (us_socketName s) = Some (path, n)"
    using createAddress_good [OF assms(3)] by blast
  obtain r k2 where b: "sys_bind S fd (SunAddr path n) k1 = (r, k2)" by fastforce
  have f: "fds k2 = fds k1" "fds (sys_close S fd k2) = fds k1 - {fd}"
    using fd_sys.fds_bind [OF assms(1) b] fd_sys.fds_close [OF assms(1), of fd k2] by auto
  have g: "unix_good (s\<lparr>us_address := path, us_fd := x\<rparr>)" "unix_good (s\<lparr>us_fd := x, us_address := path\<rparr>)" "unix_good (s\<lparr>us_fd := x\<rparr>)" for x
    using assms(3) createAddress_length [OF ca] by (auto simp: unix_good_def)
  from fd_sys.fds_socket [OF assms(1) so] False assms(2) so ca b f g show ?thesis
    by (auto simp: AfUnixSocket_open_def owns_def own_unix Let_def split: if_splits)
qed

lemma AfUnixSocket_close_owns:
  assumes "fd_sys S fds" "owns (AfUnixSocket_ops S e) fds B s k" "unix_good s"
    and "AfUnixSocket_close S s k = (s', k')"
  shows "owns (AfUnixSocket_ops S e) fds B s' k' \<and> unix_good s'"
proof (cases "0 \<le> us_fd s")
  case True
  with assms(4) have "s' = s\<lparr>us_fd := - 1\<rparr>" "fds k' = fds k - {us_fd s}"
    by (auto simp: AfUnixSocket_close_def fd_sys.fds_close [OF assms(1)] fd_sys.fds_shutdown [OF assms(1)])
  with True assms(2,3) show ?thesis by (auto simp: owns_def own_unix unix_good_def)
next
  case False
  with assms(2-4) show ?thesis by (simp add: AfUnixSocket_close_def)
qed

sublocale fd_sys \<subseteq> unix_owning: owning_socket "AfUnixSocket_ops S e" fds unix_good for e
proof unfold_locales
  fix B s k
  assume "owns (AfUnixSocket_ops S e) fds B s k" "unix_good s"
  from AfUnixSocket_open_owns [OF fd_sys_axioms this]
  show "\<exists>r s' k'. so_open (AfUnixSocket_ops S e) s k = Some (r, s', k')
      \<and> owns (AfUnixSocket_ops S e) fds B s' k' \<and> unix_good s'" by auto
next
  fix B s k s' k'
  assume a: "owns (AfUnixSocket_ops S e) fds B s k" "unix_good s"
    and c: "so_close (AfUnixSocket_ops S e) s k = (s', k')"
  show "owns (AfUnixSocket_ops S e) fds B s' k' \<and> unix_good s'"
    by (rule AfUnixSocket_close_owns [OF fd_sys_axioms a]) (use c in simp)
qed

context fd_sys
begin

lemma unix_run_owns:
  "owns (AfUnixSocket_ops S e) fds B s k \<Longrightarrow> unix_good s \<Longrightarrow>
     \<exists>s' k'. sock_run (AfUnixSocket_ops S e) ops (s, k) = Some (s', k')
       \<and> owns (AfUnixSocket_ops S e) fds B s' k' \<and> unix_good s'"
  by (rule unix_owning.sock_run_owns)

lemma unix_close_releases:
  "owns (AfUnixSocket_ops S e) fds B s k \<Longrightarrow> unix_good s \<Longrightarrow> fds (snd (AfUnixSocket_close S s k)) = B"
  by (rule unix_owning.close_releases [where s' = "fst (AfUnixSocket_close S s k)"]) simp_all

end

sublocale fd_frame_sys \<subseteq> unix_frame: frame_socket "AfUnixSocket_ops S e" fds "unix_good" S for e
proof unfold_locales
  fix pm pf t s k r k'
  assume r: "so_receive (AfUnixSocket_ops S e) pm pf t s k = Some (r, k')"
  show "fds k' = fds k"
    by (rule dgram_receive_frame [where obs = fds])
      (use r in \<open>auto simp: AfUnixSocket_receive_eq dest: fds_poll fds_fionread fds_recv_un\<close>)
next
  fix msg i s k c k'
  assume "so_send (AfUnixSocket_ops S e) msg i s k = Some (c, k')"
  then show "fds k' = fds k" using AfUnixSocket_send_frame [where obs = fds] fds_sendto by fastforce
qed

end
