(* ===== verification/UdpSocket.thy ===== *)
theory UdpSocket
  imports GenericSocket
begin

text \<open>
  The class \<open>UdpSocket\<close> (UdpSocket.h, UdpSocket.cpp), every operation over the kernel parameter. An
  \<open>in_addr\<close> and a port are the numbers they denote in host order, so \<open>htons\<close>/\<open>ntohs\<close> and the
  conversions hidden in \<open>inet_pton\<close>/\<open>inet_ntoa\<close> cancel out. \<open>inet_aton\<close>, whose grammar is that of the
  C library in use, is a field of the kernel parameter.
\<close>

section \<open>Model\<close>

record udp_socket =
  udp_fd :: int

definition UdpSocket :: udp_socket where
  "UdpSocket = \<lparr>udp_fd = - 1\<rparr>"

definition UdpSocket_getFd :: "udp_socket \<Rightarrow> int" where
  "UdpSocket_getFd this = udp_fd this"

definition UdpSocket_receive ::
  "'k sys \<Rightarrow> endian \<Rightarrow> bool \<Rightarrow> bool \<Rightarrow> int \<Rightarrow> udp_socket \<Rightarrow> 'k \<Rightarrow> (received \<times> 'k) option" where
  "UdpSocket_receive S e want_msg want_from timeoutMs this k =
     (if udp_fd this < 0 then Some ((- 1, None, None), k)
      else let ((pollrc, errno), k1) = sys_poll_in S (udp_fd this) timeoutMs k in
        if pollrc < 0 then Some ((if errno = EBADF then 0 else - 2, None, None), k1)
        else if pollrc = 0 then Some ((0, None, None), k1)
        else let (avail, k2) = sys_fionread S (udp_fd this) k1;
                 bytes_available = (case avail of None \<Rightarrow> 0 | Some n \<Rightarrow> n);
                 (res, k3) = sys_recvfrom_in S (udp_fd this) bytes_available k2 in
          (case res of
             RecvErr errno' \<Rightarrow> Some ((if errno' = EBADF then 0 else - 4, None, None), k3)
           | RecvOk data (sin_addr, sin_port) \<Rightarrow>
               if length data \<noteq> bytes_available then Some ((- 5, None, None), k3)
               else (case RawMessage_deserialize e (fill_buffer bytes_available data) of
                   None \<Rightarrow> Some ((- 6, None, None), k3)
                 | Some ipc \<Rightarrow>
                     Some ((int (length data), if want_msg then Some ipc else None,
                            if want_from then Some (PortId (PortInfo (inet_ntoa sin_addr) sin_port)) else None),
                           k3))))"

definition UdpSocket_send ::
  "'k sys \<Rightarrow> endian \<Rightarrow> imessage \<Rightarrow> port_info \<Rightarrow> udp_socket \<Rightarrow> 'k \<Rightarrow> (int \<times> 'k) option" where
  "UdpSocket_send S e message to this k =
     (if udp_fd this < 0 then Some (- 1, k)
      else let sendSize = getSize message in
        (case serialize e message (replicate (unat sendSize) 0) sendSize of
           None \<Rightarrow> None
         | Some (result, buffer) \<Rightarrow>
             if result = 0 then Some (- 2, k)
             else (case inet_pton (c_str (pi_ip to)) of
                 None \<Rightarrow> Some (- 3, k)
               | Some sin_addr \<Rightarrow>
                   let (len, k1) = sys_sendto S (udp_fd this) (take (unat result) buffer)
                                     (SinAddr sin_addr (pi_port to)) k in
                   if len < 0 then Some (- 4, k1)
                   else if (of_int len :: u32) \<noteq> result then Some (- 5, k1)
                   else Some (0, k1))))"

definition UdpSocket_flush :: "'k sys \<Rightarrow> udp_socket \<Rightarrow> 'k \<Rightarrow> int \<times> 'k" where
  "UdpSocket_flush S this k =
     (if udp_fd this < 0 then (- 1, k)
      else let (avail, k1) = sys_fionread S (udp_fd this) k;
               bytes_available = (case avail of None \<Rightarrow> 0 | Some n \<Rightarrow> n) in
        if bytes_available > 0
        then let (_, k2) = sys_recvfrom_in S (udp_fd this) bytes_available k1 in (int bytes_available, k2)
        else (int bytes_available, k1))"

definition UdpSocket_close :: "'k sys \<Rightarrow> udp_socket \<Rightarrow> 'k \<Rightarrow> udp_socket \<times> 'k" where
  "UdpSocket_close S this k =
     (if udp_fd this \<ge> 0
      then (this\<lparr>udp_fd := - 1\<rparr>, sys_close S (udp_fd this) (sys_shutdown S (udp_fd this) k))
      else (this, k))"

definition UdpSocket_dtor :: "'k sys \<Rightarrow> udp_socket \<Rightarrow> 'k \<Rightarrow> 'k" where
  "UdpSocket_dtor S this k = snd (UdpSocket_close S this k)"

definition UdpSocket_open :: "'k sys \<Rightarrow> udp_socket \<Rightarrow> 'k \<Rightarrow> int \<times> udp_socket \<times> 'k" where
  "UdpSocket_open S this k =
     (if udp_fd this \<ge> 0 then (- 1, this, k)
      else let (fd, k1) = sys_socket S AF_INET k in
        if fd < 0 then (- 1, this\<lparr>udp_fd := - 1\<rparr>, k1)
        else (0, this\<lparr>udp_fd := fd\<rparr>, k1))"

definition UdpSocket_bind :: "'k sys \<Rightarrow> u16 \<Rightarrow> string \<Rightarrow> udp_socket \<Rightarrow> 'k \<Rightarrow> int \<times> 'k" where
  "UdpSocket_bind S port multicastIp this k =
     (let sin_addr = (case sys_inet_aton S (c_str (if isMulticastIp multicastIp then multicastIp else ''0.0.0.0'')) of
                        None \<Rightarrow> 0 | Some a \<Rightarrow> a)
      in sys_bind S (udp_fd this) (SinAddr sin_addr port) k)"

definition UdpSocket_joinMulticastGroup :: "'k sys \<Rightarrow> string \<Rightarrow> udp_socket \<Rightarrow> 'k \<Rightarrow> int \<times> 'k" where
  "UdpSocket_joinMulticastGroup S multicastIp this k =
     (if udp_fd this < 0 then (- 1, k)
      else let imr_multiaddr = (case sys_inet_aton S (c_str multicastIp) of None \<Rightarrow> 0 | Some a \<Rightarrow> a)
           in sys_setsockopt S (udp_fd this) (AddMembership imr_multiaddr) k)"

definition UdpSocket_setBroadcast :: "'k sys \<Rightarrow> bool \<Rightarrow> udp_socket \<Rightarrow> 'k \<Rightarrow> int \<times> 'k" where
  "UdpSocket_setBroadcast S enable this k =
     (if udp_fd this < 0 then (- 1, k)
      else let enable_val = (if enable then 1 else 0)
           in sys_setsockopt S (udp_fd this) (Broadcast enable_val) k)"

definition UdpSocket_setMulticastTtl :: "'k sys \<Rightarrow> int \<Rightarrow> udp_socket \<Rightarrow> 'k \<Rightarrow> int \<times> 'k" where
  "UdpSocket_setMulticastTtl S ttl this k =
     (if udp_fd this < 0 then (- 1, k)
      else let (result1, k1) = sys_setsockopt S (udp_fd this) (MulticastTtl ttl) k;
               (result2, k2) = sys_setsockopt S (udp_fd this) (MulticastLoop 1) k1
           in (if result1 < 0 then result1 else result2, k2))"

fun PortInfo_cast :: "iidentifier \<Rightarrow> port_info option" where
  "PortInfo_cast (PortId p) = Some p"
| "PortInfo_cast (UnixId u) = None"

definition UdpSocket_ops :: "'k sys \<Rightarrow> endian \<Rightarrow> (port_info, udp_socket, 'k) socket_ops" where
  "UdpSocket_ops S e =
     \<lparr>so_upcast = PortId, so_downcast = PortInfo_cast, so_open = (\<lambda>s k. Some (UdpSocket_open S s k)),
      so_close = UdpSocket_close S, so_getFd = UdpSocket_getFd, so_send = UdpSocket_send S e,
      so_receive = UdpSocket_receive S e, so_flush = UdpSocket_flush S\<rparr>"

lemma UdpSocket_ops_sel [simp]:
  "so_upcast (UdpSocket_ops S e) = PortId" "so_downcast (UdpSocket_ops S e) = PortInfo_cast"
  "so_open (UdpSocket_ops S e) = (\<lambda>s k. Some (UdpSocket_open S s k))"
  "so_close (UdpSocket_ops S e) = UdpSocket_close S"
  "so_getFd (UdpSocket_ops S e) = UdpSocket_getFd" "so_send (UdpSocket_ops S e) = UdpSocket_send S e"
  "so_receive (UdpSocket_ops S e) = UdpSocket_receive S e" "so_flush (UdpSocket_ops S e) = UdpSocket_flush S"
  by (simp_all add: UdpSocket_ops_def)

section \<open>The interface contract\<close>

definition sin_sender :: "u32 \<times> u16 \<Rightarrow> iidentifier option" where
  "sin_sender a = Some (PortId (PortInfo (inet_ntoa (fst a)) (snd a)))"

lemma UdpSocket_receive_eq:
  "UdpSocket_receive S e pm pf t this k =
     dgram_receive S (sys_recvfrom_in S) sin_sender e pm pf t (udp_fd this) k"
  by (auto simp: UdpSocket_receive_def dgram_receive_def sin_sender_def Let_def
      split: prod.split recv_result.split option.split)

lemma UdpSocket_send_closed: "udp_fd this < 0 \<Longrightarrow> UdpSocket_send S e m to this k = Some (- 1, k)"
  by (simp add: UdpSocket_send_def)

lemma UdpSocket_send_code: "UdpSocket_send S e m to this k = Some (r, k') \<Longrightarrow> r \<le> 0"
  by (auto simp: UdpSocket_send_def Let_def split: if_splits option.splits prod.splits)

lemma UdpSocket_close_fd: "udp_fd (fst (UdpSocket_close S this k)) < 0"
  by (auto simp: UdpSocket_close_def)

lemma PortInfo_cast_SomeD: "PortInfo_cast x = Some i \<Longrightarrow> x = PortId i"
  by (cases x) auto

interpretation udp_socket: generic_socket "UdpSocket_ops S e"
  for S :: "'k sys" and e
proof unfold_locales
  fix pm pf t s k ret m f k'
  assume "so_receive (UdpSocket_ops S e) pm pf t s k = Some ((ret, m, f), k')" "0 < ret"
  then show "(pm \<longrightarrow> (\<exists>msg. m = Some msg \<and> ret = 4 + int (length (rm_payload msg))))
      \<and> (pf \<longrightarrow> (\<exists>i. f = Some (so_upcast (UdpSocket_ops S e) i)))"
    by (auto simp: UdpSocket_receive_eq sin_sender_def dest!: dgram_receive_inv)
next
  fix pm pf t s k ret m f k'
  assume "so_receive (UdpSocket_ops S e) pm pf t s k = Some ((ret, m, f), k')" "ret \<le> 0"
  then show "m = None \<and> f = None"
    by (auto simp: UdpSocket_receive_eq dest!: dgram_receive_inv)
qed (auto simp: UdpSocket_getFd_def UdpSocket_receive_def UdpSocket_send_closed
      UdpSocket_close_fd dest: UdpSocket_send_code PortInfo_cast_SomeD)

lemma UdpSocket_send_time:
  assumes "clock_sys S time" "UdpSocket_send S e m to this k = Some (r, k')"
  shows "time k \<le> time k'"
  using assms(2) clock_sys.clock_sendto [OF assms(1)]
  by (auto simp: UdpSocket_send_def Let_def split: if_splits option.splits prod.splits)

lemma UdpSocket_send_returns: "fits m \<Longrightarrow> UdpSocket_send S e m i this k \<noteq> None"
  by (auto simp: UdpSocket_send_def serialize_whole Let_def split: prod.splits option.splits)

sublocale clock_sys \<subseteq> udp_timed: timed_socket "UdpSocket_ops S e" S time "\<lambda>_. True" for e
proof unfold_locales
  fix pm pf t s k r k'
  assume r: "so_receive (UdpSocket_ops S e) pm pf t s k = Some (r, k')"
  show "time k \<le> time k'"
    by (rule dgram_receive_time [OF clock_sys_axioms])
      (use r in \<open>auto simp: UdpSocket_receive_eq dest: clock_recv_in\<close>)
next
  fix msg i s k c k'
  assume "so_send (UdpSocket_ops S e) msg i s k = Some (c, k')"
  then show "time k \<le> time k'" using UdpSocket_send_time [OF clock_sys_axioms] by simp
next
  fix pm pf t s k
  show "so_receive (UdpSocket_ops S e) pm pf t s k \<noteq> None"
    by (simp only: UdpSocket_ops_sel UdpSocket_receive_eq)
      (rule dgram_receive_returns, simp add: sin_sender_def)
next
  fix msg i s k
  assume "fits msg"
  then show "so_send (UdpSocket_ops S e) msg i s k \<noteq> None"
    using UdpSocket_send_returns by simp
qed simp

lemma UdpSocket_send_bound:
  assumes "bounded_sys S time J" "UdpSocket_send S e m to this k = Some (r, k')"
  shows "time k' \<le> time k + J"
  using assms(2) bounded_sys.bound_sendto [OF assms(1)] bounded_sys.J_pos [OF assms(1)]
  by (force simp: UdpSocket_send_def Let_def split: if_splits option.splits prod.splits)

sublocale bounded_sys \<subseteq> udp_bounded: bounded_socket "UdpSocket_ops S e" S time "\<lambda>_. True" J for e
proof unfold_locales
  fix pm pf t s k r k'
  assume r: "so_receive (UdpSocket_ops S e) pm pf t s k = Some (r, k')" and t: "0 \<le> t"
  show "time k' \<le> time k + t * 1000000 + 3 * J"
    by (rule dgram_receive_bound [OF bounded_sys_axioms _ t])
      (use r in \<open>auto simp: UdpSocket_receive_eq dest: bound_recv_in\<close>)
next
  fix msg i s k c k'
  assume "so_send (UdpSocket_ops S e) msg i s k = Some (c, k')"
  then show "time k' \<le> time k + J" using UdpSocket_send_bound [OF bounded_sys_axioms] by simp
qed

lemma UdpSocket_send_frame:
  assumes "UdpSocket_send S e m to this k = Some (r, k')"
    and "\<And>fd d a k r k'. sys_sendto S fd d a k = (r, k') \<Longrightarrow> obs k' = obs k"
  shows "obs k' = obs k"
  using assms
  by (auto simp: UdpSocket_send_def Let_def split: if_splits option.splits prod.splits)

sublocale events_sys \<subseteq> udp_evc: evc_socket "UdpSocket_ops S e" S evc for e
proof unfold_locales
  fix pm pf t s k r k'
  assume r: "so_receive (UdpSocket_ops S e) pm pf t s k = Some (r, k')"
  show "evc k' = evc k"
    by (rule dgram_receive_frame [where obs = evc])
      (use r in \<open>auto simp: UdpSocket_receive_eq dest: evc_poll evc_fionread evc_recv_in\<close>)
next
  fix msg i s k c k'
  assume "so_send (UdpSocket_ops S e) msg i s k = Some (c, k')"
  then show "evc k' = evc k" using UdpSocket_send_frame [where obs = evc] evc_sendto by fastforce
next
  fix s k s' k' fd
  assume "so_close (UdpSocket_ops S e) s k = (s', k')" "fd \<noteq> so_getFd (UdpSocket_ops S e) s"
  then show "evc k' fd = evc k fd"
    by (auto simp: UdpSocket_close_def UdpSocket_getFd_def evc_close evc_shutdown split: if_splits)
qed

section \<open>Descriptors\<close>

lemma own_udp: "own (UdpSocket_ops S e) s = (if 0 \<le> udp_fd s then {udp_fd s} else {})"
  by (simp add: own_def UdpSocket_getFd_def)

lemma UdpSocket_open_owns:
  assumes "fd_sys S fds" "owns (UdpSocket_ops S e) fds B s k" "UdpSocket_open S s k = (r, s', k')"
  shows "owns (UdpSocket_ops S e) fds B s' k'"
    and "r = 0 \<Longrightarrow> 0 \<le> udp_fd s'" and "udp_fd s < 0 \<Longrightarrow> r \<noteq> 0 \<Longrightarrow> udp_fd s' = - 1"
  using assms(2,3) fd_sys.fds_socket [OF assms(1)]
  by (auto simp: UdpSocket_open_def owns_def own_udp Let_def split: if_splits prod.splits)

lemma UdpSocket_close_owns:
  assumes "fd_sys S fds" "owns (UdpSocket_ops S e) fds B s k" "UdpSocket_close S s k = (s', k')"
  shows "owns (UdpSocket_ops S e) fds B s' k'"
  using assms(2,3)
  by (auto simp: UdpSocket_close_def owns_def own_udp fd_sys.fds_close [OF assms(1)]
      fd_sys.fds_shutdown [OF assms(1)] split: if_splits)

sublocale fd_sys \<subseteq> udp_owning: owning_socket "UdpSocket_ops S e" fds "\<lambda>_. True" for e
proof unfold_locales
  fix B s k
  assume o: "owns (UdpSocket_ops S e) fds B s k"
  obtain r s' k' where p: "UdpSocket_open S s k = (r, s', k')" by (metis prod_cases3)
  from UdpSocket_open_owns(1) [OF fd_sys_axioms o p] p
  show "\<exists>r s' k'. so_open (UdpSocket_ops S e) s k = Some (r, s', k')
      \<and> owns (UdpSocket_ops S e) fds B s' k' \<and> True" by simp
next
  fix B s k s' k'
  assume o: "owns (UdpSocket_ops S e) fds B s k" and c: "so_close (UdpSocket_ops S e) s k = (s', k')"
  show "owns (UdpSocket_ops S e) fds B s' k' \<and> True"
    by (intro conjI UdpSocket_close_owns [OF fd_sys_axioms o] TrueI) (use c in simp)
qed

context fd_sys
begin

lemma udp_run_owns:
  "owns (UdpSocket_ops S e) fds B s k \<Longrightarrow>
     \<exists>s' k'. sock_run (UdpSocket_ops S e) ops (s, k) = Some (s', k')
       \<and> owns (UdpSocket_ops S e) fds B s' k'"
  using udp_owning.sock_run_owns [of e B s k ops] by simp

lemma udp_close_releases:
  "owns (UdpSocket_ops S e) fds B s k \<Longrightarrow> fds (snd (UdpSocket_close S s k)) = B"
  by (rule udp_owning.close_releases [where s' = "fst (UdpSocket_close S s k)"]) simp_all

end

sublocale fd_frame_sys \<subseteq> udp_frame: frame_socket "UdpSocket_ops S e" fds "\<lambda>_. True" S for e
proof unfold_locales
  fix pm pf t s k r k'
  assume r: "so_receive (UdpSocket_ops S e) pm pf t s k = Some (r, k')"
  show "fds k' = fds k"
    by (rule dgram_receive_frame [where obs = fds])
      (use r in \<open>auto simp: UdpSocket_receive_eq dest: fds_poll fds_fionread fds_recv_in\<close>)
next
  fix msg i s k c k'
  assume "so_send (UdpSocket_ops S e) msg i s k = Some (c, k')"
  then show "fds k' = fds k" using UdpSocket_send_frame [where obs = fds] fds_sendto by fastforce
qed

end
