(* ===== verification/SocketProps.thy ===== *)
theory SocketProps
  imports UnixSocket UdpSocket RefKernel
begin

text \<open>
  The properties of the two socket classes: socket names and addresses, the bytes that leave and
  enter a socket, the answer to a received message, and the descriptors the classes own.
\<close>

section \<open>Lemmas\<close>

lemma createAddress_zeroed:
  assumes "CHR 0x00 \<notin> set name"
  shows "createAddress (replicate 108 (CHR 0x00)) name =
    (if length name \<le> 107
     then Some (CHR 0x00 # name @ replicate (107 - length name) (CHR 0x00), 3 + length name) else None)"
  by (auto simp: createAddress_def write_at_def strncpy_bytes_id [OF assms] Let_def)

lemma c_string_at_sun_path:
  assumes "CHR 0x00 \<notin> set name"
  shows "c_string_at (CHR 0x00 # name @ replicate n (CHR 0x00)) 1 = (if 0 < n then Some name else None)"
proof (cases n)
  case (Suc j)
  with assms c_str_append [OF assms, of "replicate j (CHR 0x00)"] show ?thesis
    by (simp add: c_string_at_def)
qed (use assms in \<open>simp add: c_string_at_def\<close>)

lemma AfUnixSocket_send_wire:
  assumes "0 \<le> us_fd this" "fits m" "CHR 0x00 \<notin> set name" "length name \<le> 107"
  shows "AfUnixSocket_send S e m (UnixInfo name) this k =
    (let (len, k') = sys_sendto S (us_fd this) (wire e m)
           (SunAddr (CHR 0x00 # name @ replicate (107 - length name) (CHR 0x00)) (3 + length name)) k
     in Some (if len < 0 then - 3 else if of_int len \<noteq> getSize m then - 4 else 0, k'))"
  using assms
  by (simp add: AfUnixSocket_send_def serialize_whole createAddress_zeroed UnixInfo_def Let_def
      split: prod.split)

section \<open>Properties\<close>

text \<open>
  C31. The address of a socket name: \<open>createAddress\<close> on a cleared structure stays inside the 108
  characters of \<open>sun_path\<close> if and only if the name has at most 107 characters. The bytes that the
  address length covers are the abstract name, and what \<open>receive\<close> makes of the structure on the
  other side is the name again, unless it has exactly 107 characters: then no terminating NUL is
  left and the read runs out of the structure.
\<close>

theorem unix_name_roundtrip:
  assumes "CHR 0x00 \<notin> set name"
  shows "case createAddress (replicate 108 (CHR 0x00)) name of
      None \<Rightarrow> 107 < length name
    | Some (sun_path, address_length) \<Rightarrow> length name \<le> 107
        \<and> take (address_length - 2) sun_path = CHR 0x00 # name
        \<and> c_string_at sun_path 1 = (if length name \<le> 106 then Some name else None)"
  using assms by (auto simp: createAddress_zeroed c_string_at_sun_path simp del: One_nat_def)

theorem unix_name_roundtrip_witness:
  "case createAddress (replicate 108 (CHR 0x00)) ''srv'' of
      None \<Rightarrow> False
    | Some (sun_path, address_length) \<Rightarrow> c_string_at sun_path 1 = Some ''srv''"
  using unix_name_roundtrip [of "''srv''"] by (auto split: option.splits)

text \<open>
  \<open>AfUnixSocket::send\<close> on an open socket makes exactly one system call: it sends one datagram,
  the wire image of the message, to the abstract name of the receiver, and maps the result to its
  return code. The exceptions are those of the
  properties on message size and on socket names.
\<close>

theorem unix_send_datagram:
  assumes "0 \<le> us_fd this" and "length (payload_bytes e m) < 4294967292"
    and "CHR 0x00 \<notin> set name" "length name \<le> 107"
  shows "AfUnixSocket_send S e m (UnixInfo name) this k =
    (let (len, k') = sys_sendto S (us_fd this) (wire e m)
           (SunAddr (CHR 0x00 # name @ replicate (107 - length name) (CHR 0x00)) (3 + length name)) k
     in Some (if len < 0 then - 3 else if of_int len \<noteq> getSize m then - 4 else 0, k'))"
  by (rule AfUnixSocket_send_wire) (use assms in \<open>simp_all add: fits_def length_payload_bytes [of e]\<close>)

theorem unix_send_datagram_witness:
  "AfUnixSocket_send ref_sys LittleEndian (RawM (RawMessage 7)) (UnixInfo ''b'')
     \<lparr>us_fd = 9, us_address = [], us_socketName = ''a''\<rparr> ref_init = Some (- 3, ref_init)"
  using unix_send_datagram [of "\<lparr>us_fd = 9, us_address = [], us_socketName = ''a''\<rparr>" LittleEndian
      "RawM (RawMessage 7)" "''b''" ref_sys ref_init]
  by (simp add: RawMessage_def ref_sys_def ref_sendto_def ref_init_def Let_def)

text \<open>
  \<open>UdpSocket::send\<close> on an open socket: an address that is not in dotted-decimal form is refused
  with -3 before any system call, otherwise one datagram, the wire image of the message, goes to that
  address and port.
\<close>

theorem udp_send_datagram:
  assumes "0 \<le> udp_fd this" and "length (payload_bytes e m) < 4294967292"
  shows "UdpSocket_send S e m to this k =
    (case inet_pton (c_str (pi_ip to)) of
       None \<Rightarrow> Some (- 3, k)
     | Some a \<Rightarrow>
         let (len, k') = sys_sendto S (udp_fd this) (wire e m) (SinAddr a (pi_port to)) k
         in Some (if len < 0 then - 4 else if of_int len \<noteq> getSize m then - 5 else 0, k'))"
proof -
  have "fits m" using assms(2) by (simp add: fits_def length_payload_bytes [of e])
  with assms(1) show ?thesis
    by (simp add: UdpSocket_send_def serialize_whole Let_def split: prod.split option.split)
qed

theorem udp_send_datagram_witness:
  "UdpSocket_send ref_sys LittleEndian (RawM (RawMessage 7)) (PortInfo ''host'' 80) \<lparr>udp_fd = 9\<rparr> ref_init
     = Some (- 3, ref_init)"
  using udp_send_datagram [of "\<lparr>udp_fd = 9\<rparr>" LittleEndian "RawM (RawMessage 7)" ref_sys
      "PortInfo ''host'' 80" ref_init]
  by (simp add: RawMessage_def PortInfo_def inet_pton_def octet_def digit_val_def c_str_def)

text \<open>
  \<open>AfUnixSocket::receive\<close> of a datagram that a peer with name \<open>name\<close> sent as the wire image of
  a message, on a host of any byte order: the message and the sender's identifier arrive, and the
  return code is the positive number of bytes received.
\<close>

theorem unix_receive_delivers:
  assumes "0 \<le> us_fd this" and "sys_poll_in S (us_fd this) t k = ((r, errno), k1)" "0 < r"
    and "sys_fionread S (us_fd this) k1 = (Some n, k2)" "n = length (wire e' (RawM m))"
    and "sys_recvfrom_un S (us_fd this) n k2 = (RecvOk (wire e' (RawM m)) sun_path, k3)"
    and "createAddress (replicate 108 (CHR 0x00)) name = Some (sun_path, address_length)"
    and "CHR 0x00 \<notin> set name" "length name \<le> 106"
  shows "AfUnixSocket_receive S e True True t this k =
    Some ((4 + int (length (rm_payload m)), Some m, Some (UnixId (UnixInfo name))), k3)"
proof -
  have "sun_path = CHR 0x00 # name @ replicate (107 - length name) (CHR 0x00)"
    using assms(7-9) by (simp add: createAddress_zeroed)
  then have "c_string_at sun_path 1 = Some name"
    using assms(8,9) by (simp add: c_string_at_sun_path del: One_nat_def)
  moreover have "RawMessage_deserialize e (wire e' (RawM m)) = Some m"
    by (simp add: deserialize_Some_iff wire_RawM)
  moreover have "length (wire e' (RawM m)) = 4 + length (rm_payload m)"
    by (simp add: length_wire)
  ultimately show ?thesis
    using assms(1-6) by (simp add: AfUnixSocket_receive_eq dgram_receive_def sun_sender_def Let_def)
qed

text \<open>The reference kernel with the bound socket \<open>srv\<close> and one datagram of the peer \<open>cli\<close> in it.\<close>

definition demo_path :: string where
  "demo_path = CHR 0x00 # ''cli'' @ replicate 104 (CHR 0x00)"

definition demo_unix_kernel :: "u8 list \<Rightarrow> ref_kernel" where
  "demo_unix_kernel d = \<lparr>rk_clock = 0, rk_efds = [],
     rk_socks = [(4, \<lparr>rs_addr = None, rs_in = [(d, SunAddr demo_path 6)], rs_shut = False\<rparr>)]\<rparr>"

definition demo_unix_socket :: af_unix_socket where
  "demo_unix_socket = \<lparr>us_fd = 4, us_address = replicate 108 (CHR 0x00), us_socketName = ''srv''\<rparr>"

lemma demo_createAddress: "createAddress (replicate 108 (CHR 0x00)) ''cli'' = Some (demo_path, 6)"
  by (simp add: createAddress_zeroed demo_path_def)

lemma demo_path_view: "sun_view (SunAddr demo_path n) = demo_path"
proof -
  have "take 107 demo_path @ replicate (107 - length demo_path) (CHR 0x00) @ [CHR 0x00] = demo_path"
    by code_simp
  then show ?thesis by simp
qed

theorem unix_receive_delivers_witness:
  "fst (the (AfUnixSocket_receive ref_sys LittleEndian True True 50 demo_unix_socket
       (demo_unix_kernel (wire BigEndian (RawM \<lparr>rm_reqId = 7, rm_payload = [1, 2]\<rparr>)))))
     = (6, Some \<lparr>rm_reqId = 7, rm_payload = [1, 2]\<rparr>, Some (UnixId (UnixInfo ''cli'')))"
proof -
  let ?m = "\<lparr>rm_reqId = 7, rm_payload = [1, 2]\<rparr> :: raw_message" and ?k = "demo_unix_kernel"
  let ?w = "wire BigEndian (RawM ?m)"
  have "AfUnixSocket_receive ref_sys LittleEndian True True 50 demo_unix_socket (?k ?w)
      = Some ((4 + int (length (rm_payload ?m)), Some ?m, Some (UnixId (UnixInfo ''cli''))),
          snd (sys_recvfrom_un ref_sys 4 6 (?k ?w)))"
    by (rule unix_receive_delivers [where r = 1 and errno = "EOTHER 0" and ?k1.0 = "?k ?w"
          and ?k2.0 = "?k ?w" and n = 6 and e' = BigEndian, OF _ _ _ _ _ _ demo_createAddress])
      (simp_all add: demo_unix_socket_def demo_unix_kernel_def ref_sys_def ref_poll_def ref_fionread_def
        ref_recvfrom_def length_wire Let_def demo_path_view del: sun_view.simps)
  then show ?thesis by simp
qed


definition demo_udp_kernel :: ref_kernel where
  "demo_udp_kernel = \<lparr>rk_clock = 0, rk_efds = [],
     rk_socks = [(4, \<lparr>rs_addr = None, rs_in = [([0, 0, 0, 7, 9], SinAddr 0x7F000001 80)], rs_shut = False\<rparr>)]\<rparr>"


text \<open>
  Descriptors: an object of either socket class, opened and closed any number of times in any
  order (including opens that fail at \<open>socket\<close> or at \<open>bind\<close>), holds at most the one descriptor it
  reports, everything else is as it was when the object was made, and its destructor leaves no
  descriptor behind.
\<close>

theorem socket_descriptors:
  assumes "fd_sys S fds" and "length name \<le> 107"
  shows "(\<exists>s k'. sock_run (AfUnixSocket_ops S e) ops (AfUnixSocket name, k) = Some (s, k')
      \<and> fds k' = fds k \<union> (if 0 \<le> us_fd s then {us_fd s} else {})
      \<and> fds (AfUnixSocket_dtor S s k') = fds k)
    \<and> (\<exists>s k'. sock_run (UdpSocket_ops S e) ops (UdpSocket, k) = Some (s, k')
      \<and> fds k' = fds k \<union> (if 0 \<le> udp_fd s then {udp_fd s} else {})
      \<and> fds (UdpSocket_dtor S s k') = fds k)"
proof (rule conjI)
  have o: "owns (AfUnixSocket_ops S e) fds (fds k) (AfUnixSocket name) k" "unix_good (AfUnixSocket name)"
    using assms(2) by (simp_all add: owns_def own_unix AfUnixSocket_def unix_good_def)
  obtain s k' where r: "sock_run (AfUnixSocket_ops S e) ops (AfUnixSocket name, k) = Some (s, k')"
    and w: "owns (AfUnixSocket_ops S e) fds (fds k) s k'" "unix_good s"
    using fd_sys.unix_run_owns [OF assms(1) o] by blast
  have "fds (AfUnixSocket_dtor S s k') = fds k"
    using fd_sys.unix_close_releases [OF assms(1) w] by (simp add: AfUnixSocket_dtor_def)
  with r w(1) show "\<exists>s k'. sock_run (AfUnixSocket_ops S e) ops (AfUnixSocket name, k) = Some (s, k')
      \<and> fds k' = fds k \<union> (if 0 \<le> us_fd s then {us_fd s} else {})
      \<and> fds (AfUnixSocket_dtor S s k') = fds k"
    by (auto simp: owns_def own_unix)
next
  have o: "owns (UdpSocket_ops S e) fds (fds k) UdpSocket k"
    by (simp add: owns_def own_udp UdpSocket_def)
  obtain s k' where r: "sock_run (UdpSocket_ops S e) ops (UdpSocket, k) = Some (s, k')"
    and w: "owns (UdpSocket_ops S e) fds (fds k) s k'"
    using fd_sys.udp_run_owns [OF assms(1) o] by blast
  have "fds (UdpSocket_dtor S s k') = fds k"
    using fd_sys.udp_close_releases [OF assms(1) w] by (simp add: UdpSocket_dtor_def)
  with r w show "\<exists>s k'. sock_run (UdpSocket_ops S e) ops (UdpSocket, k) = Some (s, k')
      \<and> fds k' = fds k \<union> (if 0 \<le> udp_fd s then {udp_fd s} else {})
      \<and> fds (UdpSocket_dtor S s k') = fds k"
    by (auto simp: owns_def own_udp)
qed

theorem socket_descriptors_witness:
  "\<exists>s k'. sock_run (UdpSocket_ops ref_sys LittleEndian) [SockOpen, SockOpen, SockClose, SockOpen]
      (UdpSocket, ref_init) = Some (s, k')
    \<and> ref_fds (UdpSocket_dtor ref_sys s k') = {}"
  using socket_descriptors [OF ref_fd.fd_sys_axioms, of "''srv''" LittleEndian
      "[SockOpen, SockOpen, SockClose, SockOpen]" ref_init]
  by (auto simp: ref_fds_def ref_init_def)

end
