(* ===== verification/GenericClient.thy ===== *)
theory GenericClient
  imports UnixSocket UdpSocket
begin

text \<open>
  The class template \<open>GenericClient\<close> (GenericClient.h, GenericClient.tpp) over the socket interface,
  and \<open>operator==\<close> of \<open>LinxClient\<close> (LinxClient.h). The two loops are partial functions: \<open>None\<close> is a
  call that does not return. Under the contracts of the socket interface the lemmas show what
  \<open>receive\<close> returns and discards, and that both loops end when the time-out is finite.
\<close>

section \<open>Model\<close>

text \<open>
  The shared socket object is known by its number (the address that \<open>shared_ptr\<close> equality compares),
  its state is passed along.
\<close>

record 'i generic_client =
  gc_clientId :: string
  gc_socket :: nat
  gc_identifier :: 'i

definition GenericClient :: "string \<Rightarrow> nat \<Rightarrow> 'i \<Rightarrow> 'i generic_client" where
  "GenericClient clientId socket ident = \<lparr>gc_clientId = clientId, gc_socket = socket, gc_identifier = ident\<rparr>"

definition GenericClient_dtor :: "('i, 's, 'k) socket_ops \<Rightarrow> 's \<Rightarrow> 'k \<Rightarrow> 's \<times> 'k" where
  "GenericClient_dtor V s k = so_close V s k"

definition GenericClient_send ::
  "('i, 's, 'k) socket_ops \<Rightarrow> 'i generic_client \<Rightarrow> imessage \<Rightarrow> 's \<Rightarrow> 'k \<Rightarrow> (int \<times> 'k) option" where
  "GenericClient_send V this message s k = so_send V message (gc_identifier this) s k"

text \<open>
  The predicate of \<open>receive\<close> on what the two pointers hold. It reads the message only when the sender
  matches; reading it through a null pointer is undefined behaviour.
\<close>

definition client_predicate ::
  "('i, 's, 'k) socket_ops \<Rightarrow> 'i generic_client \<Rightarrow> u32 list \<Rightarrow> raw_message option \<Rightarrow> iidentifier option
     \<Rightarrow> bool option" where
  "client_predicate V this sigsel msg from =
     (if matchesFrom from (Some (so_upcast V (gc_identifier this)))
      then map_option (\<lambda>m. matchesSignalSelector (RawM m) sigsel) msg else Some False)"

partial_function (option) client_receive_loop ::
  "('i, 's, 'k) socket_ops \<Rightarrow> 'k sys \<Rightarrow> 'i generic_client \<Rightarrow> u32 list \<Rightarrow> deadline \<Rightarrow> raw_message option
     \<Rightarrow> iidentifier option \<Rightarrow> 's \<Rightarrow> 'k \<Rightarrow> (raw_message option \<times> 'k) option" where
  "client_receive_loop V S this sigsel dl msg from s k =
     do {
       let (timeout, k1) = getRemainingTimeMs_at S dl k;
       ((ret, m, f), k2) \<leftarrow> so_receive V True True timeout s k1;
       let msg1 = (if m = None then msg else m);
       let from1 = (if f = None then from else f);
       if ret = 0 then Some (None, k2)
       else if ret < 0 then Some (None, k2)
       else do {
         hit \<leftarrow> client_predicate V this sigsel msg1 from1;
         if hit then Some (msg1, k2)
         else do {
           let (expired, k3) = isExpired_at S dl k2;
           if expired then Some (None, k3)
           else client_receive_loop V S this sigsel dl msg1 from1 s k3
         }
       }
     }"

definition GenericClient_receive ::
  "('i, 's, 'k) socket_ops \<Rightarrow> 'k sys \<Rightarrow> 'i generic_client \<Rightarrow> int \<Rightarrow> u32 list \<Rightarrow> 's \<Rightarrow> 'k
     \<Rightarrow> (raw_message option \<times> 'k) option" where
  "GenericClient_receive V S this timeoutMs sigsel s k =
     (let (dl, k1) = Deadline_at S timeoutMs k
      in client_receive_loop V S this sigsel dl None None s k1)"

definition GenericClient_sendReceive ::
  "('i, 's, 'k) socket_ops \<Rightarrow> 'k sys \<Rightarrow> 'i generic_client \<Rightarrow> imessage \<Rightarrow> int \<Rightarrow> u32 list \<Rightarrow> 's \<Rightarrow> 'k
     \<Rightarrow> (raw_message option \<times> 'k) option" where
  "GenericClient_sendReceive V S this message timeoutMs sigsel s k =
     do {
       (ret, k1) \<leftarrow> GenericClient_send V this message s k;
       if ret < 0 then Some (None, k1)
       else GenericClient_receive V S this timeoutMs sigsel s k1
     }"

definition pingTimeout :: int where "pingTimeout = 100"

partial_function (option) client_connect_loop ::
  "('i, 's, 'k) socket_ops \<Rightarrow> 'k sys \<Rightarrow> 'i generic_client \<Rightarrow> deadline \<Rightarrow> 's \<Rightarrow> 'k \<Rightarrow> (bool \<times> 'k) option" where
  "client_connect_loop V S this dl s k =
     do {
       (len, k1) \<leftarrow> GenericClient_send V this (RawM (RawMessage IPC_PING_REQ)) s k;
       (rsp, k2) \<leftarrow> (if len \<ge> 0 then GenericClient_receive V S this pingTimeout [IPC_PING_RSP] s k1
                     else Some (None, k1));
       if rsp \<noteq> None then Some (True, k2)
       else do {
         let (expired, k3) = isExpired_at S dl k2;
         if expired then Some (False, k3) else client_connect_loop V S this dl s k3
       }
     }"

definition GenericClient_connect ::
  "('i, 's, 'k) socket_ops \<Rightarrow> 'k sys \<Rightarrow> 'i generic_client \<Rightarrow> int \<Rightarrow> 's \<Rightarrow> 'k \<Rightarrow> (bool \<times> 'k) option" where
  "GenericClient_connect V S this timeoutMs s k =
     (let (dl, k1) = Deadline_at S timeoutMs k in client_connect_loop V S this dl s k1)"

definition GenericClient_getName :: "'i generic_client \<Rightarrow> string" where
  "GenericClient_getName this = gc_clientId this"

text \<open>
  \<open>isEqual\<close> compares the socket pointers and the identifiers. The two clients of the library are the
  instances of the template for the two identifier classes; an object is its address with its value.
\<close>

definition GenericClient_isEqual ::
  "('i \<Rightarrow> iidentifier) \<Rightarrow> 'i generic_client \<Rightarrow> 'i generic_client \<Rightarrow> bool" where
  "GenericClient_isEqual up this other \<longleftrightarrow>
     gc_socket this = gc_socket other \<and> id_eq (up (gc_identifier this)) (up (gc_identifier other))"

datatype linx_client = AfUnixClient "unix_info generic_client" | UdpClient "port_info generic_client"

fun LinxClient_eq :: "nat \<times> linx_client \<Rightarrow> nat \<times> linx_client \<Rightarrow> bool" where
  "LinxClient_eq (p, AfUnixClient a) (q, AfUnixClient b) = (if p = q then True else GenericClient_isEqual UnixId a b)"
| "LinxClient_eq (p, UdpClient a) (q, UdpClient b) = (if p = q then True else GenericClient_isEqual PortId a b)"
| "LinxClient_eq (p, _) (q, _) = (if p = q then True else False)"

declare client_receive_loop.simps [code] client_connect_loop.simps [code]

section \<open>One iteration\<close>

text \<open>What the client looks for: a message of its server, with a signal of the selector.\<close>

definition client_match :: "('i, 's, 'k) socket_ops \<Rightarrow> 'i generic_client \<Rightarrow> u32 list \<Rightarrow> raw_message \<Rightarrow> iidentifier \<Rightarrow> bool" where
  "client_match V this sigsel m f \<longleftrightarrow>
     id_eq f (so_upcast V (gc_identifier this)) \<and> (sigsel = [] \<or> rm_reqId m \<in> set sigsel)"

lemma client_predicate_Some:
  "client_predicate V this sigsel (Some m) (Some f) = Some (client_match V this sigsel m f)"
  by (auto simp: client_predicate_def client_match_def matchesSignalSelector_iff)

text \<open>
  The messages that \<open>receive\<close> takes from the socket and drops, because they do not match: the
  iterations from kernel state \<open>k\<close> to \<open>k'\<close> that end with an unexpired deadline.
\<close>

inductive client_drops ::
  "('i, 's, 'k) socket_ops \<Rightarrow> 'k sys \<Rightarrow> 'i generic_client \<Rightarrow> u32 list \<Rightarrow> deadline \<Rightarrow> 's \<Rightarrow> 'k
     \<Rightarrow> (raw_message \<times> iidentifier) list \<Rightarrow> 'k \<Rightarrow> bool"
  for V S this sigsel dl s where
  drops_none: "client_drops V S this sigsel dl s k [] k"
| drops_one: "getRemainingTimeMs_at S dl k = (t, k1) \<Longrightarrow>
     so_receive V True True t s k1 = Some ((ret, Some m, Some f), k2) \<Longrightarrow> 0 < ret \<Longrightarrow>
     \<not> client_match V this sigsel m f \<Longrightarrow> isExpired_at S dl k2 = (False, k3) \<Longrightarrow>
     client_drops V S this sigsel dl s k3 ds k' \<Longrightarrow>
     client_drops V S this sigsel dl s k ((m, f) # ds) k'"

context generic_socket
begin

lemma client_loop_end:
  assumes "getRemainingTimeMs_at S dl k = (t, k1)" "so_receive V True True t s k1 = Some ((ret, m, f), k2)" "ret \<le> 0"
  shows "client_receive_loop V S this sigsel dl msg from s k = Some (None, k2)"
  using assms by (subst client_receive_loop.simps) auto

lemma client_loop_message:
  assumes "getRemainingTimeMs_at S dl k = (t, k1)"
    and "so_receive V True True t s k1 = Some ((ret, Some m, Some f), k2)" "0 < ret"
  shows "client_receive_loop V S this sigsel dl msg from s k =
    (if client_match V this sigsel m f then Some (Some m, k2)
     else let (expired, k3) = isExpired_at S dl k2 in
       if expired then Some (None, k3)
       else client_receive_loop V S this sigsel dl (Some m) (Some f) s k3)"
  using assms by (subst client_receive_loop.simps) (auto simp: client_predicate_Some split: prod.split)

end

lemma client_loop_sound:
  "client_receive_loop V S this sigsel dl msg fr s k = Some r \<Longrightarrow> generic_socket V \<Longrightarrow> r = (Some m, k') \<Longrightarrow>
    \<exists>ds k1 t k2 ret f. client_drops V S this sigsel dl s k ds k1
      \<and> getRemainingTimeMs_at S dl k1 = (t, k2)
      \<and> so_receive V True True t s k2 = Some ((ret, Some m, Some f), k')
      \<and> 0 < ret \<and> client_match V this sigsel m f"
proof (induction rule: client_receive_loop.raw_induct [rotated, consumes 1, case_names 1])
  case (1 loop V S this sigsel dl msg fr s k r)
  note IH = "1"(1) and body = "1"(2) and contract = "1.prems"(1) and result = "1.prems"(2)
  obtain t k1 where t: "getRemainingTimeMs_at S dl k = (t, k1)" by fastforce
  obtain x k2 where x: "so_receive V True True t s k1 = Some (x, k2)"
    using body t by (cases "so_receive V True True t s k1") auto
  show ?case
  proof (cases rule: generic_socket.receive_cases [OF contract x, case_names fail message])
    case (fail ret)
    with body result t x show ?thesis by (auto split: if_splits)
  next
    case (message ret m0 i)
    let ?f = "so_upcast V i"
    show ?thesis
    proof (cases "client_match V this sigsel m0 ?f")
      case True
      with body result t x message have "m0 = m" "k2 = k'"
        by (auto simp: client_predicate_Some)
      with True t x message show ?thesis by (blast intro: drops_none)
    next
      case False
      obtain e k3 where e: "isExpired_at S dl k2 = (e, k3)" by fastforce
      with False body result t x message have "\<not> e" and l: "loop V S this sigsel dl (Some m0) (Some ?f) s k3 = Some r"
        by (auto simp: client_predicate_Some split: if_splits)
      with e have "isExpired_at S dl k2 = (False, k3)" by simp
      note drop = drops_one [OF t x [unfolded message(2)] message(1) False this]
      from IH [OF l contract result] show ?thesis by (blast intro: drop)
    qed
  qed
qed

text \<open>A successful \<open>connect\<close>: a ping was sent, and its answer was received within the ping time-out.\<close>

lemma client_connect_loop_sound:
  "client_connect_loop V S this dl s k = Some r \<Longrightarrow> r = (True, k') \<Longrightarrow>
    \<exists>k1 len k2 m. GenericClient_send V this (RawM (RawMessage IPC_PING_REQ)) s k1 = Some (len, k2) \<and> 0 \<le> len
      \<and> GenericClient_receive V S this pingTimeout [IPC_PING_RSP] s k2 = Some (Some m, k')"
proof (induction rule: client_connect_loop.raw_induct [rotated, consumes 1, case_names 1])
  case (1 loop V S this dl s k r)
  note IH = "1"(1) and body = "1"(2) and result = "1.prems"
  obtain len k2 where l: "GenericClient_send V this (RawM (RawMessage IPC_PING_REQ)) s k = Some (len, k2)"
    using body by (cases "GenericClient_send V this (RawM (RawMessage IPC_PING_REQ)) s k") auto
  show ?case
  proof (cases "0 \<le> len")
    case True
    obtain rsp k3 where r: "GenericClient_receive V S this pingTimeout [IPC_PING_RSP] s k2 = Some (rsp, k3)"
      using body l True by (cases "GenericClient_receive V S this pingTimeout [IPC_PING_RSP] s k2") auto
    obtain e k4 where e: "isExpired_at S dl k3 = (e, k4)" by fastforce
    show ?thesis
    proof (cases rsp)
      case None
      with body result l True r e have "loop V S this dl s k4 = Some r" by (auto split: if_splits)
      then show ?thesis by (rule IH) (rule result)
    next
      case (Some m)
      with body result l True r show ?thesis by auto
    qed
  next
    case False
    obtain e k4 where e: "isExpired_at S dl k2 = (e, k4)" by fastforce
    with body result l False have "loop V S this dl s k4 = Some r" by (auto split: if_splits)
    then show ?thesis by (rule IH) (rule result)
  qed
qed

lemma drops_unmatched: "client_drops V S this sigsel dl s k ds k' \<Longrightarrow> (m, f) \<in> set ds \<Longrightarrow> \<not> client_match V this sigsel m f"
  by (induction rule: client_drops.induct) auto

section \<open>The loops end\<close>

context timed_socket
begin

lemma client_loop_returns:
  assumes "dl_deadline dl \<noteq> time_point_max"
  shows "\<exists>r k'. client_receive_loop V S this sigsel dl msg fr s k = Some (r, k') \<and> time k \<le> time k'"
proof (induction "nat (dl_deadline dl + 1 - time k)" arbitrary: msg fr k rule: less_induct)
  case less
  obtain t k1 where t: "getRemainingTimeMs_at S dl k = (t, k1)" by fastforce
  obtain x k2 where x: "so_receive V True True t s k1 = Some (x, k2)"
    using receive_returns by fastforce
  have k2: "time k \<le> time k2"
    using getRemainingTimeMs_at_time [OF t] time_receive [OF x] by simp
  show ?case
  proof (cases rule: receive_cases [OF x, case_names fail message])
    case (fail ret)
    with client_loop_end [OF t, of s ret None None k2] x k2 show ?thesis by auto
  next
    case (message ret m i)
    note step = client_loop_message [OF t x [unfolded message(2)] message(1), of this sigsel msg fr]
    obtain e k3 where e: "isExpired_at S dl k2 = (e, k3)" by fastforce
    have k3: "time k2 \<le> time k3" by (rule isExpired_at_time [OF e])
    show ?thesis
    proof (cases "client_match V this sigsel m (so_upcast V i) \<or> e")
      case True
      with step e k2 k3 show ?thesis by auto
    next
      case False
      with isExpired_at_progress [of dl k2 k3] e assms
      have p: "time k2 \<le> dl_deadline dl" "time k2 < time k3" by auto
      with k2 have "nat (dl_deadline dl + 1 - time k3) < nat (dl_deadline dl + 1 - time k)" by simp
      from less [OF this, of "Some m" "Some (so_upcast V i)"] step e False k2 p(2)
      show ?thesis by (auto intro: order.trans)
    qed
  qed
qed

lemma client_receive_returns:
  assumes "clock_ok (time k)" "int32 timeoutMs" "timeoutMs \<noteq> INFINITE_TIMEOUT"
  shows "\<exists>r k'. GenericClient_receive V S this timeoutMs sigsel s k = Some (r, k') \<and> time k \<le> time k'"
proof -
  obtain dl k1 where d: "Deadline_at S timeoutMs k = (dl, k1)" by fastforce
  note f = Deadline_at_finite [OF assms d]
  from client_loop_returns [OF f(2), of this sigsel None None s k1] f(3) d show ?thesis
    by (auto simp: GenericClient_receive_def)
qed

end

context bounded_socket
begin

text \<open>
  From a state at most \<open>J\<close> past the deadline, the loop returns at most \<open>6 * J\<close> past the deadline. The
  deadline is less than \<open>2 ^ 31\<close> milliseconds ahead, so the remaining time is a 32-bit number.
\<close>

lemma client_loop_bound:
  assumes "dl_deadline dl \<noteq> time_point_max"
    and "time k \<le> dl_deadline dl + J" "dl_deadline dl - time k < 2147483648 * 1000000"
  shows "\<exists>r k'. client_receive_loop V S this sigsel dl msg fr s k = Some (r, k')
    \<and> time k \<le> time k' \<and> time k' \<le> dl_deadline dl + 6 * J"
  using assms(2,3)
proof (induction "nat (dl_deadline dl + 1 - time k)" arbitrary: msg fr k rule: less_induct)
  case less
  obtain t k1 where t: "getRemainingTimeMs_at S dl k = (t, k1)" by fastforce
  obtain x k2 where x: "so_receive V True True t s k1 = Some (x, k2)"
    using receive_returns by fastforce
  note rem = bound_remaining_at [OF t assms(1) less.prems(2)]
  have k2: "time k \<le> time k2" "time k2 \<le> dl_deadline dl + 5 * J"
    using getRemainingTimeMs_at_time [OF t] time_receive [OF x] bound_receive [OF x] rem less.prems(1) J_pos
    by auto
  show ?case
  proof (cases rule: receive_cases [OF x, case_names fail message])
    case (fail ret)
    with client_loop_end [OF t, of s ret None None k2] x k2 J_pos show ?thesis by auto
  next
    case (message ret m i)
    note step = client_loop_message [OF t x [unfolded message(2)] message(1), of this sigsel msg fr]
    obtain e k3 where e: "isExpired_at S dl k2 = (e, k3)" by fastforce
    note k3 = isExpired_at_time [OF e] bound_isExpired_at [OF e]
    show ?thesis
    proof (cases "client_match V this sigsel m (so_upcast V i) \<or> e")
      case True
      with step e k2 k3 J_pos show ?thesis by auto
    next
      case False
      with isExpired_at_progress [of dl k2 k3] e assms
      have p: "time k2 \<le> dl_deadline dl" "time k2 < time k3" by auto
      with k2 have d: "nat (dl_deadline dl + 1 - time k3) < nat (dl_deadline dl + 1 - time k)" by simp
      have "time k3 \<le> dl_deadline dl + J" "dl_deadline dl - time k3 < 2147483648 * 1000000"
        using p k2 k3 less.prems(2) by auto
      from less.hyps [OF d this, of "Some m" "Some (so_upcast V i)"] step e False k2 p(2)
      show ?thesis by (auto intro: order.trans)
    qed
  qed
qed

lemma client_receive_bound:
  assumes "clock_ok (time k)" "0 \<le> timeoutMs" "timeoutMs < 2147483648"
  shows "\<exists>r k'. GenericClient_receive V S this timeoutMs sigsel s k = Some (r, k')
    \<and> time k \<le> time k' \<and> time k' \<le> time k + timeoutMs * 1000000 + 6 * J"
proof -
  have fin: "int32 timeoutMs" "timeoutMs \<noteq> INFINITE_TIMEOUT"
    using assms(2,3) by (auto simp: int32_def INFINITE_TIMEOUT_def)
  obtain dl k1 where d: "Deadline_at S timeoutMs k = (dl, k1)" by fastforce
  note f = Deadline_at_finite [OF assms(1) fin d]
  have "time k1 \<le> dl_deadline dl + J" "dl_deadline dl - time k1 < 2147483648 * 1000000"
    using f bound_Deadline_at [OF d] assms(2,3) by auto
  from client_loop_bound [OF f(2) this, of this sigsel None None s] f(1,3) d show ?thesis
    by (auto simp: GenericClient_receive_def)
qed

lemma client_connect_loop_bound:
  assumes "can_send (gc_identifier this)" and "dl_deadline dl \<noteq> time_point_max"
    and "clock_ok (dl_deadline dl + 2 * J)" "0 \<le> time k" "time k \<le> dl_deadline dl + J"
  shows "\<exists>b k'. client_connect_loop V S this dl s k = Some (b, k')
    \<and> time k \<le> time k' \<and> time k' \<le> dl_deadline dl + 100000000 + 9 * J"
  using assms(4,5)
proof (induction "nat (dl_deadline dl + 1 - time k)" arbitrary: k rule: less_induct)
  case less
  have "fits (RawM (RawMessage IPC_PING_REQ))" by (simp add: fits_RawM RawMessage_def)
  then obtain len k1 where l: "GenericClient_send V this (RawM (RawMessage IPC_PING_REQ)) s k = Some (len, k1)"
    using send_returns [OF _ assms(1)] by (fastforce simp: GenericClient_send_def)
  have k1: "time k \<le> time k1" "time k1 \<le> time k + J"
    using time_send bound_send l by (auto simp: GenericClient_send_def)
  then have ok: "clock_ok (time k1)"
    using less.prems assms(3) by (auto simp: clock_ok_def)
  obtain r k' where rr: "GenericClient_receive V S this pingTimeout [IPC_PING_RSP] s k1 = Some (r, k')"
    and rt: "time k1 \<le> time k'" "time k' \<le> time k1 + pingTimeout * 1000000 + 6 * J"
    using client_receive_bound [OF ok, of pingTimeout this "[IPC_PING_RSP]" s] by (auto simp: pingTimeout_def)
  define rsp where "rsp = (if len \<ge> 0 then r else None)"
  define k2 where "k2 = (if len \<ge> 0 then k' else k1)"
  have a: "(if len \<ge> 0 then GenericClient_receive V S this pingTimeout [IPC_PING_RSP] s k1
      else Some (None, k1)) = Some (rsp, k2)"
    using rr by (simp add: rsp_def k2_def)
  have k2: "time k \<le> time k2" "time k2 \<le> dl_deadline dl + 100000000 + 8 * J"
    using rt k1 less.prems J_pos by (auto simp: k2_def pingTimeout_def)
  obtain e k3 where e: "isExpired_at S dl k2 = (e, k3)" by fastforce
  note k3 = isExpired_at_time [OF e] bound_isExpired_at [OF e]
  have step: "client_connect_loop V S this dl s k =
      (if rsp \<noteq> None then Some (True, k2) else if e then Some (False, k3)
       else client_connect_loop V S this dl s k3)"
    using l a e by (subst client_connect_loop.simps) simp
  show ?case
  proof (cases "rsp \<noteq> None \<or> e")
    case True
    with step k2 k3 J_pos show ?thesis by auto
  next
    case False
    with isExpired_at_progress [of dl k2 k3] e assms(2)
    have p: "time k2 \<le> dl_deadline dl" "time k2 < time k3" by auto
    with k2 have d: "nat (dl_deadline dl + 1 - time k3) < nat (dl_deadline dl + 1 - time k)" by simp
    have "0 \<le> time k3" "time k3 \<le> dl_deadline dl + J" using p k2 k3 less.prems(1) by auto
    from less.hyps [OF d this] step False k2 p(2) show ?thesis by (auto intro: order.trans)
  qed
qed

lemma client_connect_bound:
  assumes "can_send (gc_identifier this)" "0 \<le> timeoutMs" "timeoutMs < 2147483648" "0 \<le> time k"
    and "clock_ok (time k + timeoutMs * 1000000 + 2 * J)"
  shows "\<exists>b k'. GenericClient_connect V S this timeoutMs s k = Some (b, k')
    \<and> time k' \<le> time k + (timeoutMs + 100) * 1000000 + 9 * J"
proof -
  have fin: "int32 timeoutMs" "timeoutMs \<noteq> INFINITE_TIMEOUT" "clock_ok (time k)"
    using assms J_pos by (auto simp: int32_def INFINITE_TIMEOUT_def clock_ok_def)
  obtain dl k1 where d: "Deadline_at S timeoutMs k = (dl, k1)" by fastforce
  note f = Deadline_at_finite [OF fin(3,1,2) d]
  have "clock_ok (dl_deadline dl + 2 * J)" "0 \<le> time k1" "time k1 \<le> dl_deadline dl + J"
    using f bound_Deadline_at [OF d] assms by auto
  from client_connect_loop_bound [OF assms(1) f(2) this, of s] f(1,3) d show ?thesis
    by (auto simp: GenericClient_connect_def)
qed

end

section \<open>The two client classes\<close>

context bounded_names_sys
begin

lemma unix_receive_bound:
  "clock_ok (time k) \<Longrightarrow> 0 \<le> timeoutMs \<Longrightarrow> timeoutMs < 2147483648 \<Longrightarrow>
    \<exists>r k'. GenericClient_receive (AfUnixSocket_ops S e) S this timeoutMs sigsel s k = Some (r, k')
      \<and> time k' \<le> time k + timeoutMs * 1000000 + 6 * J"
  using unix_bounded.client_receive_bound by blast

lemma unix_connect_bound:
  "length (ui_value (gc_identifier this)) \<le> 107 \<Longrightarrow> 0 \<le> timeoutMs \<Longrightarrow> timeoutMs < 2147483648 \<Longrightarrow> 0 \<le> time k \<Longrightarrow>
    clock_ok (time k + timeoutMs * 1000000 + 2 * J) \<Longrightarrow>
    \<exists>b k'. GenericClient_connect (AfUnixSocket_ops S e) S this timeoutMs s k = Some (b, k')
      \<and> time k' \<le> time k + (timeoutMs + 100) * 1000000 + 9 * J"
  by (rule unix_bounded.client_connect_bound)

end

context bounded_sys
begin

lemma udp_receive_bound:
  "clock_ok (time k) \<Longrightarrow> 0 \<le> timeoutMs \<Longrightarrow> timeoutMs < 2147483648 \<Longrightarrow>
    \<exists>r k'. GenericClient_receive (UdpSocket_ops S e) S this timeoutMs sigsel s k = Some (r, k')
      \<and> time k' \<le> time k + timeoutMs * 1000000 + 6 * J"
  using udp_bounded.client_receive_bound by blast

lemma udp_connect_bound:
  "0 \<le> timeoutMs \<Longrightarrow> timeoutMs < 2147483648 \<Longrightarrow> 0 \<le> time k \<Longrightarrow>
    clock_ok (time k + timeoutMs * 1000000 + 2 * J) \<Longrightarrow>
    \<exists>b k'. GenericClient_connect (UdpSocket_ops S e) S this timeoutMs s k = Some (b, k')
      \<and> time k' \<le> time k + (timeoutMs + 100) * 1000000 + 9 * J"
  by (rule udp_bounded.client_connect_bound) simp_all

end

end
