(* ===== verification/ClientProps.thy ===== *)
theory ClientProps
  imports GenericClient SocketProps
begin

text \<open>
  The properties of the client: what \<open>receive\<close> and \<open>connect\<close> mean by their results, and how long they
  take. The contract \<open>generic_socket V\<close> of the socket is proved for both socket classes
  (\<open>unix_socket\<close>, \<open>udp_socket\<close>); the timing needs a kernel whose calls have a bounded overhead \<open>J\<close>.
\<close>

section \<open>A client on the reference kernel\<close>

definition demo_client :: "unix_info generic_client" where
  "demo_client = GenericClient ''client_1_cli'' 0 (UnixInfo ''cli'')"

lemma demo_client_run:
  "map_option fst (GenericClient_receive (AfUnixSocket_ops ref_sys LittleEndian) ref_sys demo_client 50 [7]
     demo_unix_socket (demo_unix_kernel [0, 0, 0, 7, 1])) = Some (Some \<lparr>rm_reqId = 7, rm_payload = [1]\<rparr>)"
  by code_simp

lemma demo_client_result:
  "\<exists>k'. GenericClient_receive (AfUnixSocket_ops ref_sys LittleEndian) ref_sys demo_client 50 [7]
     demo_unix_socket (demo_unix_kernel [0, 0, 0, 7, 1]) = Some (Some \<lparr>rm_reqId = 7, rm_payload = [1]\<rparr>, k')"
  using demo_client_run by auto

text \<open>A socket with the answer of the server \<open>cli\<close> to a ping in it: \<open>connect\<close> succeeds at once.\<close>

definition demo_ping_kernel :: ref_kernel where
  "demo_ping_kernel = \<lparr>rk_clock = 0, rk_efds = [],
     rk_socks = [(4, \<lparr>rs_addr = None, rs_in = [([0, 0, 0, 2], SunAddr demo_path 6)], rs_shut = False\<rparr>),
                 (5, \<lparr>rs_addr = Some (SunAddr (CHR 0x00 # ''cli'') 6), rs_in = [], rs_shut = False\<rparr>)]\<rparr>"

lemma demo_connect_run:
  "map_option fst (GenericClient_connect (AfUnixSocket_ops ref_sys LittleEndian) ref_sys demo_client 200
     demo_unix_socket demo_ping_kernel) = Some True"
  by code_simp

lemma demo_connect_result:
  "\<exists>k'. GenericClient_connect (AfUnixSocket_ops ref_sys LittleEndian) ref_sys demo_client 200
     demo_unix_socket demo_ping_kernel = Some (True, k')"
  using demo_connect_run by auto

text \<open>
  \<open>connect\<close> repeats its ping every 100 ms. When the first answer comes late there is one answer for
  every ping: \<open>connect\<close> takes the first, and the next one is what a \<open>receive\<close> with no selector hands to
  the user.
\<close>

definition demo_late_kernel :: ref_kernel where
  "demo_late_kernel = \<lparr>rk_clock = 0, rk_efds = [],
     rk_socks = [(4, \<lparr>rs_addr = None, rs_in = replicate 2 ([0, 0, 0, 2], SunAddr demo_path 6), rs_shut = False\<rparr>),
                 (5, \<lparr>rs_addr = Some (SunAddr (CHR 0x00 # ''cli'') 6), rs_in = [], rs_shut = False\<rparr>)]\<rparr>"

lemma stale_ping_response:
  "(case GenericClient_connect (AfUnixSocket_ops ref_sys LittleEndian) ref_sys demo_client 200 demo_unix_socket demo_late_kernel of
      None \<Rightarrow> None
    | Some (connected, k) \<Rightarrow> map_option (\<lambda>(m, _). (connected, m))
        (GenericClient_receive (AfUnixSocket_ops ref_sys LittleEndian) ref_sys demo_client 50 LINX_ANY_SIG demo_unix_socket k))
   = Some (True, Some \<lparr>rm_reqId = IPC_PING_RSP, rm_payload = []\<rparr>)"
  by code_simp

section \<open>Properties\<close>

text \<open>
  C9. A message that the client's \<open>receive\<close> returns was received from the server it was made for, and
  carries a signal of the selector; it is the first such message: everything that was taken from the
  socket before, in that call, did not match and is dropped.
\<close>

theorem client_receive_sound:
  assumes "generic_socket V" and "GenericClient_receive V S this timeoutMs sigsel s k = Some (Some m, k')"
  shows "\<exists>dl k0 ds k1 t k2 ret f. Deadline_at S timeoutMs k = (dl, k0)
    \<and> client_drops V S this sigsel dl s k0 ds k1
    \<and> (\<forall>(d, g) \<in> set ds. \<not> (id_eq g (so_upcast V (gc_identifier this)) \<and> (sigsel = [] \<or> rm_reqId d \<in> set sigsel)))
    \<and> getRemainingTimeMs_at S dl k1 = (t, k2)
    \<and> so_receive V True True t s k2 = Some ((ret, Some m, Some f), k') \<and> 0 < ret
    \<and> id_eq f (so_upcast V (gc_identifier this)) \<and> (sigsel = [] \<or> rm_reqId m \<in> set sigsel)"
proof -
  obtain dl k0 where d: "Deadline_at S timeoutMs k = (dl, k0)" by fastforce
  then have "client_receive_loop V S this sigsel dl None None s k0 = Some (Some m, k')"
    using assms(2) by (simp add: GenericClient_receive_def)
  from client_loop_sound [OF this assms(1) refl] obtain ds k1 t k2 ret f
    where "client_drops V S this sigsel dl s k0 ds k1" "getRemainingTimeMs_at S dl k1 = (t, k2)"
      "so_receive V True True t s k2 = Some ((ret, Some m, Some f), k')" "0 < ret" "client_match V this sigsel m f"
    by blast
  moreover from drops_unmatched [OF this(1)]
  have "\<forall>(d, g) \<in> set ds. \<not> (id_eq g (so_upcast V (gc_identifier this)) \<and> (sigsel = [] \<or> rm_reqId d \<in> set sigsel))"
    by (auto simp: client_match_def)
  ultimately show ?thesis using d unfolding client_match_def by blast
qed

theorem client_receive_sound_witness:
  "\<exists>k2 t ret f k'. so_receive (AfUnixSocket_ops ref_sys LittleEndian) True True t demo_unix_socket k2
      = Some ((ret, Some \<lparr>rm_reqId = 7, rm_payload = [1]\<rparr>, Some f), k')
    \<and> id_eq f (UnixId (UnixInfo ''cli''))"
proof -
  obtain k' where "GenericClient_receive (AfUnixSocket_ops ref_sys LittleEndian) ref_sys demo_client 50 [7]
      demo_unix_socket (demo_unix_kernel [0, 0, 0, 7, 1]) = Some (Some \<lparr>rm_reqId = 7, rm_payload = [1]\<rparr>, k')"
    using demo_client_result by blast
  from client_receive_sound [OF unix_socket.generic_socket_axioms this]
  show ?thesis by (auto simp: demo_client_def GenericClient_def)
qed



text \<open>
  C11. \<open>connect\<close> returns true only after a completed handshake: a ping request was sent to the server
  without error, and the call to \<open>receive\<close> right after it returned a ping response, from the server.
\<close>

theorem client_connect_sound:
  assumes "generic_socket V" and "GenericClient_connect V S this timeoutMs s k = Some (True, k')"
  shows "\<exists>k1 k2 t k3 ret m f.
    so_send V (RawM (RawMessage IPC_PING_REQ)) (gc_identifier this) s k1 = Some (0, k2)
    \<and> GenericClient_receive V S this 100 [IPC_PING_RSP] s k2 = Some (Some m, k')
    \<and> so_receive V True True t s k3 = Some ((ret, Some m, Some f), k')
    \<and> rm_reqId m = IPC_PING_RSP \<and> id_eq f (so_upcast V (gc_identifier this))"
proof -
  obtain dl k0 where d: "Deadline_at S timeoutMs k = (dl, k0)" by fastforce
  then have "client_connect_loop V S this dl s k0 = Some (True, k')"
    using assms(2) by (simp add: GenericClient_connect_def)
  from client_connect_loop_sound [OF this refl] obtain k1 len k2 m
    where send: "GenericClient_send V this (RawM (RawMessage IPC_PING_REQ)) s k1 = Some (len, k2)" "0 \<le> len"
      and rcv: "GenericClient_receive V S this pingTimeout [IPC_PING_RSP] s k2 = Some (Some m, k')"
    by blast
  have "len = 0" using generic_socket.send_code [OF assms(1)] send by (fastforce simp: GenericClient_send_def)
  moreover obtain dl' k0' where "Deadline_at S pingTimeout k2 = (dl', k0')" by fastforce
  with rcv have "client_receive_loop V S this [IPC_PING_RSP] dl' None None s k0' = Some (Some m, k')"
    by (simp add: GenericClient_receive_def)
  from client_loop_sound [OF this assms(1) refl] obtain t k3 ret f
    where "so_receive V True True t s k3 = Some ((ret, Some m, Some f), k')"
      and "client_match V this [IPC_PING_RSP] m f"
    by blast
  moreover from this(2) have "rm_reqId m = IPC_PING_RSP" "id_eq f (so_upcast V (gc_identifier this))"
    by (simp_all add: client_match_def)
  ultimately show ?thesis
    using send(1) rcv unfolding GenericClient_send_def pingTimeout_def by blast
qed

theorem client_connect_sound_witness:
  "\<exists>k3 t ret m f k'. so_receive (AfUnixSocket_ops ref_sys LittleEndian) True True t demo_unix_socket k3
      = Some ((ret, Some m, Some f), k') \<and> rm_reqId m = IPC_PING_RSP"
proof -
  obtain k' where "GenericClient_connect (AfUnixSocket_ops ref_sys LittleEndian) ref_sys demo_client 200
      demo_unix_socket demo_ping_kernel = Some (True, k')"
    using demo_connect_result by blast
  from client_connect_sound [OF unix_socket.generic_socket_axioms this] show ?thesis by blast
qed



text \<open>
  Equality of client objects (\<open>operator==\<close> of \<open>LinxClient\<close>): reflexive and symmetric, never true
  between a Unix and a UDP client, and on Unix clients it is the identity of the socket object
  together with equality of the server names.
\<close>

lemma client_operator_eq:
  assumes "fst x = fst y \<longrightarrow> snd x = snd y"
  shows "LinxClient_eq x x \<and> (LinxClient_eq x y \<longleftrightarrow> LinxClient_eq y x)
    \<and> (snd x = AfUnixClient a \<longrightarrow> snd y = UdpClient b \<longrightarrow> \<not> LinxClient_eq x y)
    \<and> (snd x = AfUnixClient a \<longrightarrow> snd y = AfUnixClient c \<longrightarrow>
        (LinxClient_eq x y \<longleftrightarrow> gc_socket a = gc_socket c \<and> ui_value (gc_identifier a) = ui_value (gc_identifier c)))"
  using assms
  by (cases x; cases y; cases "snd x"; cases "snd y")
     (auto simp: GenericClient_isEqual_def id_eq_sym [of "PortId _" "PortId _"] intro: unix_info.equality
       simp del: id_eq.simps)

end
