(* ===== verification/GenericSimpleServer.thy ===== *)
theory GenericSimpleServer
  imports UnixSocket UdpSocket
begin

text \<open>
  The class template \<open>GenericSimpleServer\<close> (GenericSimpleServer.h, GenericSimpleServer.tpp) over the
  socket interface: a server that reads its socket in the calling thread, answers pings itself and
  returns the first other message that matches.
\<close>

section \<open>Model\<close>

record generic_simple_server =
  ss_serverId :: string
  ss_socket :: nat

text \<open>The constructor asserts that the socket pointer is not null.\<close>

definition GenericSimpleServer :: "string \<Rightarrow> nat option \<Rightarrow> generic_simple_server option" where
  "GenericSimpleServer serverId socket =
     (case socket of None \<Rightarrow> None | Some p \<Rightarrow> Some \<lparr>ss_serverId = serverId, ss_socket = p\<rparr>)"

definition SimpleServer_start :: "generic_simple_server \<Rightarrow> bool" where
  "SimpleServer_start this = True"

definition SimpleServer_stop :: "'s \<Rightarrow> 'k \<Rightarrow> 's \<times> 'k" where
  "SimpleServer_stop s k = (s, k)"

definition SimpleServer_dtor :: "'s \<Rightarrow> 'k \<Rightarrow> 's \<times> 'k" where
  "SimpleServer_dtor s k = SimpleServer_stop s k"

definition SimpleServer_getPollFd :: "('i, 's, 'k) socket_ops \<Rightarrow> 's \<Rightarrow> int" where
  "SimpleServer_getPollFd V s = so_getFd V s"

definition SimpleServer_send ::
  "('i, 's, 'k) socket_ops \<Rightarrow> imessage \<Rightarrow> iidentifier \<Rightarrow> 's \<Rightarrow> 'k \<Rightarrow> (int \<times> 'k) option" where
  "SimpleServer_send V message to s k =
     (case so_downcast V to of
        Some typedTo \<Rightarrow> so_send V message typedTo s k
      | None \<Rightarrow> Some (- 1, k))"

text \<open>
  The loop of \<open>receive\<close>; \<open>self\<close> is the number of the server object (\<open>weak_from_this\<close>). The
  \<open>continue\<close> after a ping goes on with the loop condition. Reading through a null pointer is \<open>None\<close>.
\<close>

partial_function (option) simple_receive_loop ::
  "('i, 's, 'k) socket_ops \<Rightarrow> 'k sys \<Rightarrow> nat \<Rightarrow> u32 list \<Rightarrow> iidentifier option \<Rightarrow> deadline
     \<Rightarrow> raw_message option \<Rightarrow> iidentifier option \<Rightarrow> 's \<Rightarrow> 'k \<Rightarrow> (linx_received_message option \<times> 'k) option" where
  "simple_receive_loop V S self sigsel ident dl msg from s k =
     do {
       let (timeout, k1) = getRemainingTimeMs_at S dl k;
       ((ret, m, f), k2) \<leftarrow> so_receive V True True timeout s k1;
       let msg1 = (if m = None then msg else m);
       let from1 = (if f = None then from else f);
       if ret = 0 then Some (None, k2)
       else if ret < 0 then Some (None, k2)
       else do {
         m1 \<leftarrow> msg1;
         if rm_reqId m1 = IPC_PING_REQ then do {
           to \<leftarrow> from1;
           (ret', k3) \<leftarrow> SimpleServer_send V (RawM (RawMessage IPC_PING_RSP)) to s k2;
           let (expired, k4) = isExpired_at S dl k3;
           if expired then Some (None, k4)
           else simple_receive_loop V S self sigsel ident dl msg1 from1 s k4
         }
         else if matches sigsel ident m1 from1
         then Some (Some \<lparr>lr_message = m1, lr_from = from1, lr_server = self\<rparr>, k2)
         else do {
           let (expired, k3) = isExpired_at S dl k2;
           if expired then Some (None, k3)
           else simple_receive_loop V S self sigsel ident dl msg1 from1 s k3
         }
       }
     }"

declare simple_receive_loop.simps [code]

definition SimpleServer_receive ::
  "('i, 's, 'k) socket_ops \<Rightarrow> 'k sys \<Rightarrow> nat \<Rightarrow> int \<Rightarrow> u32 list \<Rightarrow> iidentifier option \<Rightarrow> 's \<Rightarrow> 'k
     \<Rightarrow> (linx_received_message option \<times> 'k) option" where
  "SimpleServer_receive V S self timeoutMs sigsel ident s k =
     (let (dl, k1) = Deadline_at S timeoutMs k
      in simple_receive_loop V S self sigsel ident dl None None s k1)"

definition SimpleServer_getName :: "generic_simple_server \<Rightarrow> string" where
  "SimpleServer_getName this = ss_serverId this"

section \<open>One iteration\<close>

text \<open>
  The iterations of a call to \<open>receive\<close> that do not end it, and what they do with the message they
  take from the socket: a ping is answered, and any other message did not match and is dropped.
\<close>

datatype round = Answered iidentifier | Dropped raw_message iidentifier

inductive server_rounds ::
  "('i, 's, 'k) socket_ops \<Rightarrow> 'k sys \<Rightarrow> u32 list \<Rightarrow> iidentifier option \<Rightarrow> deadline \<Rightarrow> 's \<Rightarrow> 'k
     \<Rightarrow> round list \<Rightarrow> 'k \<Rightarrow> bool"
  for V S sigsel ident dl s where
  rounds_none: "server_rounds V S sigsel ident dl s k [] k"
| rounds_ping: "getRemainingTimeMs_at S dl k = (t, k1) \<Longrightarrow>
     so_receive V True True t s k1 = Some ((ret, Some m, Some (so_upcast V i)), k2) \<Longrightarrow> 0 < ret \<Longrightarrow>
     rm_reqId m = IPC_PING_REQ \<Longrightarrow>
     so_send V (RawM (RawMessage IPC_PING_RSP)) i s k2 = Some (c, k3) \<Longrightarrow>
     isExpired_at S dl k3 = (False, k4) \<Longrightarrow>
     server_rounds V S sigsel ident dl s k4 rs k' \<Longrightarrow>
     server_rounds V S sigsel ident dl s k (Answered (so_upcast V i) # rs) k'"
| rounds_drop: "getRemainingTimeMs_at S dl k = (t, k1) \<Longrightarrow>
     so_receive V True True t s k1 = Some ((ret, Some m, Some f), k2) \<Longrightarrow> 0 < ret \<Longrightarrow>
     rm_reqId m \<noteq> IPC_PING_REQ \<Longrightarrow> \<not> matches sigsel ident m (Some f) \<Longrightarrow>
     isExpired_at S dl k2 = (False, k3) \<Longrightarrow>
     server_rounds V S sigsel ident dl s k3 rs k' \<Longrightarrow>
     server_rounds V S sigsel ident dl s k (Dropped m f # rs) k'"

context generic_socket
begin

lemma SimpleServer_send_upcast [simp]:
  "SimpleServer_send V msg (so_upcast V i) s k = so_send V msg i s k"
  by (simp add: SimpleServer_send_def downcast_upcast)

lemma simple_loop_end:
  assumes "getRemainingTimeMs_at S dl k = (t, k1)" "so_receive V True True t s k1 = Some ((ret, m, f), k2)" "ret \<le> 0"
  shows "simple_receive_loop V S self sigsel ident dl msg from s k = Some (None, k2)"
  using assms by (subst simple_receive_loop.simps) auto

lemma simple_loop_message:
  assumes "getRemainingTimeMs_at S dl k = (t, k1)"
    and "so_receive V True True t s k1 = Some ((ret, Some m, Some (so_upcast V i)), k2)" "0 < ret"
  shows "simple_receive_loop V S self sigsel ident dl msg from s k =
    (if rm_reqId m = IPC_PING_REQ
     then (case so_send V (RawM (RawMessage IPC_PING_RSP)) i s k2 of
             None \<Rightarrow> None
           | Some (c, k3) \<Rightarrow> let (expired, k4) = isExpired_at S dl k3 in
               if expired then Some (None, k4)
               else simple_receive_loop V S self sigsel ident dl (Some m) (Some (so_upcast V i)) s k4)
     else if matches sigsel ident m (Some (so_upcast V i))
     then Some (Some \<lparr>lr_message = m, lr_from = Some (so_upcast V i), lr_server = self\<rparr>, k2)
     else let (expired, k3) = isExpired_at S dl k2 in
       if expired then Some (None, k3)
       else simple_receive_loop V S self sigsel ident dl (Some m) (Some (so_upcast V i)) s k3)"
  using assms by (subst simple_receive_loop.simps) (auto split: prod.split option.split)

end

lemma simple_loop_sound:
  "simple_receive_loop V S self sigsel ident dl msg fr s k = Some r \<Longrightarrow> generic_socket V \<Longrightarrow> r = (Some lr, k') \<Longrightarrow>
    \<exists>rs k1 t k2 ret m i. server_rounds V S sigsel ident dl s k rs k1
      \<and> getRemainingTimeMs_at S dl k1 = (t, k2)
      \<and> so_receive V True True t s k2 = Some ((ret, Some m, Some (so_upcast V i)), k')
      \<and> 0 < ret \<and> rm_reqId m \<noteq> IPC_PING_REQ \<and> matches sigsel ident m (Some (so_upcast V i))
      \<and> lr = \<lparr>lr_message = m, lr_from = Some (so_upcast V i), lr_server = self\<rparr>"
proof (induction rule: simple_receive_loop.raw_induct [rotated, consumes 1, case_names 1])
  case (1 loop V S self sigsel ident dl msg fr s k r)
  note IH = "1"(1) and body = "1"(2) and contract = "1.prems"(1) and result = "1.prems"(2)
  obtain t k1 where t: "getRemainingTimeMs_at S dl k = (t, k1)" by fastforce
  obtain x k2 where x: "so_receive V True True t s k1 = Some (x, k2)"
    using body t by (cases "so_receive V True True t s k1") auto
  show ?case
  proof (cases rule: generic_socket.receive_cases [OF contract x, case_names fail message])
    case (fail ret)
    with body result t x show ?thesis by (auto split: if_splits)
  next
    case (message ret m i)
    let ?f = "so_upcast V i"
    note rcv = x [unfolded message(2)]
    consider (ping) "rm_reqId m = IPC_PING_REQ"
      | (hit) "rm_reqId m \<noteq> IPC_PING_REQ" "matches sigsel ident m (Some ?f)"
      | (drop) "rm_reqId m \<noteq> IPC_PING_REQ" "\<not> matches sigsel ident m (Some ?f)" by blast
    then show ?thesis
    proof cases
      case ping
      obtain c k3 where a: "so_send V (RawM (RawMessage IPC_PING_RSP)) i s k2 = Some (c, k3)"
        using body t x message ping generic_socket.SimpleServer_send_upcast [OF contract]
        by (cases "so_send V (RawM (RawMessage IPC_PING_RSP)) i s k2") auto
      obtain e k4 where e: "isExpired_at S dl k3 = (e, k4)" by fastforce
      have "\<not> e" and l: "loop V S self sigsel ident dl (Some m) (Some ?f) s k4 = Some r"
        using body result t x message ping a e generic_socket.SimpleServer_send_upcast [OF contract]
        by (auto split: if_splits)
      with e have "isExpired_at S dl k3 = (False, k4)" by simp
      note round = rounds_ping [OF t rcv message(1) ping a this]
      from IH [OF l contract result] show ?thesis by (blast intro: round)
    next
      case hit
      with body result t x message have "lr = \<lparr>lr_message = m, lr_from = Some ?f, lr_server = self\<rparr>" "k2 = k'"
        by auto
      with hit t rcv message(1) show ?thesis by (blast intro: rounds_none)
    next
      case drop
      obtain e k3 where e: "isExpired_at S dl k2 = (e, k3)" by fastforce
      have "\<not> e" and l: "loop V S self sigsel ident dl (Some m) (Some ?f) s k3 = Some r"
        using body result t x message drop e by (auto split: if_splits)
      with e have "isExpired_at S dl k2 = (False, k3)" by simp
      note round = rounds_drop [OF t rcv message(1) drop this]
      from IH [OF l contract result] show ?thesis by (blast intro: round)
    qed
  qed
qed

lemma rounds_dropped:
  "server_rounds V S sigsel ident dl s k rs k' \<Longrightarrow> Dropped m f \<in> set rs \<Longrightarrow>
     rm_reqId m \<noteq> IPC_PING_REQ \<and> \<not> matches sigsel ident m (Some f)"
  by (induction rule: server_rounds.induct) auto

section \<open>The loop ends\<close>

context bounded_socket
begin

lemma simple_loop_bound:
  assumes "dl_deadline dl \<noteq> time_point_max"
    and "time k \<le> dl_deadline dl + J" "dl_deadline dl - time k < 2147483648 * 1000000"
  shows "\<exists>r k'. simple_receive_loop V S self sigsel ident dl msg fr s k = Some (r, k')
    \<and> time k \<le> time k' \<and> time k' \<le> dl_deadline dl + 7 * J"
  using assms(2,3)
proof (induction "nat (dl_deadline dl + 1 - time k)" arbitrary: msg fr k rule: less_induct)
  case less
  obtain t k1 where t: "getRemainingTimeMs_at S dl k = (t, k1)" by fastforce
  obtain x k2 where x: "so_receive V True True t s k1 = Some (x, k2)"
    using receive_returns by fastforce
  note rem = bound_remaining_at [OF t assms(1) less.prems(2)]
  have k2: "time k \<le> time k2" "time k2 \<le> dl_deadline dl + 5 * J"
    using getRemainingTimeMs_at_time [OF t] time_receive [OF x] bound_receive [OF x] rem less.prems(1) J_pos
    by auto
  have continue: "\<exists>r k'. simple_receive_loop V S self sigsel ident dl msg' fr' s k'' = Some (r, k')
      \<and> time k \<le> time k' \<and> time k' \<le> dl_deadline dl + 7 * J"
    if "isExpired_at S dl k0 = (False, k'')" "time k \<le> time k0" for k0 k'' msg' fr'
  proof -
    note p = isExpired_at_progress [OF that(1) assms(1)] bound_isExpired_at [OF that(1)]
    then have d: "nat (dl_deadline dl + 1 - time k'') < nat (dl_deadline dl + 1 - time k)"
      using that(2) by simp
    have "time k'' \<le> dl_deadline dl + J" "dl_deadline dl - time k'' < 2147483648 * 1000000"
      using p that(2) less.prems(2) by auto
    from less.hyps [OF d this, of msg' fr'] p that(2) show ?thesis by (auto intro: order.trans)
  qed
  show ?case
  proof (cases rule: receive_cases [OF x, case_names fail message])
    case (fail ret)
    with simple_loop_end [OF t, of s ret None None k2] x k2 J_pos show ?thesis by auto
  next
    case (message ret m i)
    note rcv = x [unfolded message(2)]
    note step = simple_loop_message [OF t rcv message(1), of self sigsel ident msg fr]
    show ?thesis
    proof (cases "rm_reqId m = IPC_PING_REQ")
      case True
      have "fits (RawM (RawMessage IPC_PING_RSP))" by (simp add: fits_RawM RawMessage_def)
      with sender_reachable [OF rcv] send_returns obtain c k3
        where a: "so_send V (RawM (RawMessage IPC_PING_RSP)) i s k2 = Some (c, k3)" by fastforce
      note k3 = time_send [OF a] bound_send [OF a]
      obtain e k4 where e: "isExpired_at S dl k3 = (e, k4)" by fastforce
      note k4 = isExpired_at_time [OF e] bound_isExpired_at [OF e]
      show ?thesis
      proof (cases e)
        case True
        with step \<open>rm_reqId m = IPC_PING_REQ\<close> a e k2 k3 k4 show ?thesis by auto
      next
        case False
        with continue [of k3 k4 "Some m" "Some (so_upcast V i)"] step \<open>rm_reqId m = IPC_PING_REQ\<close> a e k2 k3
        show ?thesis by auto
      qed
    next
      case False
      obtain e k3 where e: "isExpired_at S dl k2 = (e, k3)" by fastforce
      note k3 = isExpired_at_time [OF e] bound_isExpired_at [OF e]
      show ?thesis
      proof (cases "matches sigsel ident m (Some (so_upcast V i)) \<or> e")
        case True
        with step False e k2 k3 J_pos show ?thesis by auto
      next
        case nomatch: False
        with continue [of k2 k3 "Some m" "Some (so_upcast V i)"] step False e k2 show ?thesis by auto
      qed
    qed
  qed
qed

lemma simple_receive_bound:
  assumes "clock_ok (time k)" "0 \<le> timeoutMs" "timeoutMs < 2147483648"
  shows "\<exists>r k'. SimpleServer_receive V S self timeoutMs sigsel ident s k = Some (r, k')
    \<and> time k' \<le> time k + timeoutMs * 1000000 + 7 * J"
proof -
  have fin: "int32 timeoutMs" "timeoutMs \<noteq> INFINITE_TIMEOUT"
    using assms(2,3) by (auto simp: int32_def INFINITE_TIMEOUT_def)
  obtain dl k1 where d: "Deadline_at S timeoutMs k = (dl, k1)" by fastforce
  note f = Deadline_at_finite [OF assms(1) fin d]
  have "time k1 \<le> dl_deadline dl + J" "dl_deadline dl - time k1 < 2147483648 * 1000000"
    using f bound_Deadline_at [OF d] assms(2,3) by auto
  from simple_loop_bound [OF f(2) this, of self sigsel ident None None s] f(1) d show ?thesis
    by (auto simp: SimpleServer_receive_def)
qed

end

section \<open>The two server classes\<close>

context bounded_names_sys
begin

lemma unix_simple_bound:
  "clock_ok (time k) \<Longrightarrow> 0 \<le> timeoutMs \<Longrightarrow> timeoutMs < 2147483648 \<Longrightarrow>
    \<exists>r k'. SimpleServer_receive (AfUnixSocket_ops S e) S self timeoutMs sigsel ident s k = Some (r, k')
      \<and> time k' \<le> time k + timeoutMs * 1000000 + 7 * J"
  by (rule unix_bounded.simple_receive_bound)

end

context bounded_sys
begin

lemma udp_simple_bound:
  "clock_ok (time k) \<Longrightarrow> 0 \<le> timeoutMs \<Longrightarrow> timeoutMs < 2147483648 \<Longrightarrow>
    \<exists>r k'. SimpleServer_receive (UdpSocket_ops S e) S self timeoutMs sigsel ident s k = Some (r, k')
      \<and> time k' \<le> time k + timeoutMs * 1000000 + 7 * J"
  by (rule udp_bounded.simple_receive_bound)

end

end
