(* ===== verification/GenericServer.thy ===== *)
theory GenericServer
  imports GenericSimpleServer LinxQueue
begin

text \<open>
  The class template \<open>GenericServer\<close> (GenericServer.h, GenericServer.tpp): a worker thread moves
  messages from the socket into the queue while the threads of the user take them out, send, start
  and stop. A state holds what the threads share (socket object, queue, kernel) and where the worker
  and a thread inside \<open>stop\<close> are; the step relation interleaves the atomic actions of all of them with
  those of the environment. Start and stop are called by one thread at a time.
\<close>

section \<open>Model\<close>

text \<open>
  Where the worker is: no thread (\<open>joinable()\<close> is false), before \<open>socket->receive\<close>, after it with
  what it stored, or returned from \<open>task\<close> and not yet joined. Where a call of \<open>stop\<close> is.
\<close>

datatype worker_pc =
    NoThread
  | AtReceive
  | AtDispatch "raw_message option" "iidentifier option"
  | TaskEnded

datatype stop_pc = NotStopping | SocketClosed | QueueStopped

record ('s, 'k) server_state =
  sv_socket :: 's
  sv_queue :: linx_queue
  sv_worker :: worker_pc
  sv_stop :: stop_pc
  sv_kernel :: 'k

text \<open>What a step does to the queue: nothing, or one operation with its result.\<close>

type_synonym queue_label = "(queue_op \<times> op_out) list"

text \<open>The constructor asserts that both pointers are set.\<close>

definition GenericServer :: "string \<Rightarrow> nat option \<Rightarrow> linx_queue option \<Rightarrow> (generic_simple_server \<times> linx_queue) option" where
  "GenericServer serverId socket queue =
     do { base \<leftarrow> GenericSimpleServer serverId socket; q \<leftarrow> queue; Some (base, q) }"

definition server_init :: "'s \<Rightarrow> linx_queue \<Rightarrow> 'k \<Rightarrow> ('s, 'k) server_state" where
  "server_init s q k =
     \<lparr>sv_socket = s, sv_queue = q, sv_worker = NoThread, sv_stop = NotStopping, sv_kernel = k\<rparr>"

definition joinable :: "('s, 'k) server_state \<Rightarrow> bool" where
  "joinable st \<longleftrightarrow> sv_worker st \<noteq> NoThread"

text \<open>One iteration of \<open>task\<close>: the receive and its error handling, then the dispatch.\<close>

definition task_receive :: "('i, 's, 'k) socket_ops \<Rightarrow> ('s, 'k) server_state \<Rightarrow> ('s, 'k) server_state option" where
  "task_receive V st =
     do {
       ((ret, m, f), k) \<leftarrow> so_receive V True True INFINITE_TIMEOUT (sv_socket st) (sv_kernel st);
       Some (st\<lparr>sv_kernel := k,
                sv_worker := (if ret = 0 then TaskEnded else if ret < 0 then TaskEnded else AtDispatch m f)\<rparr>)
     }"

definition task_dispatch ::
  "('i, 's, 'k) socket_ops \<Rightarrow> 'k sys \<Rightarrow> nat \<Rightarrow> raw_message option \<Rightarrow> iidentifier option
     \<Rightarrow> ('s, 'k) server_state \<Rightarrow> (queue_label \<times> ('s, 'k) server_state) option" where
  "task_dispatch V S self msg from st =
     do {
       m \<leftarrow> msg;
       if rm_reqId m = IPC_PING_REQ then do {
         to \<leftarrow> from;
         (ret, k) \<leftarrow> SimpleServer_send V (RawM (RawMessage IPC_PING_RSP)) to (sv_socket st) (sv_kernel st);
         Some ([], st\<lparr>sv_kernel := k, sv_worker := AtReceive\<rparr>)
       }
       else do {
         let container = \<lparr>lr_message = m, lr_from = from, lr_server = self\<rparr>;
         let (ret, q, k) = LinxQueue_add S container (sv_queue st) (sv_kernel st);
         if ret \<noteq> 0 \<and> from = None then None
         else Some ([(OpAdd container, Added (ret = 0))],
                    st\<lparr>sv_queue := q, sv_kernel := k, sv_worker := AtReceive\<rparr>)
       }
     }"

definition GenericServer_start :: "('s, 'k) server_state \<Rightarrow> bool \<times> ('s, 'k) server_state" where
  "GenericServer_start st = (if joinable st then (True, st) else (True, st\<lparr>sv_worker := AtReceive\<rparr>))"

text \<open>The three actions of \<open>stop\<close> on a joinable server; the join waits for the end of the task.\<close>

definition stop_close :: "('i, 's, 'k) socket_ops \<Rightarrow> ('s, 'k) server_state \<Rightarrow> ('s, 'k) server_state" where
  "stop_close V st =
     (let (s, k) = so_close V (sv_socket st) (sv_kernel st)
      in st\<lparr>sv_socket := s, sv_kernel := k, sv_stop := SocketClosed\<rparr>)"

definition stop_queue :: "'k sys \<Rightarrow> ('s, 'k) server_state \<Rightarrow> ('s, 'k) server_state option" where
  "stop_queue S st =
     do {
       (q, k) \<leftarrow> LinxQueue_stop S (sv_queue st) (sv_kernel st);
       Some (st\<lparr>sv_queue := q, sv_kernel := k, sv_stop := QueueStopped\<rparr>)
     }"

definition stop_join :: "('s, 'k) server_state \<Rightarrow> ('s, 'k) server_state" where
  "stop_join st = st\<lparr>sv_worker := NoThread, sv_stop := NotStopping\<rparr>"

text \<open>
  The whole of \<open>stop\<close> as one call, when no other user thread is active: the worker finishes on the
  closed socket while \<open>join\<close> waits for it.
\<close>

definition worker_finish ::
  "('i, 's, 'k) socket_ops \<Rightarrow> 'k sys \<Rightarrow> nat \<Rightarrow> ('s, 'k) server_state \<Rightarrow> ('s, 'k) server_state option" where
  "worker_finish V S self st =
     (case sv_worker st of
        AtReceive \<Rightarrow> task_receive V st
      | AtDispatch m f \<Rightarrow> do { (lab, st1) \<leftarrow> task_dispatch V S self m f st; task_receive V st1 }
      | _ \<Rightarrow> Some st)"

definition GenericServer_stop ::
  "('i, 's, 'k) socket_ops \<Rightarrow> 'k sys \<Rightarrow> nat \<Rightarrow> ('s, 'k) server_state \<Rightarrow> ('s, 'k) server_state option" where
  "GenericServer_stop V S self st =
     (if joinable st
      then do {
        let st1 = stop_close V st;
        st2 \<leftarrow> stop_queue S st1;
        st3 \<leftarrow> worker_finish V S self st2;
        if sv_worker st3 = TaskEnded then Some (stop_join st3) else None
      }
      else Some st)"

definition GenericServer_getPollFd :: "('s, 'k) server_state \<Rightarrow> int" where
  "GenericServer_getPollFd st = LinxQueue_getFd (sv_queue st)"

text \<open>\<open>receive\<close> is \<open>queue->get\<close>; the schedule is what happens to the queue while it waits.\<close>

definition GenericServer_receive ::
  "'k sys \<Rightarrow> int \<Rightarrow> u32 list \<Rightarrow> iidentifier option \<Rightarrow> queue_op list list \<Rightarrow> queue_op list
     \<Rightarrow> linx_queue \<times> 'k \<Rightarrow> (linx_received_message option \<times> linx_queue \<times> 'k) option" where
  "GenericServer_receive S timeoutMs sigsel from sched final s = LinxQueue_get S timeoutMs sigsel from sched final s"

section \<open>The step relation\<close>

inductive server_step ::
  "('i, 's, 'k) socket_ops \<Rightarrow> 'k sys \<Rightarrow> nat \<Rightarrow> ('k \<Rightarrow> 'k \<Rightarrow> bool) \<Rightarrow>
     ('s, 'k) server_state \<Rightarrow> queue_label \<Rightarrow> ('s, 'k) server_state \<Rightarrow> bool"
  for V S self env where
  worker_receive: "sv_worker st = AtReceive \<Longrightarrow> task_receive V st = Some st' \<Longrightarrow>
     server_step V S self env st [] st'"
| worker_dispatch: "sv_worker st = AtDispatch m f \<Longrightarrow> task_dispatch V S self m f st = Some (lab, st') \<Longrightarrow>
     server_step V S self env st lab st'"
| user_get: "getMessage S sigsel fr (sv_queue st) (sv_kernel st) = (r, q, k) \<Longrightarrow>
     server_step V S self env st [(OpGet sigsel fr, Got r)] (st\<lparr>sv_queue := q, sv_kernel := k\<rparr>)"
| user_send: "SimpleServer_send V msg to (sv_socket st) (sv_kernel st) = Some (r, k) \<Longrightarrow>
     server_step V S self env st [] (st\<lparr>sv_kernel := k\<rparr>)"
| user_start: "sv_stop st = NotStopping \<Longrightarrow> GenericServer_start st = (b, st') \<Longrightarrow>
     server_step V S self env st [] st'"
| user_stop_close: "joinable st \<Longrightarrow> sv_stop st = NotStopping \<Longrightarrow>
     server_step V S self env st [] (stop_close V st)"
| user_stop_queue: "sv_stop st = SocketClosed \<Longrightarrow> stop_queue S st = Some st' \<Longrightarrow>
     server_step V S self env st [(OpStop, Done)] st'"
| user_stop_join: "sv_stop st = QueueStopped \<Longrightarrow> sv_worker st = TaskEnded \<Longrightarrow>
     server_step V S self env st [] (stop_join st)"
| environment: "env (sv_kernel st) k \<Longrightarrow> server_step V S self env st [] (st\<lparr>sv_kernel := k\<rparr>)"

inductive server_run ::
  "('i, 's, 'k) socket_ops \<Rightarrow> 'k sys \<Rightarrow> nat \<Rightarrow> ('k \<Rightarrow> 'k \<Rightarrow> bool) \<Rightarrow>
     ('s, 'k) server_state \<Rightarrow> queue_label \<Rightarrow> ('s, 'k) server_state \<Rightarrow> bool"
  for V S self env where
  run_refl: "server_run V S self env st [] st"
| run_step: "server_run V S self env st tr st' \<Longrightarrow> server_step V S self env st' lab st'' \<Longrightarrow>
     server_run V S self env st (tr @ lab) st''"

section \<open>The queue of the server\<close>

text \<open>Every step does to the queue what its label says, seen through the mailbox.\<close>

lemma step_queue:
  assumes "server_step V S self env st lab st'"
  shows "(lab = [] \<and> sv_queue st' = sv_queue st) \<or>
    (\<exists>x out. lab = [(x, out)] \<and> queue_step S x (sv_queue st, sv_kernel st) = Some (out, sv_queue st', sv_kernel st'))"
  using assms
proof cases
  case (worker_dispatch m f)
  then show ?thesis
    by (cases m) (auto simp: task_dispatch_def Let_def split: if_splits option.splits prod.splits bind_splits)
next
  case (worker_receive)
  then show ?thesis by (auto simp: task_receive_def split: bind_splits)
next
  case (user_start b)
  then show ?thesis by (auto simp: GenericServer_start_def split: if_splits)
next
  case user_stop_queue
  then show ?thesis by (auto simp: stop_queue_def split: bind_splits)
qed (auto simp: stop_close_def stop_join_def split: prod.splits)

lemma run_mailbox:
  assumes "server_run V S self env st0 tr st"
  shows "mb_run (map fst tr) (mailbox_of (sv_queue st0)) = (map snd tr, mailbox_of (sv_queue st))"
    and "q_efd (sv_queue st) = q_efd (sv_queue st0)" "q_max_size (sv_queue st) = q_max_size (sv_queue st0)"
proof -
  have "mb_run (map fst tr) (mailbox_of (sv_queue st0)) = (map snd tr, mailbox_of (sv_queue st))
      \<and> q_efd (sv_queue st) = q_efd (sv_queue st0) \<and> q_max_size (sv_queue st) = q_max_size (sv_queue st0)"
    using assms
  proof induction
    case (run_step st tr st' lab st'')
    from step_queue [OF run_step.hyps(2)] show ?case
    proof
      assume "lab = [] \<and> sv_queue st'' = sv_queue st'"
      with run_step.IH show ?thesis by simp
    next
      assume "\<exists>x out. lab = [(x, out)]
        \<and> queue_step S x (sv_queue st', sv_kernel st') = Some (out, sv_queue st'', sv_kernel st'')"
      then obtain x out where "lab = [(x, out)]"
        and q: "queue_step S x (sv_queue st', sv_kernel st') = Some (out, sv_queue st'', sv_kernel st'')" by blast
      with queue_step_simulates [OF q] run_step.IH show ?thesis by (simp add: mb_run_append)
    qed
  qed simp
  then show "mb_run (map fst tr) (mailbox_of (sv_queue st0)) = (map snd tr, mailbox_of (sv_queue st))"
    "q_efd (sv_queue st) = q_efd (sv_queue st0)" "q_max_size (sv_queue st) = q_max_size (sv_queue st0)" by auto
qed

section \<open>What is in the queue\<close>

definition app_message :: "('i, 's, 'k) socket_ops \<Rightarrow> nat \<Rightarrow> linx_received_message \<Rightarrow> bool" where
  "app_message V self lr \<longleftrightarrow>
     rm_reqId (lr_message lr) \<noteq> IPC_PING_REQ \<and> (\<exists>i. lr_from lr = Some (so_upcast V i)) \<and> lr_server lr = self"

text \<open>
  The invariant of the threads: what the worker is about to dispatch is a message with a sender, the
  queue holds application messages, and a stopped queue goes with a closed socket.
\<close>

definition server_inv :: "('i, 's, 'k) socket_ops \<Rightarrow> nat \<Rightarrow> ('s, 'k) server_state \<Rightarrow> bool" where
  "server_inv V self st \<longleftrightarrow>
     (\<forall>lr \<in> set (q_queue (sv_queue st)). app_message V self lr)
     \<and> (\<forall>m f. sv_worker st = AtDispatch m f \<longrightarrow> (\<exists>msg i. m = Some msg \<and> f = Some (so_upcast V i)))
     \<and> (sv_stop st \<noteq> NotStopping \<or> q_stopped (sv_queue st) \<longrightarrow> so_getFd V (sv_socket st) < 0)
     \<and> (sv_stop st \<noteq> NotStopping \<longrightarrow> joinable st)
     \<and> (sv_stop st = QueueStopped \<longrightarrow> q_stopped (sv_queue st))"

lemma queue_step_set:
  assumes "queue_step S x (q, k) = Some (out, q', k')"
  shows "set (q_queue q') \<subseteq> set (q_queue q) \<union> (case x of OpAdd m \<Rightarrow> {m} | _ \<Rightarrow> {})"
proof (cases x)
  case (OpGet sg fr)
  then obtain r where "mb_take (queue_match sg fr) (q_queue q) = (r, q_queue q')"
    using queue_step_simulates(1) [OF assms] by (auto simp: mailbox_of_def split: prod.splits)
  from mb_take_mset [OF this] have "mset (q_queue q') \<subseteq># mset (q_queue q)" by simp
  then show ?thesis using OpGet set_mset_mono by fastforce
next
  case (OpAdd m)
  then obtain r where "LinxQueue_add S m q k = (r, q', k')" using assms by (auto split: prod.splits)
  from LinxQueue_add_fields(2) [OF this] OpAdd show ?thesis by auto
qed (use queue_step_simulates(1) [OF assms] in \<open>auto simp: mailbox_of_def split: if_splits\<close>)

context generic_socket
begin

lemma dispatch_inv:
  assumes "server_inv V self st" "sv_worker st = AtDispatch m f" "task_dispatch V S self m f st = Some (lab, st')"
  shows "sv_worker st' = AtReceive \<and> sv_stop st' = sv_stop st \<and> sv_socket st' = sv_socket st
    \<and> q_stopped (sv_queue st') = q_stopped (sv_queue st)
    \<and> (\<forall>lr \<in> set (q_queue (sv_queue st')). app_message V self lr)"
proof -
  obtain msg i where mf: "m = Some msg" "f = Some (so_upcast V i)"
    using assms(1,2) by (auto simp: server_inv_def)
  have q: "\<forall>lr \<in> set (q_queue (sv_queue st)). app_message V self lr"
    using assms(1) by (simp add: server_inv_def)
  show ?thesis
  proof (cases "rm_reqId msg = IPC_PING_REQ")
    case True
    with assms(3) mf q show ?thesis by (auto simp: task_dispatch_def split: bind_splits)
  next
    case False
    let ?lr = "\<lparr>lr_message = msg, lr_from = Some (so_upcast V i), lr_server = self\<rparr>"
    obtain r q' k' where a: "LinxQueue_add S ?lr (sv_queue st) (sv_kernel st) = (r, q', k')"
      by (metis prod_cases3)
    have "app_message V self ?lr" using False by (auto simp: app_message_def)
    moreover have "q_stopped q' = q_stopped (sv_queue st)"
      and "set (q_queue q') \<subseteq> insert ?lr (set (q_queue (sv_queue st)))"
      using LinxQueue_add_fields(2) [OF a] by auto
    moreover have "st' = st\<lparr>sv_queue := q', sv_kernel := k', sv_worker := AtReceive\<rparr>"
      using assms(3) mf False a by (simp add: task_dispatch_def Let_def)
    ultimately show ?thesis using q by auto
  qed
qed

lemma step_inv:
  assumes "server_inv V self st" "server_step V S self env st lab st'"
  shows "server_inv V self st'"
  using assms(2)
proof cases
  case worker_receive
  obtain ret m f k' where r: "so_receive V True True INFINITE_TIMEOUT (sv_socket st) (sv_kernel st) = Some ((ret, m, f), k')"
    and st': "st' = st\<lparr>sv_kernel := k', sv_worker := (if ret = 0 then TaskEnded else if ret < 0 then TaskEnded else AtDispatch m f)\<rparr>"
    using worker_receive(3) by (auto simp: task_receive_def split: bind_splits)
  from receive_positive [OF r] assms(1) worker_receive(2) show ?thesis
    unfolding st' by (auto simp: server_inv_def joinable_def)
next
  case (worker_dispatch m f)
  from dispatch_inv [OF assms(1) worker_dispatch] assms(1) worker_dispatch(1) show ?thesis
    by (auto simp: server_inv_def joinable_def)
next
  case (user_get sg fr r q k)
  have s: "queue_step S (OpGet sg fr) (sv_queue st, sv_kernel st) = Some (Got r, q, k)"
    using user_get(3) by simp
  from queue_step_set [OF s] queue_step_simulates(1) [OF s] assms(1) show ?thesis
    unfolding user_get(2) by (auto simp: server_inv_def joinable_def mailbox_of_def split: prod.splits)
next
  case (user_start b)
  with assms(1) show ?thesis by (auto simp: GenericServer_start_def server_inv_def joinable_def split: if_splits)
next
  case user_stop_close
  with assms(1) close_closed [of "sv_socket st" "sv_kernel st"] show ?thesis
    by (auto simp: server_inv_def joinable_def stop_close_def split: prod.splits)
next
  case user_stop_queue
  with assms(1) show ?thesis
    by (auto simp: server_inv_def joinable_def stop_queue_def LinxQueue_stop_def split: bind_splits option.splits)
next
  case user_stop_join
  with assms(1) show ?thesis by (auto simp: server_inv_def joinable_def stop_join_def)
qed (use assms(1) in \<open>auto simp: server_inv_def joinable_def\<close>)

lemma init_inv: "server_inv V self (server_init s (LinxQueue e sz) k)"
  by (simp add: server_inv_def server_init_def LinxQueue_def)

lemma run_inv: "server_run V S self env st tr st' \<Longrightarrow> server_inv V self st \<Longrightarrow> server_inv V self st'"
  by (induction rule: server_run.induct) (auto intro: step_inv)

end

section \<open>Stopping and starting again\<close>

text \<open>A server that was stopped: the worker is gone or about to find the closed socket.\<close>

definition server_dead :: "('i, 's, 'k) socket_ops \<Rightarrow> ('s, 'k) server_state \<Rightarrow> bool" where
  "server_dead V st \<longleftrightarrow> q_stopped (sv_queue st) \<and> so_getFd V (sv_socket st) < 0
     \<and> (\<forall>m f. sv_worker st \<noteq> AtDispatch m f)"

context generic_socket
begin

lemma receive_on_closed:
  "so_getFd V (sv_socket st) < 0 \<Longrightarrow> task_receive V st = Some (st\<lparr>sv_worker := TaskEnded\<rparr>)"
  by (simp add: task_receive_def receive_closed)

lemma close_keeps_closed: "so_close V s k = (s', k') \<Longrightarrow> so_getFd V s' < 0"
  using close_closed [of s k] by simp

lemma dead_step:
  assumes "server_dead V st" "server_step V S self env st lab st'"
  shows "server_dead V st' \<and> (\<forall>m out. (OpAdd m, out) \<notin> set lab)"
  using assms(2)
proof cases
  case worker_receive
  then show ?thesis using assms(1) receive_on_closed [of st] by (auto simp: server_dead_def)
next
  case (worker_dispatch m f)
  then show ?thesis using assms(1) by (auto simp: server_dead_def)
next
  case (user_get sg fr r q k)
  have "queue_step S (OpGet sg fr) (sv_queue st, sv_kernel st) = Some (Got r, q, k)"
    using user_get(3) by simp
  from queue_step_stopped [OF this] show ?thesis
    using assms(1) unfolding user_get(1,2) by (auto simp: server_dead_def)
next
  case (user_start b)
  then show ?thesis using assms(1) by (auto simp: GenericServer_start_def server_dead_def split: if_splits)
next
  case user_stop_close
  then show ?thesis using assms(1) close_keeps_closed
    by (auto simp: server_dead_def stop_close_def split: prod.splits)
next
  case user_stop_queue
  then show ?thesis using assms(1)
    by (auto simp: server_dead_def stop_queue_def LinxQueue_stop_def split: bind_splits option.splits)
next
  case user_stop_join
  then show ?thesis using assms(1) by (auto simp: server_dead_def stop_join_def)
qed (use assms(1) in \<open>auto simp: server_dead_def\<close>)

lemma dead_run:
  "server_run V S self env st tr st' \<Longrightarrow> server_dead V st \<Longrightarrow>
     server_dead V st' \<and> (\<forall>m out. (OpAdd m, out) \<notin> set tr)"
proof (induction rule: server_run.induct)
  case (run_step st tr st' lab st'')
  then show ?case using dead_step [of st' S self env lab st''] by auto
qed simp

lemma run_trans:
  assumes "server_run V S self env st tr st'" "server_run V S self env st' tr' st''"
  shows "server_run V S self env st (tr @ tr') st''"
  using assms(2,1)
  by (induction rule: server_run.induct) (auto simp flip: append_assoc intro: server_run.run_step)

lemma run_one: "server_step V S self env st lab st' \<Longrightarrow> server_run V S self env st lab st'"
  using server_run.run_step [OF server_run.run_refl] by fastforce

text \<open>With the socket closed the worker comes to its end by its own steps.\<close>

lemma closed_worker_ends:
  assumes "server_inv V self st" "so_getFd V (sv_socket st) < 0" "joinable st"
  shows "\<exists>tr st'. worker_finish V S self st = Some st' \<and> server_run V S self env st tr st'
    \<and> sv_worker st' = TaskEnded \<and> sv_stop st' = sv_stop st
    \<and> q_stopped (sv_queue st') = q_stopped (sv_queue st) \<and> so_getFd V (sv_socket st') < 0"
proof -
  have receive: "server_run V S self env st0 [] (st0\<lparr>sv_worker := TaskEnded\<rparr>)"
    if "sv_worker st0 = AtReceive" "so_getFd V (sv_socket st0) < 0" for st0
    by (rule run_one, rule server_step.worker_receive [OF that(1) receive_on_closed [OF that(2)]])
  show ?thesis
  proof (cases "sv_worker st")
    case NoThread
    with assms(3) show ?thesis by (simp add: joinable_def)
  next
    case TaskEnded
    with assms(2) show ?thesis
      by (intro exI [of _ "[]"] exI [of _ st]) (simp add: worker_finish_def server_run.run_refl)
  next
    case AtReceive
    with receive [OF AtReceive assms(2)] assms(2) receive_on_closed [OF assms(2)] show ?thesis
      by (force simp: worker_finish_def)
  next
    case (AtDispatch m f)
    then obtain msg i where mf: "m = Some msg" "f = Some (so_upcast V i)"
      using assms(1) by (auto simp: server_inv_def)
    obtain lab st' where d: "task_dispatch V S self m f st = Some (lab, st')"
    proof (cases "rm_reqId msg = IPC_PING_REQ")
      case True
      with mf that show ?thesis by (simp add: task_dispatch_def send_closed [OF assms(2)])
    next
      case False
      obtain r q k where "LinxQueue_add S \<lparr>lr_message = msg, lr_from = Some (so_upcast V i), lr_server = self\<rparr>
          (sv_queue st) (sv_kernel st) = (r, q, k)" by (metis prod_cases3)
      with mf False that show ?thesis by (simp add: task_dispatch_def Let_def)
    qed
    note i = dispatch_inv [OF assms(1) AtDispatch d]
    have "server_run V S self env st lab st'"
      by (rule run_one, rule server_step.worker_dispatch [OF AtDispatch d])
    from run_trans [OF this receive [of st']] i assms(2) receive_on_closed [of st'] AtDispatch d show ?thesis
      by (force simp: worker_finish_def)
  qed
qed

end

section \<open>The counter of the event descriptor\<close>

text \<open>
  The counter invariant of the queue, next to a socket whose descriptor is another one. The
  environment does not touch eventfds.
\<close>

definition server_counted ::
  "('i, 's, 'k) socket_ops \<Rightarrow> ('k \<Rightarrow> int \<Rightarrow> nat option) \<Rightarrow> ('s, 'k) server_state \<Rightarrow> bool" where
  "server_counted V evc st \<longleftrightarrow> queue_ok evc (sv_queue st, sv_kernel st)
     \<and> (so_getFd V (sv_socket st) < 0 \<or> so_getFd V (sv_socket st) \<noteq> efd (q_efd (sv_queue st)))"

lemma queue_ok_evc: "queue_ok evc (q, k) \<Longrightarrow> evc k' = evc k \<Longrightarrow> queue_ok evc (q, k')"
  by (simp add: queue_ok_def)

context evc_socket
begin

lemma queue_part_counted:
  assumes "server_counted V evc st" "queue_step S x (sv_queue st, sv_kernel st) = Some (out, q, k)"
  shows "queue_ok evc (q, k)" and "q_efd q = q_efd (sv_queue st)"
  using assms queue_step_ok [of "sv_queue st" "sv_kernel st" x] queue_step_simulates(2) [OF assms(2)]
  by (auto simp: server_counted_def)

lemma step_counted:
  assumes "server_counted V evc st" "server_step V S self env st lab st'"
    and env: "\<And>k k'. env k k' \<Longrightarrow> evc k' = evc k"
  shows "server_counted V evc st'"
  using assms(2)
proof cases
  case worker_receive
  obtain x k' where "so_receive V True True INFINITE_TIMEOUT (sv_socket st) (sv_kernel st) = Some (x, k')"
    using worker_receive(3) by (cases "so_receive V True True INFINITE_TIMEOUT (sv_socket st) (sv_kernel st)")
      (auto simp: task_receive_def)
  from receive_evc [OF this] this worker_receive(3) assms(1) show ?thesis
    by (auto simp: task_receive_def server_counted_def queue_ok_def split: prod.splits)
next
  case (worker_dispatch m f)
  show ?thesis
  proof (cases "lab = []")
    case True
    then obtain msg to r k' where "SimpleServer_send V (RawM (RawMessage IPC_PING_RSP)) to (sv_socket st) (sv_kernel st) = Some (r, k')"
      and "st' = st\<lparr>sv_kernel := k', sv_worker := AtReceive\<rparr>"
      using worker_dispatch(2) by (auto simp: task_dispatch_def Let_def split: bind_splits if_splits prod.splits)
    with send_evc assms(1) show ?thesis
      by (auto simp: SimpleServer_send_def server_counted_def queue_ok_def split: option.splits)
  next
    case False
    with step_queue [OF assms(2)] obtain x out
      where "queue_step S x (sv_queue st, sv_kernel st) = Some (out, sv_queue st', sv_kernel st')" by blast
    from queue_part_counted [OF assms(1) this] assms(1) worker_dispatch(2) False show ?thesis
      by (auto simp: server_counted_def task_dispatch_def Let_def split: bind_splits if_splits prod.splits)
  qed
next
  case (user_get sg fr r q k)
  then have "queue_step S (OpGet sg fr) (sv_queue st, sv_kernel st) = Some (Got r, q, k)" by simp
  from queue_part_counted [OF assms(1) this] assms(1) show ?thesis
    unfolding user_get(2) by (auto simp: server_counted_def)
next
  case (user_send msg to r k)
  with send_evc [of msg _ "sv_socket st" "sv_kernel st"] assms(1) show ?thesis
    by (auto simp: SimpleServer_send_def server_counted_def queue_ok_def split: option.splits)
next
  case (user_start b)
  with assms(1) show ?thesis by (auto simp: GenericServer_start_def server_counted_def split: if_splits)
next
  case user_stop_close
  obtain s' k' where c: "so_close V (sv_socket st) (sv_kernel st) = (s', k')" by fastforce
  let ?fd = "efd (q_efd (sv_queue st))"
  have "0 \<le> ?fd \<longrightarrow> evc k' ?fd = evc (sv_kernel st) ?fd"
    using close_evc [OF c, of ?fd] assms(1) by (auto simp: server_counted_def)
  with c close_keeps_closed [OF c] assms(1) user_stop_close show ?thesis
    by (auto simp: server_counted_def queue_ok_def stop_close_def)
next
  case user_stop_queue
  then obtain q k where "LinxQueue_stop S (sv_queue st) (sv_kernel st) = Some (q, k)"
    and st': "st' = st\<lparr>sv_queue := q, sv_kernel := k, sv_stop := QueueStopped\<rparr>"
    by (auto simp: stop_queue_def split: bind_splits)
  then have "queue_step S OpStop (sv_queue st, sv_kernel st) = Some (Done, q, k)" by simp
  from queue_part_counted [OF assms(1) this] assms(1) show ?thesis
    unfolding st' by (auto simp: server_counted_def)
next
  case user_stop_join
  with assms(1) show ?thesis by (simp add: server_counted_def stop_join_def)
next
  case (environment k)
  with env [OF environment(3)] assms(1) show ?thesis by (simp add: server_counted_def queue_ok_def)
qed

lemma run_counted:
  assumes "server_run V S self env st tr st'" "server_counted V evc st" "\<And>k k'. env k k' \<Longrightarrow> evc k' = evc k"
  shows "server_counted V evc st'"
  using assms by (induction rule: server_run.induct) (auto intro: step_counted)

text \<open>A call of \<open>stop\<close> on a joinable server can always be completed.\<close>

lemma stop_completes:
  assumes "server_inv V self st" "server_counted V evc st" "joinable st" "sv_stop st = NotStopping"
  shows "\<exists>tr st'. GenericServer_stop V S self st = Some st' \<and> server_run V S self env st tr st' \<and> sv_worker st' = NoThread \<and> sv_stop st' = NotStopping
    \<and> server_dead V st'"
proof -
  let ?st1 = "stop_close V st"
  have s1: "server_step V S self (\<lambda>_ _. False) st [] ?st1"
    by (rule server_step.user_stop_close [OF assms(3,4)])
  have c1: "server_counted V evc ?st1" by (rule step_counted [OF assms(2) s1]) simp
  have f1: "sv_stop ?st1 = SocketClosed" "so_getFd V (sv_socket ?st1) < 0"
    using close_closed [of "sv_socket st" "sv_kernel st"] by (auto simp: stop_close_def split: prod.splits)
  from c1 queue_step_ok [of "sv_queue ?st1" "sv_kernel ?st1" OpStop] obtain q k
    where q: "LinxQueue_stop S (sv_queue ?st1) (sv_kernel ?st1) = Some (q, k)"
    by (fastforce simp: server_counted_def)
  let ?st2 = "?st1\<lparr>sv_queue := q, sv_kernel := k, sv_stop := QueueStopped\<rparr>"
  have s2: "stop_queue S ?st1 = Some ?st2" using q by (simp add: stop_queue_def)
  have f2: "q_stopped q" using q by (auto simp: LinxQueue_stop_def split: option.splits)
  have r2: "server_run V S self env st [(OpStop, Done)] ?st2"
    using run_trans [OF run_one [OF server_step.user_stop_close [OF assms(3,4)]]
        run_one [OF server_step.user_stop_queue [OF f1(1) s2]]] by simp
  have "server_inv V self ?st2" by (rule run_inv [OF r2 assms(1)])
  moreover have "joinable ?st2" using assms(3) by (simp add: joinable_def stop_close_def split: prod.splits)
  moreover have "so_getFd V (sv_socket ?st2) < 0" using f1(2) by simp
  ultimately obtain tr st3 where w3: "worker_finish V S self ?st2 = Some st3"
    and r3: "server_run V S self env ?st2 tr st3" "sv_worker st3 = TaskEnded"
    "sv_stop st3 = QueueStopped" "q_stopped (sv_queue st3)" "so_getFd V (sv_socket st3) < 0"
    using closed_worker_ends [of self ?st2 S env] f2 by auto
  have "server_step V S self env st3 [] (stop_join st3)"
    by (rule server_step.user_stop_join [OF r3(3,2)])
  moreover have "GenericServer_stop V S self st = Some (stop_join st3)"
    using assms(3) s2 w3 r3(2) by (simp add: GenericServer_stop_def Let_def)
  ultimately show ?thesis using run_trans [OF run_trans [OF r2 r3(1)] run_one] r3
    by (force simp: stop_join_def server_dead_def)
qed

end

section \<open>The Unix server\<close>

context events_sys
begin

lemma unix_server_counted:
  "server_run (AfUnixSocket_ops S e) S self env st tr st' \<Longrightarrow>
    server_counted (AfUnixSocket_ops S e) evc st \<Longrightarrow> (\<And>k k'. env k k' \<Longrightarrow> evc k' = evc k) \<Longrightarrow>
    server_counted (AfUnixSocket_ops S e) evc st'"
  by (rule unix_evc.run_counted)

lemma unix_server_stops:
  "server_inv (AfUnixSocket_ops S e) self st \<Longrightarrow> server_counted (AfUnixSocket_ops S e) evc st \<Longrightarrow>
    joinable st \<Longrightarrow> sv_stop st = NotStopping \<Longrightarrow>
    \<exists>tr st'. server_run (AfUnixSocket_ops S e) S self env st tr st' \<and> sv_worker st' = NoThread
      \<and> sv_stop st' = NotStopping \<and> server_dead (AfUnixSocket_ops S e) st'"
  using unix_evc.stop_completes by blast

end

end
