(* ===== verification/ServerProps.thy ===== *)
theory ServerProps
  imports GenericServer ClientProps QueueProps
begin

text \<open>
  The properties of the two servers: what the simple server's \<open>receive\<close> returns, answers and drops
  and how long it takes; and for the threaded server, over every interleaving of the worker, the user
  threads and the environment: the mailbox it implements, what its queue holds, the descriptor it is
  polled by, and what becomes of it when it is stopped or its worker meets an error.
\<close>

section \<open>Servers on the reference kernel\<close>

text \<open>The socket \<open>demo_unix_socket\<close> with a ping and then a message of the peer \<open>cli\<close>.\<close>

definition demo_two_kernel :: ref_kernel where
  "demo_two_kernel = \<lparr>rk_clock = 0, rk_efds = [],
     rk_socks = [(4, \<lparr>rs_addr = None,
       rs_in = [([0, 0, 0, 1], SunAddr demo_path 6), ([0, 0, 0, 7, 1], SunAddr demo_path 6)], rs_shut = False\<rparr>)]\<rparr>"

lemma demo_simple_run:
  "map_option fst (SimpleServer_receive (AfUnixSocket_ops ref_sys LittleEndian) ref_sys 3 50 [] None
     demo_unix_socket demo_two_kernel)
   = Some (Some \<lparr>lr_message = \<lparr>rm_reqId = 7, rm_payload = [1]\<rparr>, lr_from = Some (UnixId (UnixInfo ''cli'')), lr_server = 3\<rparr>)"
  by code_simp

lemma demo_simple_result:
  "\<exists>k'. SimpleServer_receive (AfUnixSocket_ops ref_sys LittleEndian) ref_sys 3 50 [] None
     demo_unix_socket demo_two_kernel
   = Some (Some \<lparr>lr_message = \<lparr>rm_reqId = 7, rm_payload = [1]\<rparr>, lr_from = Some (UnixId (UnixInfo ''cli'')), lr_server = 3\<rparr>, k')"
  using demo_simple_run by auto

text \<open>A threaded server that was just started, with a queue of capacity 2 on the reference kernel.\<close>

definition demo_server :: "(af_unix_socket, ref_kernel) server_state" where
  "demo_server = server_init (AfUnixSocket ''srv'') (LinxQueue demo_efd 2) demo_kernel"

definition demo_started :: "(af_unix_socket, ref_kernel) server_state" where
  "demo_started = demo_server\<lparr>sv_worker := AtReceive\<rparr>"

abbreviation demo_run :: "(af_unix_socket, ref_kernel) server_state \<Rightarrow> queue_label
    \<Rightarrow> (af_unix_socket, ref_kernel) server_state \<Rightarrow> bool" where
  "demo_run \<equiv> server_run (AfUnixSocket_ops ref_sys LittleEndian) ref_sys 3 (\<lambda>_ _. False)"

lemma demo_start: "demo_run demo_server [] demo_started"
proof -
  have "server_step (AfUnixSocket_ops ref_sys LittleEndian) ref_sys 3 (\<lambda>_ _. False) demo_server [] demo_started"
    by (rule server_step.user_start [where b = True])
      (simp_all add: demo_server_def demo_started_def server_init_def GenericServer_start_def joinable_def)
  then show ?thesis by (rule unix_socket.run_one)
qed

lemma demo_get: "demo_run demo_server [(OpGet [] None, Got None)] demo_started"
proof -
  have "demo_run demo_started [(OpGet [] None, Got None)]
      (demo_started\<lparr>sv_queue := sv_queue demo_started, sv_kernel := sv_kernel demo_started\<rparr>)"
    by (rule unix_socket.run_one, rule server_step.user_get)
      (simp add: demo_started_def demo_server_def server_init_def LinxQueue_def getMessage_def findMessage_def extract_Nil_code)
  from unix_socket.run_trans [OF demo_start this] show ?thesis by simp
qed

lemma demo_stopped: "\<exists>tr st. demo_run demo_server tr st \<and> \<not> joinable st \<and> q_stopped (sv_queue st)"
proof -
  have "server_counted (AfUnixSocket_ops ref_sys LittleEndian) ref_evc demo_server"
    using demo_queue_ok
    by (simp add: server_counted_def demo_server_def server_init_def AfUnixSocket_getFd_def AfUnixSocket_def)
  then have "server_counted (AfUnixSocket_ops ref_sys LittleEndian) ref_evc demo_started"
    by (simp add: server_counted_def demo_started_def)
  moreover have "server_inv (AfUnixSocket_ops ref_sys LittleEndian) 3 demo_started"
    by (simp add: server_inv_def demo_started_def demo_server_def server_init_def LinxQueue_def)
  moreover have "joinable demo_started" "sv_stop demo_started = NotStopping"
    by (simp_all add: joinable_def demo_started_def demo_server_def server_init_def)
  ultimately obtain tr st where "demo_run demo_started tr st" "sv_worker st = NoThread"
    "server_dead (AfUnixSocket_ops ref_sys LittleEndian) st"
    using events_sys.unix_server_stops [OF ref_events.events_sys_axioms, of LittleEndian 3 demo_started "\<lambda>_ _. False"] by blast
  with unix_socket.run_trans [OF demo_start] show ?thesis
    by (auto simp: joinable_def server_dead_def)
qed

section \<open>Properties of the simple server\<close>

text \<open>
  C10. What the simple server's \<open>receive\<close> returns is the first message of the call, from an accepted
  sender and with a signal of the selector, that is not a ping: the messages taken from the socket
  before it in that call were pings, each answered by one ping response to its own sender, or did not
  match. The sender and the server are recorded in what is returned.
\<close>

theorem simple_receive_sound:
  assumes "generic_socket V" and "SimpleServer_receive V S self timeoutMs sigsel ident s k = Some (Some lr, k')"
  shows "\<exists>dl k0 rs k1 t k2 ret m i. Deadline_at S timeoutMs k = (dl, k0)
    \<and> server_rounds V S sigsel ident dl s k0 rs k1
    \<and> (\<forall>d f. Dropped d f \<in> set rs \<longrightarrow> rm_reqId d \<noteq> IPC_PING_REQ \<and> \<not> matches sigsel ident d (Some f))
    \<and> getRemainingTimeMs_at S dl k1 = (t, k2)
    \<and> so_receive V True True t s k2 = Some ((ret, Some m, Some (so_upcast V i)), k') \<and> 0 < ret
    \<and> rm_reqId m \<noteq> IPC_PING_REQ \<and> matches sigsel ident m (Some (so_upcast V i))
    \<and> lr = \<lparr>lr_message = m, lr_from = Some (so_upcast V i), lr_server = self\<rparr>"
proof -
  obtain dl k0 where d: "Deadline_at S timeoutMs k = (dl, k0)" by fastforce
  then have "simple_receive_loop V S self sigsel ident dl None None s k0 = Some (Some lr, k')"
    using assms(2) by (simp add: SimpleServer_receive_def)
  from simple_loop_sound [OF this assms(1) refl] obtain rs k1 t k2 ret m i
    where r: "server_rounds V S sigsel ident dl s k0 rs k1"
      and g: "getRemainingTimeMs_at S dl k1 = (t, k2)"
        "so_receive V True True t s k2 = Some ((ret, Some m, Some (so_upcast V i)), k')" "0 < ret"
        "rm_reqId m \<noteq> IPC_PING_REQ" "matches sigsel ident m (Some (so_upcast V i))"
        "lr = \<lparr>lr_message = m, lr_from = Some (so_upcast V i), lr_server = self\<rparr>"
    by blast
  have "\<forall>d f. Dropped d f \<in> set rs \<longrightarrow> rm_reqId d \<noteq> IPC_PING_REQ \<and> \<not> matches sigsel ident d (Some f)"
    using rounds_dropped [OF r] by blast
  with d r g show ?thesis by blast
qed

theorem simple_receive_sound_witness:
  "\<exists>dl k0 rs k1. server_rounds (AfUnixSocket_ops ref_sys LittleEndian) ref_sys [] None dl demo_unix_socket k0 rs k1
    \<and> (\<forall>d f. Dropped d f \<notin> set rs)"
proof -
  obtain k' where "SimpleServer_receive (AfUnixSocket_ops ref_sys LittleEndian) ref_sys 3 50 [] None
     demo_unix_socket demo_two_kernel
   = Some (Some \<lparr>lr_message = \<lparr>rm_reqId = 7, rm_payload = [1]\<rparr>, lr_from = Some (UnixId (UnixInfo ''cli'')), lr_server = 3\<rparr>, k')"
    using demo_simple_result by blast
  from simple_receive_sound [OF unix_socket.generic_socket_axioms this]
  show ?thesis by (fastforce simp: matches_def matchesSignalSelector_iff)
qed



section \<open>Properties of the threaded server\<close>



text \<open>
  C4. In every reachable state the queue holds application messages only: no ping request (the worker
  answers those itself), each with the identifier of its sender and a reference to this server; and
  there are never more of them than the server was made for.
\<close>

theorem server_queue_contents:
  assumes "generic_socket V" and "server_run V S self env (server_init s (LinxQueue e sz) k) tr st"
    and "0 \<le> sz" "sz < 2147483648"
  shows "(\<forall>lr \<in> set (q_queue (sv_queue st)). rm_reqId (lr_message lr) \<noteq> IPC_PING_REQ
      \<and> (\<exists>i. lr_from lr = Some (so_upcast V i)) \<and> lr_server lr = self)
    \<and> length (q_queue (sv_queue st)) \<le> nat sz"
proof
  show "\<forall>lr \<in> set (q_queue (sv_queue st)). rm_reqId (lr_message lr) \<noteq> IPC_PING_REQ
      \<and> (\<exists>i. lr_from lr = Some (so_upcast V i)) \<and> lr_server lr = self"
    using generic_socket.run_inv [OF assms(1,2) generic_socket.init_inv [OF assms(1)]]
    by (auto simp: server_inv_def app_message_def)
  have "length (mb_msgs b') \<le> mb_capacity b' \<and> mb_capacity b' = mb_capacity b"
    if "mb_run xs b = (outs, b')" "length (mb_msgs b) \<le> mb_capacity b" for xs outs b b'
    using that
  proof (induction xs arbitrary: b outs)
    case (Cons x xs)
    obtain out b1 where s: "mb_step x b = (out, b1)" by fastforce
    have "length (mb_msgs b1) \<le> mb_capacity b1 \<and> mb_capacity b1 = mb_capacity b"
    proof (cases x)
      case (OpGet sg fr)
      obtain r ms where t: "mb_take (queue_match sg fr) (mb_msgs b) = (r, ms)" by fastforce
      from arg_cong [OF mb_take_mset [OF t], of size] OpGet s t Cons.prems(2) show ?thesis by auto
    qed (use s Cons.prems(2) in \<open>auto split: if_splits\<close>)
    with Cons.IH [of b1] Cons.prems(1) s show ?case by (auto split: prod.splits)
  qed simp
  from this [OF run_mailbox(1) [OF assms(2)]] run_mailbox(3) [OF assms(2)] assms(3,4)
  show "length (q_queue (sv_queue st)) \<le> nat sz"
    by (simp add: server_init_def mailbox_of_def LinxQueue_def to_size_t_nonneg)
qed

theorem server_queue_contents_witness:
  "length (q_queue (sv_queue demo_started)) \<le> 2"
  using server_queue_contents [OF unix_socket.generic_socket_axioms demo_get [unfolded demo_server_def]] by simp

text \<open>
  C14. The descriptor that \<open>getPollFd\<close> returns counts, in every reachable state, the messages that are
  in the queue, whatever the worker and the user threads are doing.
\<close>

theorem server_poll_counter:
  assumes "events_sys S evc" and "\<And>k k'. env k k' \<Longrightarrow> evc k' = evc k"
    and "LinxEventFd S k = (ef, k0)" "0 \<le> efd ef" "0 \<le> sz" "sz < 2147483648"
    and "us_fd s \<noteq> efd ef"
    and "server_run (AfUnixSocket_ops S e) S self env (server_init s (LinxQueue ef sz) k0) tr st"
  shows "evc (sv_kernel st) (GenericServer_getPollFd st) = Some (length (q_queue (sv_queue st)))"
proof -
  have ev: "eventfd_sys S evc" using assms(1) by (simp add: events_sys_def)
  have "server_counted (AfUnixSocket_ops S e) evc (server_init s (LinxQueue ef sz) k0)"
    using eventfd_sys.fresh_queue_ok [OF ev assms(3,5,6)] assms(7)
    by (simp add: server_counted_def server_init_def AfUnixSocket_getFd_def LinxQueue_def)
  from events_sys.unix_server_counted [OF assms(1,8) this assms(2)] run_mailbox(2) [OF assms(8)] assms(4)
  show ?thesis
    by (simp add: server_counted_def queue_ok_def GenericServer_getPollFd_def LinxQueue_getFd_def
        LinxEventFd_getFd_def server_init_def LinxQueue_def)
qed

theorem server_poll_counter_witness:
  "ref_evc (sv_kernel demo_started) (GenericServer_getPollFd demo_started) = Some 0"
proof -
  have "us_fd (AfUnixSocket ''srv'') \<noteq> efd demo_efd" "0 \<le> efd demo_efd"
    by (simp_all add: AfUnixSocket_def demo_efd_val)
  from server_poll_counter [OF ref_events.events_sys_axioms _ demo_LinxEventFd this(2) _ _ this(1)
      demo_get [unfolded demo_server_def]]
  show ?thesis by (simp add: demo_started_def demo_server_def server_init_def LinxQueue_def)
qed



text \<open>
  C35. There is no way back from \<open>stop\<close>: on a server that was stopped, \<open>start\<close> still returns true, but
  whatever the threads and the environment do from then on, no message ever enters the queue again;
  a worker that is started finds the socket closed and ends.
\<close>

theorem server_no_restart:
  assumes "generic_socket V" and "server_run V S self env (server_init s (LinxQueue e sz) k) tr st"
    and "q_stopped (sv_queue st)" "\<not> joinable st"
    and "server_run V S self env st tr' st'"
  shows "fst (GenericServer_start st) \<and> (\<forall>m out. (OpAdd m, out) \<notin> set tr')
    \<and> (sv_worker st' = AtReceive \<longrightarrow> task_receive V st' = Some (st'\<lparr>sv_worker := TaskEnded\<rparr>))"
proof -
  have "server_inv V self st"
    by (rule generic_socket.run_inv [OF assms(1,2) generic_socket.init_inv [OF assms(1)]])
  then have "server_dead V st"
    using assms(3,4) by (auto simp: server_inv_def server_dead_def joinable_def)
  from generic_socket.dead_run [OF assms(1,5) this] generic_socket.receive_on_closed [OF assms(1)]
  show ?thesis by (auto simp: GenericServer_start_def server_dead_def)
qed

theorem server_no_restart_witness:
  "\<exists>tr st. demo_run demo_server tr st \<and> fst (GenericServer_start st)
    \<and> (\<forall>tr' st'. demo_run st tr' st' \<longrightarrow> (\<forall>m out. (OpAdd m, out) \<notin> set tr'))"
proof -
  obtain tr st where "demo_run demo_server tr st" "\<not> joinable st" "q_stopped (sv_queue st)"
    using demo_stopped by blast
  with server_no_restart [OF unix_socket.generic_socket_axioms this(1) [unfolded demo_server_def] this(3,2)]
    server_run.run_refl show ?thesis by blast
qed

text \<open>
  C36. One bad datagram ends a threaded server for good: when a datagram shorter than the four bytes of
  a request id is at the head of the socket, the worker's next step is to leave its task, without
  closing the socket, and \<open>start\<close> then reports success without starting anything.
\<close>

theorem server_short_datagram:
  assumes "sv_worker st = AtReceive" and "0 \<le> us_fd (sv_socket st)"
    and "sys_poll_in S (us_fd (sv_socket st)) INFINITE_TIMEOUT (sv_kernel st) = ((r, errno), k1)" "0 < r"
    and "sys_fionread S (us_fd (sv_socket st)) k1 = (Some (length d), k2)"
    and "sys_recvfrom_un S (us_fd (sv_socket st)) (length d) k2 = (RecvOk d path, k3)" "length d < 4"
  shows "\<exists>st'. task_receive (AfUnixSocket_ops S e) st = Some st' \<and> sv_worker st' = TaskEnded
    \<and> sv_socket st' = sv_socket st \<and> GenericServer_start st' = (True, st')"
proof -
  have "RawMessage_deserialize e d = None" using assms(7) by (simp add: deserialize_None_iff)
  then have "AfUnixSocket_receive S e True True INFINITE_TIMEOUT (sv_socket st) (sv_kernel st)
      = Some ((- 6, None, None), k3)"
    using assms(2-6) by (simp add: AfUnixSocket_receive_eq dgram_receive_def Let_def)
  then show ?thesis by (simp add: task_receive_def GenericServer_start_def joinable_def)
qed

theorem server_short_datagram_witness:
  "\<exists>st'. task_receive (AfUnixSocket_ops ref_sys LittleEndian)
      \<lparr>sv_socket = demo_unix_socket, sv_queue = LinxQueue demo_efd 2, sv_worker = AtReceive,
       sv_stop = NotStopping, sv_kernel = demo_unix_kernel [1, 2, 3]\<rparr> = Some st'
    \<and> sv_worker st' = TaskEnded \<and> us_fd (sv_socket st') = 4"
proof -
  let ?k = "demo_unix_kernel [1, 2, 3]"
  let ?st = "\<lparr>sv_socket = demo_unix_socket, sv_queue = LinxQueue demo_efd 2, sv_worker = AtReceive,
       sv_stop = NotStopping, sv_kernel = ?k\<rparr>"
  have "\<exists>st'. task_receive (AfUnixSocket_ops ref_sys LittleEndian) ?st = Some st' \<and> sv_worker st' = TaskEnded
    \<and> sv_socket st' = sv_socket ?st \<and> GenericServer_start st' = (True, st')"
    by (rule server_short_datagram [where r = 1 and errno = "EOTHER 0" and ?k1.0 = ?k and ?k2.0 = ?k
          and d = "[1, 2, 3]" and path = demo_path
          and ?k3.0 = "?k\<lparr>rk_clock := 1, rk_socks := [(4, \<lparr>rs_addr = None, rs_in = [], rs_shut = False\<rparr>)]\<rparr>"])
      (simp_all add: demo_unix_socket_def demo_unix_kernel_def ref_sys_def ref_poll_def ref_fionread_def
        ref_recvfrom_def demo_path_view Let_def del: sun_view.simps)
  then show ?thesis by (auto simp: demo_unix_socket_def)
qed

end
