(* ===== verification/Factories.thy ===== *)
theory Factories
  imports GenericClient GenericServer
begin

text \<open>
  The factory functions of \<open>AfUnixFactory\<close> and \<open>UdpFactory\<close> (AfUnixFactory.cpp, UdpFactory.cpp): how
  clients and servers are put together, and what is undone when a step fails (the \<open>shared_ptr\<close> to the
  socket goes out of scope and its destructor closes the descriptor). A new object has the number
  \<open>obj\<close>; the random number of a client name is an argument. The lemmas are about descriptors.
\<close>

section \<open>Unix\<close>

definition AfUnixFactory_createSimpleServer ::
  "'k sys \<Rightarrow> nat \<Rightarrow> string \<Rightarrow> 'k \<Rightarrow> ((generic_simple_server \<times> af_unix_socket) option \<times> 'k) option" where
  "AfUnixFactory_createSimpleServer S obj socketName k =
     do {
       (r, socket, k1) \<leftarrow> AfUnixSocket_open S (AfUnixSocket socketName) k;
       if r < 0 then Some (None, AfUnixSocket_dtor S socket k1)
       else do {
         server \<leftarrow> GenericSimpleServer socketName (Some obj);
         Some (Some (server, socket), k1)
       }
     }"

definition AfUnixFactory_createServer ::
  "'k sys \<Rightarrow> nat \<Rightarrow> string \<Rightarrow> nat \<Rightarrow> 'k
     \<Rightarrow> ((generic_simple_server \<times> (af_unix_socket, 'k) server_state) option \<times> 'k) option" where
  "AfUnixFactory_createServer S obj socketName queueSize k =
     do {
       (r, socket, k1) \<leftarrow> AfUnixSocket_open S (AfUnixSocket socketName) k;
       if r < 0 then Some (None, AfUnixSocket_dtor S socket k1)
       else do {
         let (efd, k2) = LinxEventFd S k1;
         let queue = LinxQueue efd (to_int32 (int queueSize));
         (base, q) \<leftarrow> GenericServer socketName (Some obj) (Some queue);
         Some (Some (base, server_init socket q k2), k2)
       }
     }"

definition AfUnixFactory_createClient ::
  "'k sys \<Rightarrow> nat \<Rightarrow> nat \<Rightarrow> string \<Rightarrow> 'k \<Rightarrow> ((unix_info generic_client \<times> af_unix_socket) option \<times> 'k) option" where
  "AfUnixFactory_createClient S obj rand serverSocket k =
     do {
       let clientId = ''client_'' @ to_string rand @ ''_'' @ serverSocket;
       (r, socket, k1) \<leftarrow> AfUnixSocket_open S (AfUnixSocket clientId) k;
       if r < 0 then Some (None, AfUnixSocket_dtor S socket k1)
       else Some (Some (GenericClient clientId obj (UnixInfo serverSocket), socket), k1)
     }"

section \<open>UDP\<close>

definition UdpFactory_createSimpleServer ::
  "'k sys \<Rightarrow> nat \<Rightarrow> u16 \<Rightarrow> 'k \<Rightarrow> ((generic_simple_server \<times> udp_socket) option \<times> 'k) option" where
  "UdpFactory_createSimpleServer S obj port k =
     do {
       let ip = ''0.0.0.0'';
       let (r, socket, k1) = UdpSocket_open S UdpSocket k;
       if r < 0 then Some (None, UdpSocket_dtor S socket k1)
       else do {
         let (b, k2) = UdpSocket_bind S port ''0.0.0.0'' socket k1;
         if b < 0 then Some (None, UdpSocket_dtor S socket k2)
         else do {
           server \<leftarrow> GenericSimpleServer (ip @ '':'' @ to_string (unat port)) (Some obj);
           Some (Some (server, socket), k2)
         }
       }
     }"

definition UdpFactory_createServer ::
  "'k sys \<Rightarrow> nat \<Rightarrow> u16 \<Rightarrow> nat \<Rightarrow> 'k
     \<Rightarrow> ((generic_simple_server \<times> (udp_socket, 'k) server_state) option \<times> 'k) option" where
  "UdpFactory_createServer S obj port queueSize k =
     do {
       let ip = ''0.0.0.0'';
       let (r, socket, k1) = UdpSocket_open S UdpSocket k;
       if r < 0 then Some (None, UdpSocket_dtor S socket k1)
       else do {
         let (b, k2) = UdpSocket_bind S port ''0.0.0.0'' socket k1;
         if b < 0 then Some (None, UdpSocket_dtor S socket k2)
         else do {
           let serverId = ip @ '':'' @ to_string (unat port);
           let (efd, k3) = LinxEventFd S k2;
           let queue = LinxQueue efd (to_int32 (int queueSize));
           (base, q) \<leftarrow> GenericServer serverId (Some obj) (Some queue);
           Some (Some (base, server_init socket q k3), k3)
         }
       }
     }"

definition UdpFactory_createMulticastServer ::
  "'k sys \<Rightarrow> nat \<Rightarrow> string \<Rightarrow> u16 \<Rightarrow> nat \<Rightarrow> 'k
     \<Rightarrow> ((generic_simple_server \<times> (udp_socket, 'k) server_state) option \<times> 'k) option" where
  "UdpFactory_createMulticastServer S obj multicastIp port queueSize k =
     (if \<not> isMulticastIp multicastIp then Some (None, k)
      else do {
        let (r, socket, k1) = UdpSocket_open S UdpSocket k;
        if r < 0 then Some (None, UdpSocket_dtor S socket k1)
        else do {
          let (b, k2) = UdpSocket_bind S port multicastIp socket k1;
          if b < 0 then Some (None, UdpSocket_dtor S socket k2)
          else do {
            let (j, k3) = UdpSocket_joinMulticastGroup S multicastIp socket k2;
            if j < 0 then Some (None, UdpSocket_dtor S socket k3)
            else do {
              let serverId = multicastIp @ '':'' @ to_string (unat port);
              let (efd, k4) = LinxEventFd S k3;
              let queue = LinxQueue efd (to_int32 (int queueSize));
              (base, q) \<leftarrow> GenericServer serverId (Some obj) (Some queue);
              Some (Some (base, server_init socket q k4), k4)
            }
          }
        }
      })"

definition UdpFactory_createClient ::
  "'k sys \<Rightarrow> nat \<Rightarrow> nat \<Rightarrow> string \<Rightarrow> u16 \<Rightarrow> 'k \<Rightarrow> ((port_info generic_client \<times> udp_socket) option \<times> 'k) option" where
  "UdpFactory_createClient S obj rand ip port k =
     do {
       let (r, socket, k1) = UdpSocket_open S UdpSocket k;
       if r < 0 then Some (None, UdpSocket_dtor S socket k1)
       else do {
         let (t, k2) = (if isMulticastIp ip then UdpSocket_setMulticastTtl S 1 socket k1 else (0, k1));
         if t < 0 then Some (None, UdpSocket_dtor S socket k2)
         else do {
           let (b, k3) = (if isBroadcastIp ip then UdpSocket_setBroadcast S True socket k2 else (0, k2));
           if b < 0 then Some (None, UdpSocket_dtor S socket k3)
           else do {
             let clientId = ''client_'' @ to_string rand @ ''_'' @ ip @ '':'' @ to_string (unat port);
             Some (Some (GenericClient clientId obj (PortInfo ip port), socket), k3)
           }
         }
       }
     }"

section \<open>Descriptors\<close>

text \<open>
  A factory is exact about descriptors: what it returns holds fresh ones, and apart from those the open
  descriptors are what they were; in particular a failure leaves nothing open.
\<close>

definition descriptors_exact :: "('k \<Rightarrow> int set) \<Rightarrow> 'k \<Rightarrow> ('x \<Rightarrow> int set) \<Rightarrow> 'x option \<times> 'k \<Rightarrow> bool" where
  "descriptors_exact fds k held r \<longleftrightarrow>
     (let h = (case fst r of None \<Rightarrow> {} | Some x \<Rightarrow> held x)
      in h \<inter> fds k = {} \<and> fds (snd r) = fds k \<union> h)"

definition nonneg :: "int set \<Rightarrow> int set" where
  "nonneg A = {fd \<in> A. 0 \<le> fd}"

lemma nonneg_simps [simp]:
  "nonneg {} = {}" "nonneg (insert x A) = (if 0 \<le> x then insert x (nonneg A) else nonneg A)"
  by (auto simp: nonneg_def)

lemma AfUnixSocket_open_code: "AfUnixSocket_open S this k = Some (r, s', k') \<Longrightarrow> r = 0 \<or> r = - 1"
  by (auto simp: AfUnixSocket_open_def Let_def split: if_splits option.splits prod.splits)

lemma unix_open_fresh:
  assumes "fd_sys S fds" "length name \<le> 107"
  shows "\<exists>r s k'. AfUnixSocket_open S (AfUnixSocket name) k = Some (r, s, k') \<and>
    (if r < 0 then fds (AfUnixSocket_dtor S s k') = fds k
     else 0 \<le> us_fd s \<and> us_fd s \<notin> fds k \<and> fds k' = insert (us_fd s) (fds k))"
proof -
  have o: "owns (AfUnixSocket_ops S LittleEndian) fds (fds k) (AfUnixSocket name) k" "unix_good (AfUnixSocket name)"
    using assms(2) by (simp_all add: owns_def own_unix AfUnixSocket_def unix_good_def)
  obtain r s k' where r: "AfUnixSocket_open S (AfUnixSocket name) k = Some (r, s, k')"
    and w: "owns (AfUnixSocket_ops S LittleEndian) fds (fds k) s k'" "unix_good s"
    and z: "r = 0 \<longrightarrow> 0 \<le> us_fd s"
    using AfUnixSocket_open_owns [OF assms(1) o] by blast
  from AfUnixSocket_open_code [OF r] show ?thesis
  proof
    assume "r = 0"
    with r w z show ?thesis by (auto simp: owns_def own_unix)
  next
    assume "r = - 1"
    with r fd_sys.unix_close_releases [OF assms(1) w] show ?thesis by (simp add: AfUnixSocket_dtor_def)
  qed
qed

lemma udp_open_fresh:
  assumes "fd_sys S fds" "UdpSocket_open S UdpSocket k = (r, s, k')"
  shows "if r < 0 then s = UdpSocket \<and> fds k' = fds k
     else 0 \<le> udp_fd s \<and> udp_fd s \<notin> fds k \<and> fds k' = insert (udp_fd s) (fds k)"
  using assms(2) fd_sys.fds_socket [OF assms(1)]
  by (auto simp: UdpSocket_open_def UdpSocket_def Let_def split: if_splits prod.splits)

text \<open>The calls between \<open>open\<close> and success leave the descriptors alone.\<close>

lemma udp_setup_fds:
  assumes "fd_sys S fds"
  shows "UdpSocket_bind S port ip s k = (b, k') \<Longrightarrow> fds k' = fds k"
    and "UdpSocket_joinMulticastGroup S ip s k = (b, k') \<Longrightarrow> fds k' = fds k"
    and "UdpSocket_setMulticastTtl S ttl s k = (b, k') \<Longrightarrow> fds k' = fds k"
    and "UdpSocket_setBroadcast S en s k = (b, k') \<Longrightarrow> fds k' = fds k"
  using fd_sys.fds_bind [OF assms] fd_sys.fds_setsockopt [OF assms]
  by (auto simp: UdpSocket_bind_def UdpSocket_joinMulticastGroup_def UdpSocket_setMulticastTtl_def
      UdpSocket_setBroadcast_def Let_def split: if_splits prod.splits)

lemma udp_dtor_fds:
  assumes "fd_sys S fds" "0 \<le> udp_fd s"
  shows "fds (UdpSocket_dtor S s k) = fds k - {udp_fd s}"
  using assms(2) by (simp add: UdpSocket_dtor_def UdpSocket_close_def fd_sys.fds_close [OF assms(1)]
      fd_sys.fds_shutdown [OF assms(1)])

lemma eventfd_fds:
  assumes "fd_sys S fds" "LinxEventFd S k = (e, k')"
  shows "if efd e < 0 then fds k' = fds k else efd e \<notin> fds k \<and> fds k' = insert (efd e) (fds k)"
  using assms(2) fd_sys.fds_eventfd [OF assms(1), of k "efd e" k']
  by (auto simp: LinxEventFd_def split: prod.splits)

lemma udp_dtor_closed: "UdpSocket_dtor S UdpSocket k = k"
  by (simp add: UdpSocket_dtor_def UdpSocket_close_def UdpSocket_def)

definition unix_held :: "(af_unix_socket, 'k) server_state \<Rightarrow> int set" where
  "unix_held st = nonneg {us_fd (sv_socket st), efd (q_efd (sv_queue st))}"

definition udp_held :: "(udp_socket, 'k) server_state \<Rightarrow> int set" where
  "udp_held st = nonneg {udp_fd (sv_socket st), efd (q_efd (sv_queue st))}"

lemma unix_server_exact:
  assumes "fd_sys S fds" "length name \<le> 107"
  shows "\<exists>r. AfUnixFactory_createServer S obj name sz k = Some r
    \<and> descriptors_exact fds k (\<lambda>(_, st). unix_held st) r"
proof -
  obtain r s k1 where o: "AfUnixSocket_open S (AfUnixSocket name) k = Some (r, s, k1)"
    and f: "if r < 0 then fds (AfUnixSocket_dtor S s k1) = fds k
     else 0 \<le> us_fd s \<and> us_fd s \<notin> fds k \<and> fds k1 = insert (us_fd s) (fds k)"
    using unix_open_fresh [OF assms] by blast
  obtain ef k2 where e: "LinxEventFd S k1 = (ef, k2)" by fastforce
  from o f e eventfd_fds [OF assms(1) e] show ?thesis
    by (auto simp: AfUnixFactory_createServer_def descriptors_exact_def unix_held_def GenericServer_def
        GenericSimpleServer_def server_init_def LinxQueue_def Let_def split: if_splits)
qed

lemma unix_simple_exact:
  assumes "fd_sys S fds" "length name \<le> 107"
  shows "\<exists>r. AfUnixFactory_createSimpleServer S obj name k = Some r
    \<and> descriptors_exact fds k (\<lambda>(_, s). nonneg {us_fd s}) r"
proof -
  obtain r s k1 where o: "AfUnixSocket_open S (AfUnixSocket name) k = Some (r, s, k1)"
    and f: "if r < 0 then fds (AfUnixSocket_dtor S s k1) = fds k
     else 0 \<le> us_fd s \<and> us_fd s \<notin> fds k \<and> fds k1 = insert (us_fd s) (fds k)"
    using unix_open_fresh [OF assms] by blast
  then show ?thesis
    by (auto simp: AfUnixFactory_createSimpleServer_def descriptors_exact_def GenericSimpleServer_def
        split: if_splits)
qed

lemma unix_client_exact:
  assumes "fd_sys S fds" "length (''client_'' @ to_string rand @ ''_'' @ name) \<le> 107"
  shows "\<exists>r. AfUnixFactory_createClient S obj rand name k = Some r
    \<and> descriptors_exact fds k (\<lambda>(_, s). nonneg {us_fd s}) r"
proof -
  obtain r s k1 where o: "AfUnixSocket_open S (AfUnixSocket (''client_'' @ to_string rand @ ''_'' @ name)) k
      = Some (r, s, k1)"
    and f: "if r < 0 then fds (AfUnixSocket_dtor S s k1) = fds k
     else 0 \<le> us_fd s \<and> us_fd s \<notin> fds k \<and> fds k1 = insert (us_fd s) (fds k)"
    using unix_open_fresh [OF assms] by blast
  then show ?thesis
    by (auto simp: AfUnixFactory_createClient_def descriptors_exact_def Let_def split: if_splits)
qed

lemma udp_multicast_exact:
  assumes "fd_sys S fds"
  shows "\<exists>r. UdpFactory_createMulticastServer S obj ip port sz k = Some r
    \<and> descriptors_exact fds k (\<lambda>(_, st). udp_held st) r"
proof (cases "isMulticastIp ip")
  case True
  obtain r s k1 where o: "UdpSocket_open S UdpSocket k = (r, s, k1)" by (metis prod_cases3)
  obtain b k2 where b: "UdpSocket_bind S port ip s k1 = (b, k2)" by fastforce
  obtain j k3 where j: "UdpSocket_joinMulticastGroup S ip s k2 = (j, k3)" by fastforce
  obtain ef k4 where e: "LinxEventFd S k3 = (ef, k4)" by fastforce
  from True o b j e udp_open_fresh [OF assms o] udp_setup_fds(1) [OF assms b] udp_setup_fds(2) [OF assms j]
    eventfd_fds [OF assms e] udp_dtor_fds [OF assms, of s]
  show ?thesis
    by (auto simp: UdpFactory_createMulticastServer_def descriptors_exact_def udp_held_def GenericServer_def
        GenericSimpleServer_def server_init_def LinxQueue_def udp_dtor_closed Let_def split: if_splits)
qed (simp add: UdpFactory_createMulticastServer_def descriptors_exact_def)

lemma udp_server_exact:
  assumes "fd_sys S fds"
  shows "\<exists>r. UdpFactory_createServer S obj port sz k = Some r
    \<and> descriptors_exact fds k (\<lambda>(_, st). udp_held st) r"
proof -
  obtain r s k1 where o: "UdpSocket_open S UdpSocket k = (r, s, k1)" by (metis prod_cases3)
  obtain b k2 where b: "UdpSocket_bind S port ''0.0.0.0'' s k1 = (b, k2)" by fastforce
  obtain ef k3 where e: "LinxEventFd S k2 = (ef, k3)" by fastforce
  from o b e udp_open_fresh [OF assms o] udp_setup_fds(1) [OF assms b]
    eventfd_fds [OF assms e] udp_dtor_fds [OF assms, of s]
  show ?thesis
    by (auto simp: UdpFactory_createServer_def descriptors_exact_def udp_held_def GenericServer_def
        GenericSimpleServer_def server_init_def LinxQueue_def udp_dtor_closed Let_def split: if_splits)
qed

lemma udp_simple_exact:
  assumes "fd_sys S fds"
  shows "\<exists>r. UdpFactory_createSimpleServer S obj port k = Some r
    \<and> descriptors_exact fds k (\<lambda>(_, s). nonneg {udp_fd s}) r"
proof -
  obtain r s k1 where o: "UdpSocket_open S UdpSocket k = (r, s, k1)" by (metis prod_cases3)
  obtain b k2 where b: "UdpSocket_bind S port ''0.0.0.0'' s k1 = (b, k2)" by fastforce
  from o b udp_open_fresh [OF assms o] udp_setup_fds(1) [OF assms b] udp_dtor_fds [OF assms, of s]
  show ?thesis
    by (auto simp: UdpFactory_createSimpleServer_def descriptors_exact_def GenericSimpleServer_def
        udp_dtor_closed Let_def split: if_splits)
qed

lemma udp_client_exact:
  assumes "fd_sys S fds"
  shows "\<exists>r. UdpFactory_createClient S obj rand ip port k = Some r
    \<and> descriptors_exact fds k (\<lambda>(_, s). nonneg {udp_fd s}) r"
proof -
  obtain r s k1 where o: "UdpSocket_open S UdpSocket k = (r, s, k1)" by (metis prod_cases3)
  obtain t k2 where t: "(if isMulticastIp ip then UdpSocket_setMulticastTtl S 1 s k1 else (0, k1)) = (t, k2)"
    by fastforce
  obtain b k3 where b: "(if isBroadcastIp ip then UdpSocket_setBroadcast S True s k2 else (0, k2)) = (b, k3)"
    by fastforce
  have "fds k2 = fds k1" "fds k3 = fds k2"
    using t b udp_setup_fds(3,4) [OF assms] by (auto split: if_splits)
  with o t b udp_open_fresh [OF assms o] udp_dtor_fds [OF assms, of s]
  show ?thesis
    by (auto simp: UdpFactory_createClient_def descriptors_exact_def udp_dtor_closed Let_def
        split del: if_split split: if_splits)
qed

end
