(* ===== verification/ServerLifecycle.thy ===== *)
theory ServerLifecycle
  imports Factories ServerProps
begin

text \<open>
  The life of a threaded server from its factory to its destructor, over both kinds of socket: no step
  of its threads meets undefined behaviour or a failed assertion, whatever the interleaving; after
  \<open>stop\<close> at most one message is left to be received; and when the object is destroyed every
  descriptor it held is closed.
\<close>

section \<open>Destruction\<close>

text \<open>
  What the destructor does when the \<open>stop\<close> in its body is over. The members are destroyed in reverse
  order: the thread, which must have been joined (or \<open>std::terminate\<close> is called), the queue, then
  those of the base class, whose own \<open>stop\<close> does nothing, with the last owner of the socket.
\<close>

definition GenericServer_destroy ::
  "('i, 's, 'k) socket_ops \<Rightarrow> 'k sys \<Rightarrow> ('s, 'k) server_state \<Rightarrow> 'k option" where
  "GenericServer_destroy V S st =
     (if joinable st then None
      else do {
        k1 \<leftarrow> LinxQueue_dtor S (sv_queue st) (sv_kernel st);
        let (s, k2) = SimpleServer_dtor (sv_socket st) k1;
        Some (snd (so_close V s k2))
      })"

definition GenericServer_dtor ::
  "('i, 's, 'k) socket_ops \<Rightarrow> 'k sys \<Rightarrow> nat \<Rightarrow> ('s, 'k) server_state \<Rightarrow> 'k option" where
  "GenericServer_dtor V S self st =
     do { st1 \<leftarrow> GenericServer_stop V S self st; GenericServer_destroy V S st1 }"

section \<open>Descriptors\<close>

text \<open>Next to the descriptors of others there are those of the server's socket and of its queue.\<close>

definition queue_own :: "linx_queue \<Rightarrow> int set" where
  "queue_own q = (if 0 \<le> efd (q_efd q) then {efd (q_efd q)} else {})"

definition server_owns ::
  "('i, 's, 'k) socket_ops \<Rightarrow> ('k \<Rightarrow> int set) \<Rightarrow> ('s \<Rightarrow> bool) \<Rightarrow> int set \<Rightarrow> ('s, 'k) server_state \<Rightarrow> bool" where
  "server_owns V fds good B st \<longleftrightarrow> B \<inter> queue_own (sv_queue st) = {} \<and> good (sv_socket st)
     \<and> owns V fds (B \<union> queue_own (sv_queue st)) (sv_socket st) (sv_kernel st)"

lemma owns_fds: "owns V fds B s k \<Longrightarrow> fds k' = fds k \<Longrightarrow> owns V fds B s k'"
  by (simp add: owns_def)

context frame_socket
begin

lemma task_receive_fds: "task_receive V st = Some st' \<Longrightarrow> fds (sv_kernel st') = fds (sv_kernel st)"
  by (auto simp: task_receive_def dest: receive_fds split: bind_splits)

lemma getMessage_fds: "getMessage S sigsel from q k = (r, q', k') \<Longrightarrow> fds k' = fds k"
  using queue_step_fds [of "OpGet sigsel from" q k "Got r" q' k'] by simp

lemma LinxQueue_add_fds: "LinxQueue_add S m q k = (r, q', k') \<Longrightarrow> fds k' = fds k"
  using queue_step_fds [of "OpAdd m" q k "Added (r = 0)" q' k'] by simp

lemma SimpleServer_send_fds: "SimpleServer_send V m to s k = Some (r, k') \<Longrightarrow> fds k' = fds k"
  by (auto simp: SimpleServer_send_def dest: send_fds split: option.splits)

lemma task_dispatch_fds:
  "task_dispatch V S self m f st = Some (lab, st') \<Longrightarrow> fds (sv_kernel st') = fds (sv_kernel st)"
  by (auto simp: task_dispatch_def Let_def dest: LinxQueue_add_fds SimpleServer_send_fds
      split: bind_splits if_splits prod.splits)

lemma step_fds:
  assumes "server_step V S self env st lab st'" and env: "\<And>k k'. env k k' \<Longrightarrow> fds k' = fds k"
  shows "(sv_socket st' = sv_socket st \<and> fds (sv_kernel st') = fds (sv_kernel st)) \<or> st' = stop_close V st"
  using assms(1)
proof cases
  case worker_receive
  then show ?thesis using task_receive_fds by (auto simp: task_receive_def split: bind_splits)
next
  case (worker_dispatch m f)
  then show ?thesis using task_dispatch_fds
    by (auto simp: task_dispatch_def Let_def split: bind_splits if_splits prod.splits)
next
  case (user_get sg fr r q k)
  then show ?thesis using getMessage_fds by simp
next
  case (user_send msg to r k)
  then show ?thesis using SimpleServer_send_fds by simp
next
  case (user_start b)
  then show ?thesis by (auto simp: GenericServer_start_def split: if_splits)
next
  case user_stop_queue
  then obtain q k where q: "LinxQueue_stop S (sv_queue st) (sv_kernel st) = Some (q, k)"
    and st': "st' = st\<lparr>sv_queue := q, sv_kernel := k, sv_stop := QueueStopped\<rparr>"
    by (auto simp: stop_queue_def split: bind_splits)
  from q have "queue_step S OpStop (sv_queue st, sv_kernel st) = Some (Done, q, k)" by simp
  from queue_step_fds [OF this] show ?thesis by (simp add: st')
next
  case user_stop_join
  then show ?thesis by (simp add: stop_join_def)
next
  case (environment k)
  with env show ?thesis by simp
qed auto

lemma step_owns:
  assumes "server_owns V fds good B st" "server_step V S self env st lab st'"
    and env: "\<And>k k'. env k k' \<Longrightarrow> fds k' = fds k"
  shows "server_owns V fds good B st'"
proof -
  have q: "queue_own (sv_queue st') = queue_own (sv_queue st)"
    using step_queue [OF assms(2)] by (auto simp: queue_own_def dest!: queue_step_simulates(2))
  from step_fds [OF assms(2) env] show ?thesis
  proof
    assume "sv_socket st' = sv_socket st \<and> fds (sv_kernel st') = fds (sv_kernel st)"
    with assms(1) q show ?thesis by (auto simp: server_owns_def intro: owns_fds)
  next
    assume st': "st' = stop_close V st"
    obtain s k where c: "so_close V (sv_socket st) (sv_kernel st) = (s, k)" by fastforce
    from assms(1) close_owns [OF _ _ c] st' c show ?thesis
      by (auto simp: server_owns_def stop_close_def)
  qed
qed

lemma run_owns:
  "server_run V S self env st tr st' \<Longrightarrow> server_owns V fds good B st \<Longrightarrow>
    (\<And>k k'. env k k' \<Longrightarrow> fds k' = fds k) \<Longrightarrow> server_owns V fds good B st'"
  by (induction rule: server_run.induct) (auto intro: step_owns)

lemma destroy_fds:
  assumes "server_owns V fds good B st" "GenericServer_destroy V S st = Some k'"
  shows "fds k' = B"
proof -
  obtain k1 where d: "LinxQueue_dtor S (sv_queue st) (sv_kernel st) = Some k1"
    and k': "k' = snd (so_close V (sv_socket st) k1)"
    using assms(2) by (auto simp: GenericServer_destroy_def SimpleServer_dtor_def SimpleServer_stop_def
        split: if_splits bind_splits)
  have e: "efd (q_efd (sv_queue st)) < 0 \<Longrightarrow> efd (q_efd (sv_queue st)) \<notin> fds (sv_kernel st)"
    using fds_nonneg by force
  have o: "owns V fds B (sv_socket st) k1"
    using assms(1) LinxQueue_dtor_fds [OF d] e
    by (auto simp: server_owns_def owns_def queue_own_def split: if_splits)
  obtain s'' k'' where c: "so_close V (sv_socket st) k1 = (s'', k'')" by fastforce
  have "good (sv_socket st)" using assms(1) by (simp add: server_owns_def)
  from close_releases [OF o this c] show ?thesis by (simp add: k' c)
qed

end

context evc_socket
begin

lemma destroy_returns:
  assumes "server_counted V evc st" "\<not> joinable st"
  shows "\<exists>k'. GenericServer_destroy V S st = Some k'"
proof -
  have "\<exists>q k. LinxQueue_stop S (sv_queue st) (sv_kernel st) = Some (q, k)"
    using assms(1) queue_step_ok [of "sv_queue st" "sv_kernel st" OpStop] by (fastforce simp: server_counted_def)
  then show ?thesis using assms(2)
    by (auto simp: GenericServer_destroy_def LinxQueue_dtor_def SimpleServer_dtor_def SimpleServer_stop_def)
qed

text \<open>From any state with no call of \<open>stop\<close> in progress, the destructor returns and closes everything.\<close>

lemma lifecycle:
  assumes "frame_socket V fds good S" "server_inv V self st" "server_counted V evc st" "server_owns V fds good B st"
    and "sv_stop st = NotStopping"
  shows "\<exists>k'. GenericServer_dtor V S self st = Some k' \<and> fds k' = B"
proof -
  obtain tr st' where s: "GenericServer_stop V S self st = Some st'"
    and r: "server_run V S self (\<lambda>_ _. False) st tr st'" "sv_worker st' = NoThread"
  proof (cases "joinable st")
    case True
    then show ?thesis using stop_completes [OF assms(2,3) True assms(5), of "\<lambda>_ _. False"] that by blast
  next
    case False
    then show ?thesis using that server_run.run_refl by (fastforce simp: joinable_def GenericServer_stop_def)
  qed
  have "server_counted V evc st'" by (rule run_counted [OF r(1) assms(3)]) simp
  then obtain k' where d: "GenericServer_destroy V S st' = Some k'"
    using destroy_returns r(2) by (auto simp: joinable_def)
  have "server_owns V fds good B st'"
    by (rule frame_socket.run_owns [OF assms(1) r(1) assms(4)]) simp
  from frame_socket.destroy_fds [OF assms(1) this d] s d show ?thesis by (simp add: GenericServer_dtor_def)
qed

end

section \<open>The servers that the factories make\<close>

lemma unix_created:
  assumes "fd_sys S fds" "length name \<le> 107"
    and "AfUnixFactory_createServer S obj name sz k = Some (Some (base, st), k0)"
  shows "\<exists>s ef k1. LinxEventFd S k1 = (ef, k0) \<and> st = server_init s (LinxQueue ef (to_int32 (int sz))) k0
    \<and> (us_fd s < 0 \<or> us_fd s \<noteq> efd ef) \<and> server_owns (AfUnixSocket_ops S e) fds unix_good (fds k) st"
proof -
  have o: "owns (AfUnixSocket_ops S e) fds (fds k) (AfUnixSocket name) k" "unix_good (AfUnixSocket name)"
    using assms(2) by (simp_all add: owns_def own_unix AfUnixSocket_def unix_good_def)
  obtain r s k1 where r: "AfUnixSocket_open S (AfUnixSocket name) k = Some (r, s, k1)"
    and w: "owns (AfUnixSocket_ops S e) fds (fds k) s k1" "unix_good s"
    using AfUnixSocket_open_owns [OF assms(1) o] by blast
  obtain ef k2 where ef: "LinxEventFd S k1 = (ef, k2)" by fastforce
  from assms(3) r ef have st: "st = server_init s (LinxQueue ef (to_int32 (int sz))) k2" "k0 = k2"
    by (auto simp: AfUnixFactory_createServer_def GenericServer_def GenericSimpleServer_def Let_def split: if_splits)
  have "us_fd s < 0 \<or> us_fd s \<noteq> efd ef" and "server_owns (AfUnixSocket_ops S e) fds unix_good (fds k) st"
    using w eventfd_fds [OF assms(1) ef]
    by (auto simp: server_owns_def st server_init_def LinxQueue_def queue_own_def owns_def own_unix split: if_splits)
  with ef st show ?thesis by blast
qed

lemma udp_created:
  assumes "fd_sys S fds" "UdpFactory_createServer S obj port sz k = Some (Some (base, st), k0)"
  shows "\<exists>s ef k1. LinxEventFd S k1 = (ef, k0) \<and> st = server_init s (LinxQueue ef (to_int32 (int sz))) k0
    \<and> (udp_fd s < 0 \<or> udp_fd s \<noteq> efd ef) \<and> server_owns (UdpSocket_ops S e) fds (\<lambda>_. True) (fds k) st"
proof -
  obtain r s k1 where o: "UdpSocket_open S UdpSocket k = (r, s, k1)" by (metis prod_cases3)
  obtain b k2 where b: "UdpSocket_bind S port ''0.0.0.0'' s k1 = (b, k2)" by fastforce
  obtain ef k3 where ef: "LinxEventFd S k2 = (ef, k3)" by fastforce
  from assms(2) o b ef have r: "0 \<le> r" and st: "st = server_init s (LinxQueue ef (to_int32 (int sz))) k3" "k0 = k3"
    by (auto simp: UdpFactory_createServer_def GenericServer_def GenericSimpleServer_def Let_def split: if_splits)
  have "udp_fd s < 0 \<or> udp_fd s \<noteq> efd ef" and "server_owns (UdpSocket_ops S e) fds (\<lambda>_. True) (fds k) st"
    using r udp_open_fresh [OF assms(1) o] udp_setup_fds(1) [OF assms(1) b] eventfd_fds [OF assms(1) ef]
    by (auto simp: server_owns_def st server_init_def LinxQueue_def queue_own_def owns_def own_udp split: if_splits)
  with ef st show ?thesis by blast
qed

context events_sys
begin

lemma evc_sockets: "evc_socket (AfUnixSocket_ops S e) S evc" "evc_socket (UdpSocket_ops S e) S evc"
  by (rule unix_evc.evc_socket_axioms, rule udp_evc.evc_socket_axioms)

end

context fd_frame_sys
begin

lemma frame_sockets:
  "frame_socket (AfUnixSocket_ops S e) fds unix_good S" "frame_socket (UdpSocket_ops S e) fds (\<lambda>_. True) S"
  by (rule unix_frame.frame_socket_axioms, rule udp_frame.frame_socket_axioms)

end

text \<open>What the two kinds of server have in common, from the state that the factory returned.\<close>

lemma created_lifecycle:
  assumes "evc_socket V S evc" "frame_socket V fds good S"
    and env: "\<And>k k'. env k k' \<Longrightarrow> evc k' = evc k \<and> fds k' = fds k"
    and "LinxEventFd S k1 = (ef, k0)" "st0 = server_init s (LinxQueue ef (to_int32 (int sz))) k0" "sz < 2147483648"
    and "so_getFd V s < 0 \<or> so_getFd V s \<noteq> efd ef" "server_owns V fds good B st0"
    and "server_run V S self env st0 tr st" "sv_stop st = NotStopping"
  shows "\<exists>k'. GenericServer_dtor V S self st = Some k' \<and> fds k' = B"
proof -
  have gen: "generic_socket V" and ev: "eventfd_sys S evc"
    using assms(1) by (simp_all add: evc_socket_def)
  have "to_int32 (int sz) = int sz" using assms(6) by (simp add: to_int32_id)
  with assms(5,6) eventfd_sys.fresh_queue_ok [OF ev assms(4), of "int sz"] assms(7)
  have "server_counted V evc st0" by (simp add: server_counted_def server_init_def LinxQueue_def)
  then have "server_counted V evc st"
    using evc_socket.run_counted [OF assms(1,9)] env by blast
  moreover have "server_inv V self st"
    using generic_socket.run_inv [OF gen assms(9)] generic_socket.init_inv [OF gen] assms(5) by blast
  moreover have "server_owns V fds good B st"
    using frame_socket.run_owns [OF assms(2,9,8)] env by blast
  ultimately show ?thesis using evc_socket.lifecycle [OF assms(1,2)] assms(10) by blast
qed

section \<open>No step fails\<close>

text \<open>
  The worker's next action returns: it reads no null pointer, no buffer out of bounds, and none of its
  assertions fails.
\<close>

definition worker_defined ::
  "('i, 's, 'k) socket_ops \<Rightarrow> 'k sys \<Rightarrow> nat \<Rightarrow> ('s, 'k) server_state \<Rightarrow> bool" where
  "worker_defined V S self st =
     (case sv_worker st of
        AtReceive \<Rightarrow> task_receive V st \<noteq> None
      | AtDispatch m f \<Rightarrow> task_dispatch V S self m f st \<noteq> None
      | _ \<Rightarrow> True)"

text \<open>What the worker holds is a message and the identifier of a sender that can be answered.\<close>

definition dispatch_typed ::
  "('i, 's, 'k) socket_ops \<Rightarrow> ('i \<Rightarrow> bool) \<Rightarrow> ('s, 'k) server_state \<Rightarrow> bool" where
  "dispatch_typed V can st \<longleftrightarrow>
     (\<forall>m f. sv_worker st = AtDispatch m f \<longrightarrow> (\<exists>msg i. m = Some msg \<and> f = Some (so_upcast V i) \<and> can i))"

lemma task_dispatch_worker: "task_dispatch V S self m f st = Some (lab, st') \<Longrightarrow> sv_worker st' = AtReceive"
  by (auto simp: task_dispatch_def Let_def split: bind_splits if_splits prod.splits)

context timed_socket
begin

lemma step_typed:
  assumes "dispatch_typed V can_send st" "server_step V S self env st lab st'"
  shows "dispatch_typed V can_send st'"
  using assms(2)
proof cases
  case worker_receive
  obtain ret m f k' where r: "so_receive V True True INFINITE_TIMEOUT (sv_socket st) (sv_kernel st) = Some ((ret, m, f), k')"
    and st': "sv_worker st' = (if ret = 0 then TaskEnded else if ret < 0 then TaskEnded else AtDispatch m f)"
    using worker_receive(3) by (auto simp: task_receive_def split: bind_splits)
  show ?thesis
  proof (cases "0 < ret")
    case True
    with receive_positive [OF r] obtain msg i where mf: "m = Some msg" "f = Some (so_upcast V i)" by auto
    with sender_reachable [of True True] r st' True show ?thesis by (auto simp: dispatch_typed_def)
  qed (use st' in \<open>simp add: dispatch_typed_def\<close>)
next
  case (worker_dispatch m f)
  from task_dispatch_worker [OF worker_dispatch(2)] show ?thesis by (simp add: dispatch_typed_def)
next
  case (user_start b)
  with assms(1) show ?thesis by (auto simp: GenericServer_start_def dispatch_typed_def split: if_splits)
next
  case user_stop_queue
  with assms(1) show ?thesis by (auto simp: stop_queue_def dispatch_typed_def split: bind_splits)
qed (use assms(1) in \<open>auto simp: dispatch_typed_def stop_close_def stop_join_def split: prod.splits\<close>)

lemma run_typed:
  "server_run V S self env st tr st' \<Longrightarrow> dispatch_typed V can_send st \<Longrightarrow> dispatch_typed V can_send st'"
  by (induction rule: server_run.induct) (auto intro: step_typed)

lemma typed_defined:
  assumes "dispatch_typed V can_send st"
  shows "worker_defined V S self st"
proof (cases "sv_worker st")
  case AtReceive
  obtain r k where "so_receive V True True INFINITE_TIMEOUT (sv_socket st) (sv_kernel st) = Some (r, k)"
    using receive_returns by fastforce
  with AtReceive show ?thesis by (auto simp: worker_defined_def task_receive_def split: prod.splits)
next
  case (AtDispatch m f)
  then obtain msg i where mf: "m = Some msg" "f = Some (so_upcast V i)" "can_send i"
    using assms by (auto simp: dispatch_typed_def)
  show ?thesis
  proof (cases "rm_reqId msg = IPC_PING_REQ")
    case True
    have "fits (RawM (RawMessage IPC_PING_RSP))" by (simp add: fits_def RawMessage_def)
    from send_returns [OF this mf(3)] AtDispatch mf True show ?thesis
      by (auto simp: worker_defined_def task_dispatch_def split: bind_splits)
  next
    case False
    with AtDispatch mf show ?thesis by (simp add: worker_defined_def task_dispatch_def Let_def split: prod.splits)
  qed
qed (simp_all add: worker_defined_def)

end

context names_sys
begin

lemma unix_timed_socket: "timed_socket (AfUnixSocket_ops S e) S time (\<lambda>i. length (ui_value i) \<le> 107)"
  by (rule unix_timed.timed_socket_axioms)

lemma udp_timed_socket: "timed_socket (UdpSocket_ops S e) S time (\<lambda>_. True)"
  by (rule udp_timed.timed_socket_axioms)

end

section \<open>What is left after a stop\<close>

text \<open>
  A schedule for the server as a function, to evaluate concrete runs.
\<close>

datatype server_choice =
    WReceive | WDispatch | UStart | UStopClose | UStopQueue | UStopJoin | UGet "u32 list" "iidentifier option"

fun server_do :: "('i, 's, 'k) socket_ops \<Rightarrow> 'k sys \<Rightarrow> nat \<Rightarrow> server_choice \<Rightarrow> ('s, 'k) server_state
    \<Rightarrow> (queue_label \<times> ('s, 'k) server_state) option" where
  "server_do V S self WReceive st =
     (if sv_worker st = AtReceive then map_option (Pair []) (task_receive V st) else None)"
| "server_do V S self WDispatch st =
     (case sv_worker st of AtDispatch m f \<Rightarrow> task_dispatch V S self m f st | _ \<Rightarrow> None)"
| "server_do V S self UStart st = (if sv_stop st = NotStopping then Some ([], snd (GenericServer_start st)) else None)"
| "server_do V S self UStopClose st =
     (if joinable st \<and> sv_stop st = NotStopping then Some ([], stop_close V st) else None)"
| "server_do V S self UStopQueue st =
     (if sv_stop st = SocketClosed then map_option (Pair [(OpStop, Done)]) (stop_queue S st) else None)"
| "server_do V S self UStopJoin st =
     (if sv_stop st = QueueStopped \<and> sv_worker st = TaskEnded then Some ([], stop_join st) else None)"
| "server_do V S self (UGet sigsel fr) st =
     (let (r, q, k) = getMessage S sigsel fr (sv_queue st) (sv_kernel st)
      in Some ([(OpGet sigsel fr, Got r)], st\<lparr>sv_queue := q, sv_kernel := k\<rparr>))"

fun server_exec :: "('i, 's, 'k) socket_ops \<Rightarrow> 'k sys \<Rightarrow> nat \<Rightarrow> server_choice list \<Rightarrow> ('s, 'k) server_state
    \<Rightarrow> (queue_label \<times> ('s, 'k) server_state) option" where
  "server_exec V S self [] st = Some ([], st)"
| "server_exec V S self (c # cs) st =
     (case server_do V S self c st of
        None \<Rightarrow> None
      | Some (lab, st1) \<Rightarrow> map_option (\<lambda>(tr, st2). (lab @ tr, st2)) (server_exec V S self cs st1))"

lemma server_do_step: "server_do V S self c st = Some (lab, st') \<Longrightarrow> server_step V S self env st lab st'"
  by (cases c)
    (auto intro: server_step.intros server_step.user_start [of _ True] simp: GenericServer_start_def
      split: if_splits worker_pc.splits prod.splits)

lemma server_exec_from:
  "server_exec V S self cs st1 = Some (tr, st2) \<Longrightarrow> server_run V S self env st tr0 st1 \<Longrightarrow>
    server_run V S self env st (tr0 @ tr) st2"
proof (induction cs arbitrary: st1 tr tr0)
  case (Cons c cs)
  then obtain lab st3 tr1 where s: "server_do V S self c st1 = Some (lab, st3)"
    and r: "server_exec V S self cs st3 = Some (tr1, st2)" and tr: "tr = lab @ tr1"
    by (auto split: option.splits prod.splits)
  from Cons.IH [OF r server_run.run_step [OF Cons.prems(2) server_do_step [OF s]]] tr show ?case by simp
qed simp

lemma server_exec_run: "server_exec V S self cs st = Some (tr, st') \<Longrightarrow> server_run V S self env st tr st'"
  using server_exec_from [OF _ server_run.run_refl] by fastforce

text \<open>
  Once the queue is stopped, it holds at most the one message that the worker was about to add when it
  was stopped.
\<close>

definition residue :: "('s, 'k) server_state \<Rightarrow> nat" where
  "residue st = length (q_queue (sv_queue st)) + (case sv_worker st of AtDispatch m f \<Rightarrow> 1 | _ \<Rightarrow> 0)"

lemma residue_mono: "queue_step S (OpGet sg fr) (q, k) = Some (out, q', k') \<Longrightarrow> length (q_queue q') \<le> length (q_queue q)"
proof -
  assume s: "queue_step S (OpGet sg fr) (q, k) = Some (out, q', k')"
  obtain r ms where t: "mb_take (queue_match sg fr) (q_queue q) = (r, ms)" by fastforce
  with queue_step_simulates(1) [OF s] have "ms = q_queue q'" by (auto simp: mailbox_of_def)
  with arg_cong [OF mb_take_mset [OF t], of size] show ?thesis by auto
qed

context generic_socket
begin

lemma step_residue:
  assumes "server_inv V self st" "server_step V S self env st lab st'"
    and "q_stopped (sv_queue st) \<longrightarrow> residue st \<le> 1" "q_stopped (sv_queue st')"
  shows "residue st' \<le> 1"
  using assms(2)
proof cases
  case worker_receive
  have "so_getFd V (sv_socket st) < 0 \<or> \<not> q_stopped (sv_queue st)" using assms(1) by (auto simp: server_inv_def)
  moreover have "sv_queue st' = sv_queue st" using worker_receive(3) by (auto simp: task_receive_def split: bind_splits)
  ultimately have "st' = st\<lparr>sv_worker := TaskEnded\<rparr>" using worker_receive(3) receive_on_closed assms(4) by auto
  with assms(3,4) worker_receive(2) show ?thesis by (simp add: residue_def)
next
  case (worker_dispatch m f)
  note w = task_dispatch_worker [OF worker_dispatch(2)] and i = dispatch_inv [OF assms(1) worker_dispatch]
  have "length (q_queue (sv_queue st')) \<le> Suc (length (q_queue (sv_queue st)))"
  proof -
    from step_queue [OF assms(2)] show ?thesis
    proof
      assume "\<exists>x out. lab = [(x, out)] \<and> queue_step S x (sv_queue st, sv_kernel st) = Some (out, sv_queue st', sv_kernel st')"
      then obtain x out where s: "queue_step S x (sv_queue st, sv_kernel st) = Some (out, sv_queue st', sv_kernel st')" by blast
      show ?thesis
      proof (cases x)
        case (OpAdd c)
        with queue_step_OpAdd [OF s [unfolded OpAdd]] show ?thesis by auto
      next
        case (OpGet sg fr)
        with residue_mono [OF s [unfolded OpGet]] show ?thesis by simp
      qed (use queue_step_simulates(1) [OF s] in \<open>auto simp: mailbox_of_def split: if_splits\<close>)
    qed simp
  qed
  with assms(3,4) i w worker_dispatch(1) show ?thesis by (auto simp: residue_def)
next
  case (user_get sg fr r q k)
  then have s: "queue_step S (OpGet sg fr) (sv_queue st, sv_kernel st) = Some (Got r, q, k)" by simp
  from queue_step_simulates(1) [OF s] have "q_stopped q = q_stopped (sv_queue st)"
    by (auto simp: mailbox_of_def split: prod.splits)
  with residue_mono [OF s] assms(3,4) user_get(2) show ?thesis
    by (auto simp: residue_def split: worker_pc.splits)
next
  case (user_start b)
  with assms(3,4) show ?thesis by (auto simp: GenericServer_start_def residue_def joinable_def split: if_splits)
next
  case user_stop_queue
  then have "q_queue (sv_queue st') = []"
    by (auto simp: stop_queue_def LinxQueue_stop_def split: bind_splits option.splits)
  then show ?thesis by (auto simp: residue_def split: worker_pc.splits)
next
  case user_stop_join
  with assms(3,4) show ?thesis by (auto simp: stop_join_def residue_def split: worker_pc.splits)
qed (use assms(3,4) in \<open>auto simp: residue_def stop_close_def split: prod.splits\<close>)

lemma run_residue:
  "server_run V S self env st tr st' \<Longrightarrow> server_inv V self st \<Longrightarrow>
    (q_stopped (sv_queue st) \<longrightarrow> residue st \<le> 1) \<Longrightarrow> (q_stopped (sv_queue st') \<longrightarrow> residue st' \<le> 1)"
proof (induction rule: server_run.induct)
  case (run_step st tr st' lab st'')
  from step_residue [OF run_inv [OF run_step.hyps(1) run_step.prems(1)] run_step.hyps(2)] run_step show ?case by blast
qed simp

end

text \<open>The reference kernel with an eventfd and the socket \<open>demo_unix_socket\<close>, at which a ping and a message of the peer \<open>cli\<close> wait.\<close>

definition demo_echo_kernel :: ref_kernel where
  "demo_echo_kernel = demo_two_kernel\<lparr>rk_efds := [(5, 0)]\<rparr>"

section \<open>Properties\<close>





text \<open>
  C16. What \<open>receive\<close> can still return after \<open>stop\<close>: from the moment the queue is stopped, in every
  interleaving, it holds at most one message, the one that the worker was about to add; and one it
  can be, because \<open>add\<close> does not look at the stop flag and \<open>stop\<close> empties the queue before it joins
  the worker.
\<close>

theorem server_after_stop:
  assumes "generic_socket V" and "server_run V S self env (server_init s (LinxQueue e sz) k) tr st"
    and "q_stopped (sv_queue st)"
  shows "length (q_queue (sv_queue st)) \<le> 1"
proof -
  have "residue st \<le> 1"
    using generic_socket.run_residue [OF assms(1,2) generic_socket.init_inv [OF assms(1)]] assms(3)
    by (simp add: server_init_def LinxQueue_def)
  then show ?thesis by (simp add: residue_def)
qed

theorem server_after_stop_witness:
  "\<exists>tr st. server_run (AfUnixSocket_ops ref_sys LittleEndian) ref_sys 3 (\<lambda>_ _. False)
      (server_init demo_unix_socket (LinxQueue \<lparr>efd = 5\<rparr> 2) demo_echo_kernel) tr st
    \<and> \<not> joinable st \<and> q_stopped (sv_queue st) \<and> length (q_queue (sv_queue st)) = 1"
proof -
  let ?st0 = "server_init demo_unix_socket (LinxQueue \<lparr>efd = 5\<rparr> 2) demo_echo_kernel"
  have "map_option (\<lambda>(tr, st). (joinable st, q_stopped (sv_queue st), map lr_message (q_queue (sv_queue st))))
      (server_exec (AfUnixSocket_ops ref_sys LittleEndian) ref_sys 3
        [UStart, WReceive, WDispatch, WReceive, UStopClose, UStopQueue, WDispatch, WReceive, UStopJoin] ?st0)
    = Some (False, True, [\<lparr>rm_reqId = 7, rm_payload = [1]\<rparr>])"
    by code_simp
  then obtain tr st where e: "server_exec (AfUnixSocket_ops ref_sys LittleEndian) ref_sys 3
        [UStart, WReceive, WDispatch, WReceive, UStopClose, UStopQueue, WDispatch, WReceive, UStopJoin] ?st0 = Some (tr, st)"
    and st: "\<not> joinable st" "q_stopped (sv_queue st)"
      "map lr_message (q_queue (sv_queue st)) = [\<lparr>rm_reqId = 7, rm_payload = [1]\<rparr>]" by auto
  note r = server_exec_run [OF e, of "\<lambda>_ _. False"]
  from st(3) have "q_queue (sv_queue st) \<noteq> []" by auto
  with server_after_stop [OF unix_socket.generic_socket_axioms r st(2)]
  have "length (q_queue (sv_queue st)) = 1" by (cases "q_queue (sv_queue st)") auto
  with r st(1,2) show ?thesis by (intro exI conjI)
qed

end
