(* ===== verification/PeerWorld.thy ===== *)
theory PeerWorld
  imports ServerLifecycle
begin

text \<open>
  A client and its server on one reference kernel, as far as it does not matter what the server is. The
  world of the client contains the kernel; every system call of the client acts on it, and while the
  client waits in \<open>poll\<close> the server serves what has arrived. The lemmas follow the calls of the client
  over any such world, given what the server answers.
\<close>

section \<open>Addresses\<close>

text \<open>The address of an abstract name as the kernel keeps it, and as it is passed in calls.\<close>

definition bound_name :: "string \<Rightarrow> sockaddr" where
  "bound_name name = SunAddr (CHR 0x00 # name) (3 + length name)"

definition name_address :: "string \<Rightarrow> sockaddr" where
  "name_address name = SunAddr (CHR 0x00 # name @ replicate (107 - length name) (CHR 0x00)) (3 + length name)"

definition plain_name :: "string \<Rightarrow> bool" where
  "plain_name name \<longleftrightarrow> CHR 0x00 \<notin> set name \<and> length name \<le> 106"

lemma addr_key_name: "length name \<le> 107 \<Longrightarrow> addr_key (name_address name) = bound_name name"
  by (simp add: name_address_def bound_name_def)

lemma addr_view_name: "length name \<le> 107 \<Longrightarrow> addr_view (Some (bound_name name)) = name_address name"
  by (simp add: name_address_def bound_name_def)

lemma addr_receives_name: "addr_receives (bound_name name) (bound_name name') \<longleftrightarrow> name = name'"
  by (auto simp: bound_name_def)

lemma sun_sender_name: "plain_name name \<Longrightarrow> sun_sender (sun_view (name_address name)) = Some (UnixId (UnixInfo name))"
proof -
  assume p: "plain_name name"
  have "sun_view (name_address name) = CHR 0x00 # name @ replicate (Suc (106 - length name)) (CHR 0x00)"
    using p by (simp add: plain_name_def name_address_def replicate_append_same take_Cons' Suc_diff_le)
  with p show ?thesis
    using c_string_at_sun_path [of name "Suc (106 - length name)"] by (simp add: sun_sender_def plain_name_def)
qed

section \<open>Single calls on the reference kernel\<close>

text \<open>A socket with a datagram of a named peer hands it out whole.\<close>

lemma ref_receive:
  assumes "map_of (rk_socks k) fd = Some \<lparr>rs_addr = a, rs_in = (wire e (RawM m), name_address name) # rest, rs_shut = sh\<rparr>"
    and "plain_name name" "0 \<le> fd" "us_fd s = fd"
  shows "AfUnixSocket_receive ref_sys e True True t s k =
    Some ((4 + int (length (rm_payload m)), Some m, Some (UnixId (UnixInfo name))),
      k\<lparr>rk_clock := rk_clock k + 1, rk_socks := AList.update fd \<lparr>rs_addr = a, rs_in = rest, rs_shut = sh\<rparr> (rk_socks k)\<rparr>)"
  using assms
  by (simp add: AfUnixSocket_receive_eq dgram_receive_def ref_sys_def ref_poll_def ref_fionread_def ref_recvfrom_def
      wire_RawM deserialize_wire sun_sender_name Let_def)

text \<open>
  The kernel with the server's socket 4 and the client's socket, both bound: their names, the client's
  descriptor and the eventfds are in \<open>peers\<close>, the clock and the two queues of datagrams are arguments.
\<close>

record peers =
  pr_server :: string
  pr_client :: string
  pr_fd :: int
  pr_efds :: "(int \<times> nat) list"

definition pair_kernel :: "peers \<Rightarrow> int \<Rightarrow> (u8 list \<times> sockaddr) list \<Rightarrow> (u8 list \<times> sockaddr) list \<Rightarrow> ref_kernel" where
  "pair_kernel p c si ci = \<lparr>rk_clock = c, rk_efds = pr_efds p,
     rk_socks = [(4, \<lparr>rs_addr = Some (bound_name (pr_server p)), rs_in = si, rs_shut = False\<rparr>),
                 (pr_fd p, \<lparr>rs_addr = Some (bound_name (pr_client p)), rs_in = ci, rs_shut = False\<rparr>)]\<rparr>"

definition plain_peers :: "peers \<Rightarrow> bool" where
  "plain_peers p \<longleftrightarrow> plain_name (pr_server p) \<and> plain_name (pr_client p) \<and> pr_server p \<noteq> pr_client p \<and> 4 < pr_fd p"

lemma pair_sendto:
  assumes "plain_peers p"
  shows "ref_sendto (pr_fd p) d (name_address (pr_server p)) (pair_kernel p c si ci)
      = (int (length d), pair_kernel p c (si @ [(d, name_address (pr_client p))]) ci)"
    and "ref_sendto 4 d (name_address (pr_client p)) (pair_kernel p c si ci)
      = (int (length d), pair_kernel p c si (ci @ [(d, name_address (pr_server p))]))"
  using assms
  by (simp_all add: ref_sendto_def pair_kernel_def addr_key_name addr_view_name addr_receives_name plain_peers_def
      plain_name_def del: addr_view.simps)

text \<open>The kernel before the client has made its socket.\<close>

definition lone_kernel :: "peers \<Rightarrow> int \<Rightarrow> ref_kernel" where
  "lone_kernel p c = \<lparr>rk_clock = c, rk_efds = pr_efds p,
     rk_socks = [(4, \<lparr>rs_addr = Some (bound_name (pr_server p)), rs_in = [], rs_shut = False\<rparr>)]\<rparr>"

text \<open>The socket object of a name that has been opened as descriptor \<open>fd\<close>.\<close>

definition named_socket :: "int \<Rightarrow> string \<Rightarrow> af_unix_socket" where
  "named_socket fd name =
     \<lparr>us_fd = fd, us_address = CHR 0x00 # name @ replicate (107 - length name) (CHR 0x00), us_socketName = name\<rparr>"

lemma named_socket_fd [simp]: "us_fd (named_socket fd name) = fd"
  by (simp add: named_socket_def)

text \<open>\<open>open\<close> on any kernel that gives the descriptor and binds the name.\<close>

lemma open_accepted:
  assumes "plain_name name" "0 \<le> fd" "sys_socket S AF_UNIX k = (fd, k1)" "sys_bind S fd (name_address name) k1 = (0, k2)"
  shows "AfUnixSocket_open S (AfUnixSocket name) k = Some (0, named_socket fd name, k2)"
  using assms
  by (simp add: AfUnixSocket_open_def AfUnixSocket_def createAddress_zeroed plain_name_def name_address_def named_socket_def
      Let_def)

lemma server_opens:
  assumes "plain_name (pr_server p)"
  shows "AfUnixSocket_open ref_sys (AfUnixSocket (pr_server p)) ref_init
    = Some (0, named_socket 4 (pr_server p), lone_kernel (p\<lparr>pr_efds := []\<rparr>) 0)"
  using assms
  by (intro open_accepted [where ?k1.0 = "snd (ref_socket_new AF_UNIX ref_init)"])
    (simp_all add: ref_sys_def ref_socket_new_def ref_fresh_fd_def ref_init_def ref_bind_def lone_kernel_def
      addr_key_name plain_name_def Let_def)

lemma lone_eventfd: "LinxEventFd ref_sys (lone_kernel (p\<lparr>pr_efds := []\<rparr>) c) = (\<lparr>efd = 5\<rparr>, lone_kernel (p\<lparr>pr_efds := [(5, 0)]\<rparr>) c)"
  by (simp add: LinxEventFd_def ref_sys_def ref_eventfd_def ref_fresh_fd_def lone_kernel_def Let_def)

lemma lone_fds: "ref_fds (lone_kernel p c) = {fd. 0 \<le> fd \<and> (fd = 4 \<or> fd \<in> fst ` set (pr_efds p))}"
  by (auto simp: ref_fds_def lone_kernel_def map_of_eq_None_iff split: if_splits)

lemma getSize_of_nat: "of_nat (length (wire e m)) = getSize m"
  by (simp add: getSize_def getPayloadSize_eq [of m e] length_wire)

text \<open>Sending on any kernel that takes the datagram whole.\<close>

lemma send_accepted:
  assumes "sys_sendto S (us_fd s) (wire e m) (name_address name) k = (int (length (wire e m)), k')"
    and "fits m" "plain_name name" "0 \<le> us_fd s"
  shows "AfUnixSocket_send S e m (UnixInfo name) s k = Some (0, k')"
  using assms
  by (simp add: AfUnixSocket_send_wire plain_name_def getSize_of_nat flip: name_address_def)

text \<open>A server and a client of it, by the names that the factories give them.\<close>

definition named_peers :: "string \<Rightarrow> nat \<Rightarrow> (int \<times> nat) list \<Rightarrow> peers" where
  "named_peers name rand ef = \<lparr>pr_server = name, pr_client = ''client_'' @ to_string rand @ ''_'' @ name,
     pr_fd = (if ef = [] then 5 else 6), pr_efds = ef\<rparr>"

lemma named_peers_sel [simp]:
  "pr_server (named_peers name rand ef) = name" "pr_efds (named_peers name rand ef) = ef"
  "pr_client (named_peers name rand ef) = ''client_'' @ to_string rand @ ''_'' @ name"
  by (simp_all add: named_peers_def)

lemma named_peers_plain:
  assumes "rand \<le> 65535" "CHR 0x00 \<notin> set name" "length name \<le> 93"
  shows "plain_peers (named_peers name rand ef)"
proof -
  have "length (''client_'' @ to_string rand @ ''_'' @ name) \<noteq> length name" by simp
  then have "''client_'' @ to_string rand @ ''_'' @ name \<noteq> name" by metis
  then show ?thesis
    using assms length_to_string [of rand 4] to_string_plain(1) by (auto simp: named_peers_def plain_peers_def plain_name_def)
qed

lemma named_peers_fd:
  "ef = [] \<or> ef = [(5, n)] \<Longrightarrow> pr_fd (named_peers name rand ef) = ref_fresh_fd (lone_kernel (named_peers name rand ef) c)"
  by (auto simp: named_peers_def ref_fresh_fd_def lone_kernel_def)

text \<open>The calls of the server.\<close>

lemma pair_receive:
  assumes "plain_peers p" "us_fd s = 4"
  shows "AfUnixSocket_receive ref_sys e True True t s (pair_kernel p c ((wire e (RawM m), name_address (pr_client p)) # si) ci)
    = Some ((4 + int (length (rm_payload m)), Some m, Some (UnixId (UnixInfo (pr_client p)))), pair_kernel p (c + 1) si ci)"
  using assms ref_receive [of "pair_kernel p c ((wire e (RawM m), name_address (pr_client p)) # si) ci" 4 _ e m
      "pr_client p" si False s t]
  by (simp add: pair_kernel_def plain_peers_def)

lemma pair_send:
  assumes "plain_peers p" "us_fd s = 4" "fits m"
  shows "AfUnixSocket_send ref_sys e m (UnixInfo (pr_client p)) s (pair_kernel p c si ci)
    = Some (0, pair_kernel p c si (ci @ [(wire e m, name_address (pr_server p))]))"
  by (rule send_accepted) (use assms pair_sendto in \<open>simp_all add: ref_sys_def plain_peers_def\<close>)

lemma pair_receive_nothing:
  assumes "us_fd s = 4"
  shows "\<exists>ret c'. ret \<le> 0 \<and> AfUnixSocket_receive ref_sys e True True t s (pair_kernel p c [] ci)
    = Some ((ret, None, None), pair_kernel p c' [] ci)"
proof (cases "t < 0")
  case True
  with assms show ?thesis
    by (intro exI [of _ "- 2"] exI [of _ c])
      (simp add: AfUnixSocket_receive_eq dgram_receive_def ref_sys_def ref_poll_def pair_kernel_def)
next
  case False
  with assms show ?thesis
    by (intro exI [of _ 0] exI [of _ "c + t * 1000000"])
      (simp add: AfUnixSocket_receive_eq dgram_receive_def ref_sys_def ref_poll_def pair_kernel_def)
qed

lemma pair_events:
  assumes "pr_efds p = [(5, 0)]"
  shows "writeEvent ref_sys \<lparr>efd = 5\<rparr> (pair_kernel p c si ci) = (0, pair_kernel (p\<lparr>pr_efds := [(5, 1)]\<rparr>) c si ci)"
    and "readEvent ref_sys \<lparr>efd = 5\<rparr> (pair_kernel (p\<lparr>pr_efds := [(5, 1)]\<rparr>) c si ci) = (0, pair_kernel p c si ci)"
  using assms
  by (simp_all add: writeEvent_def readEvent_def ref_sys_def ref_write_def ref_read_def pair_kernel_def evc_max_def)

lemma pair_now: "ref_now (pair_kernel p c si ci) = (c, pair_kernel p (c + 1) si ci)"
  by (simp add: ref_now_def pair_kernel_def)

lemma pair_clock:
  "\<exists>dl c'. Deadline_at ref_sys t (pair_kernel p c si ci) = (dl, pair_kernel p c' si ci)"
  "\<exists>r c'. getRemainingTimeMs_at ref_sys d (pair_kernel p c si ci) = (r, pair_kernel p c' si ci)"
  "\<exists>b c'. isExpired_at ref_sys d (pair_kernel p c si ci) = (b, pair_kernel p c' si ci)"
  by (simp_all add: Deadline_at_def getRemainingTimeMs_at_def isExpired_at_def ref_sys_def pair_now) blast+

lemma pair_fds: "ref_fds (pair_kernel p c si ci) = {fd. 0 \<le> fd \<and> (fd = 4 \<or> fd = pr_fd p \<or> fd \<in> fst ` set (pr_efds p))}"
  by (auto simp: ref_fds_def pair_kernel_def map_of_eq_None_iff split: if_splits)

lemma RawMessage_sel: "rm_reqId (RawMessage r) = r" "rm_payload (RawMessage r) = []"
  by (simp_all add: RawMessage_def)

section \<open>A kernel inside a world\<close>

definition in_kernel ::
  "('w \<Rightarrow> ref_kernel) \<Rightarrow> (ref_kernel \<Rightarrow> 'w \<Rightarrow> 'w) \<Rightarrow> (ref_kernel \<Rightarrow> 'a \<times> ref_kernel) \<Rightarrow> 'w \<Rightarrow> 'a \<times> 'w" where
  "in_kernel get put f w = (let (a, k) = f (get w) in (a, put k w))"

text \<open>
  The kernel as the client sees it: \<open>serve\<close> is what the server does while the client waits. \<open>FIONREAD\<close>
  stores an \<open>int\<close>.
\<close>

definition embedded_sys :: "('w \<Rightarrow> ref_kernel) \<Rightarrow> (ref_kernel \<Rightarrow> 'w \<Rightarrow> 'w) \<Rightarrow> ('w \<Rightarrow> 'w) \<Rightarrow> 'w sys" where
  "embedded_sys get put serve = \<lparr>
     sys_now = in_kernel get put ref_now, sys_eventfd = in_kernel get put ref_eventfd,
     sys_write_u64 = (\<lambda>fd v. in_kernel get put (ref_write fd v)), sys_read_u64 = (\<lambda>fd. in_kernel get put (ref_read fd)),
     sys_socket = (\<lambda>d. in_kernel get put (ref_socket_new d)), sys_bind = (\<lambda>fd a. in_kernel get put (ref_bind fd a)),
     sys_poll_in = (\<lambda>fd t w. in_kernel get put (ref_poll fd t) (serve w)),
     sys_fionread = (\<lambda>fd. in_kernel get put (\<lambda>k. apfst (map_option (min 2147483647)) (ref_fionread fd k))),
     sys_recvfrom_un = (\<lambda>fd n. in_kernel get put (ref_recvfrom sun_view fd n)),
     sys_recvfrom_in = (\<lambda>fd n. in_kernel get put (ref_recvfrom sin_view fd n)),
     sys_sendto = (\<lambda>fd d a. in_kernel get put (ref_sendto fd d a)),
     sys_shutdown = (\<lambda>fd w. put (ref_shutdown fd (get w)) w),
     sys_close = (\<lambda>fd w. put (ref_close fd (get w)) w),
     sys_setsockopt = (\<lambda>fd opt. in_kernel get put (ref_setsockopt fd opt)),
     sys_inet_aton = inet_pton \<rparr>"

lemma embedded_sys_sel:
  "sys_now (embedded_sys get put serve) = in_kernel get put ref_now"
  "sys_socket (embedded_sys get put serve) d = in_kernel get put (ref_socket_new d)"
  "sys_bind (embedded_sys get put serve) fd a = in_kernel get put (ref_bind fd a)"
  "sys_poll_in (embedded_sys get put serve) fd t w = in_kernel get put (ref_poll fd t) (serve w)"
  "sys_fionread (embedded_sys get put serve) fd =
     in_kernel get put (\<lambda>k. apfst (map_option (min 2147483647)) (ref_fionread fd k))"
  "sys_recvfrom_un (embedded_sys get put serve) fd n = in_kernel get put (ref_recvfrom sun_view fd n)"
  "sys_sendto (embedded_sys get put serve) fd bs a = in_kernel get put (ref_sendto fd bs a)"
  "sys_close (embedded_sys get put serve) fd w = put (ref_close fd (get w)) w"
  by (simp_all add: embedded_sys_def)

lemma embedded_fionread: "sys_fionread (embedded_sys get put serve) fd w = (Some n, w') \<Longrightarrow> n < 2147483648"
  by (auto simp: embedded_sys_sel in_kernel_def apfst_def map_prod_def split: prod.splits)

locale embedded_kernel =
  fixes get :: "'w \<Rightarrow> ref_kernel" and put :: "ref_kernel \<Rightarrow> 'w \<Rightarrow> 'w" and serve :: "'w \<Rightarrow> 'w"
  assumes get_put: "get (put k w) = k"
    and put_put: "put k (put k' w) = put k w"
    and put_get: "put (get w) w = w"
begin

lemma client_opens:
  assumes "plain_peers p" "pr_fd p = ref_fresh_fd (lone_kernel p c)"
  shows "AfUnixSocket_open (embedded_sys get put serve) (AfUnixSocket (pr_client p)) (put (lone_kernel p c) w)
    = Some (0, named_socket (pr_fd p) (pr_client p), put (pair_kernel p c [] []) w)"
proof (rule open_accepted)
  have "addr_key (name_address (pr_client p)) = bound_name (pr_client p)"
    using assms(1) by (simp add: addr_key_name plain_peers_def plain_name_def)
  moreover have "bound_name (pr_server p) \<noteq> bound_name (pr_client p)"
    using assms(1) by (simp add: bound_name_def plain_peers_def)
  ultimately show "sys_bind (embedded_sys get put serve) (pr_fd p) (name_address (pr_client p))
      (put (snd (ref_socket_new AF_UNIX (lone_kernel p c))) w) = (0, put (pair_kernel p c [] []) w)"
    using assms
    by (simp add: embedded_sys_sel in_kernel_def get_put put_put ref_socket_new_def ref_bind_def Let_def flip: assms(2))
      (simp add: lone_kernel_def pair_kernel_def plain_peers_def)
qed (use assms in \<open>simp_all add: plain_peers_def embedded_sys_sel in_kernel_def get_put put_put ref_socket_new_def Let_def\<close>)

lemma client_created:
  assumes "plain_peers p" "pr_fd p = ref_fresh_fd (lone_kernel p c)"
    and "pr_client p = ''client_'' @ to_string rand @ ''_'' @ pr_server p"
  shows "AfUnixFactory_createClient (embedded_sys get put serve) obj rand (pr_server p) (put (lone_kernel p c) w)
    = Some (Some (GenericClient (pr_client p) obj (UnixInfo (pr_server p)), named_socket (pr_fd p) (pr_client p)),
        put (pair_kernel p c [] []) w)"
  unfolding AfUnixFactory_createClient_def Let_def assms(3) [symmetric] client_opens [OF assms(1,2)] by simp

lemma client_sends:
  assumes "plain_peers p" "us_fd s = pr_fd p" "fits m"
  shows "AfUnixSocket_send (embedded_sys get put serve) e m (UnixInfo (pr_server p)) s (put (pair_kernel p c si ci) w)
    = Some (0, put (pair_kernel p c (si @ [(wire e m, name_address (pr_client p))]) ci) w)"
  by (rule send_accepted)
    (use assms pair_sendto(1) [OF assms(1)] in
      \<open>simp_all add: embedded_sys_sel in_kernel_def get_put put_put plain_peers_def\<close>)

lemma client_receives:
  assumes "serve w = put (pair_kernel p c si ((wire e (RawM m), name_address (pr_server p)) # ci)) w'"
    and "plain_peers p" "length (rm_payload m) < 2147483644" "us_fd s = pr_fd p"
  shows "AfUnixSocket_receive (embedded_sys get put serve) e True True t s w
    = Some ((4 + int (length (rm_payload m)), Some m, Some (UnixId (UnixInfo (pr_server p)))), put (pair_kernel p (c + 1) si ci) w')"
proof -
  let ?K = "pair_kernel p c si ((wire e (RawM m), name_address (pr_server p)) # ci)"
  have p: "plain_name (pr_server p)" "pr_fd p \<noteq> 4" "0 \<le> pr_fd p" using assms(2) by (simp_all add: plain_peers_def)
  have k: "ref_poll (pr_fd p) t ?K = ((1, EOTHER 0), ?K)"
    "ref_fionread (pr_fd p) ?K = (Some (4 + length (rm_payload m)), ?K)"
    "ref_recvfrom sun_view (pr_fd p) (4 + length (rm_payload m)) ?K
      = (RecvOk (wire e (RawM m)) (sun_view (name_address (pr_server p))), pair_kernel p (c + 1) si ci)"
    using p(2,3) by (simp_all add: ref_poll_def ref_fionread_def ref_recvfrom_def pair_kernel_def wire_RawM Let_def)
  show ?thesis
    using assms(1,3,4) p k
    by (simp add: AfUnixSocket_receive_eq dgram_receive_def embedded_sys_sel in_kernel_def get_put put_put
        wire_RawM deserialize_wire sun_sender_name Let_def)
qed

lemma client_clock:
  "\<exists>dl c'. Deadline_at (embedded_sys get put serve) t (put (pair_kernel p c si ci) w) = (dl, put (pair_kernel p c' si ci) w)"
  "\<exists>r c'. getRemainingTimeMs_at (embedded_sys get put serve) d (put (pair_kernel p c si ci) w)
    = (r, put (pair_kernel p c' si ci) w)"
  by (simp_all add: Deadline_at_def getRemainingTimeMs_at_def embedded_sys_sel in_kernel_def get_put put_put pair_now) blast+

text \<open>
  The client's \<open>receive\<close>, when the server leaves one answer in the client's socket and takes the world
  from \<open>w\<close> to \<open>w'\<close>.
\<close>

lemma client_gets_answer:
  assumes "plain_peers p" "gc_identifier client = UnixInfo (pr_server p)" "us_fd s = pr_fd p"
    and "matchesSignalSelector (RawM m) sigsel" "length (rm_payload m) < 2147483644"
    and serve: "\<And>c. \<exists>c'. serve (put (pair_kernel p c si ci) w)
      = put (pair_kernel p c' si' ((wire e (RawM m), name_address (pr_server p)) # ci')) w'"
  shows "\<exists>c'. GenericClient_receive (AfUnixSocket_ops (embedded_sys get put serve) e) (embedded_sys get put serve) client t sigsel s
      (put (pair_kernel p c si ci) w) = Some (Some m, put (pair_kernel p c' si' ci') w')"
proof -
  let ?S = "embedded_sys get put serve"
  obtain dl c1 where d: "Deadline_at ?S t (put (pair_kernel p c si ci) w) = (dl, put (pair_kernel p c1 si ci) w)"
    using client_clock(1) by blast
  obtain r c2 where g: "getRemainingTimeMs_at ?S dl (put (pair_kernel p c1 si ci) w) = (r, put (pair_kernel p c2 si ci) w)"
    using client_clock(2) by blast
  obtain c3 where v: "serve (put (pair_kernel p c2 si ci) w)
      = put (pair_kernel p c3 si' ((wire e (RawM m), name_address (pr_server p)) # ci')) w'"
    using serve by blast
  show ?thesis
    using assms(2,4) d g client_receives [OF v assms(1,5,3)]
    by (simp add: GenericClient_receive_def client_receive_loop.simps client_predicate_def matchesFrom_def) blast
qed

lemma client_connects:
  assumes "plain_peers p" "gc_identifier client = UnixInfo (pr_server p)" "us_fd s = pr_fd p"
    and serve: "\<And>c. \<exists>c'. serve (put (pair_kernel p c [(wire e (RawM (RawMessage IPC_PING_REQ)), name_address (pr_client p))] []) w)
      = put (pair_kernel p c' [] [(wire e (RawM (RawMessage IPC_PING_RSP)), name_address (pr_server p))]) w"
  shows "\<exists>c'. GenericClient_connect (AfUnixSocket_ops (embedded_sys get put serve) e) (embedded_sys get put serve) client t s
      (put (pair_kernel p c [] []) w) = Some (True, put (pair_kernel p c' [] []) w)"
proof -
  let ?S = "embedded_sys get put serve" and ?ping = "RawMessage IPC_PING_REQ"
  let ?V = "AfUnixSocket_ops ?S e"
  obtain dl c1 where d: "Deadline_at ?S t (put (pair_kernel p c [] []) w) = (dl, put (pair_kernel p c1 [] []) w)"
    using client_clock(1) by blast
  have s: "GenericClient_send ?V client (RawM ?ping) s (put (pair_kernel p c1 [] []) w)
      = Some (0, put (pair_kernel p c1 [(wire e (RawM ?ping), name_address (pr_client p))] []) w)"
    using assms(2) client_sends [OF assms(1,3), of "RawM ?ping" e c1 "[]" "[]" w]
    by (simp add: GenericClient_send_def fits_RawM RawMessage_sel)
  have "\<exists>c'. GenericClient_receive ?V ?S client pingTimeout [IPC_PING_RSP] s
      (put (pair_kernel p c1 [(wire e (RawM ?ping), name_address (pr_client p))] []) w)
      = Some (Some (RawMessage IPC_PING_RSP), put (pair_kernel p c' [] []) w)"
    by (rule client_gets_answer [OF assms(1-3) _ _ serve]) (simp_all add: matchesSignalSelector_iff RawMessage_sel)
  with d s show ?thesis
    by (auto simp: GenericClient_connect_def client_connect_loop.simps)
qed

text \<open>A request and its answer.\<close>

lemma client_requests:
  assumes "plain_peers p" "gc_identifier client = UnixInfo (pr_server p)" "us_fd s = pr_fd p" "fits (RawM m)"
    and "matchesSignalSelector (RawM r) sigsel" "length (rm_payload r) < 2147483644"
    and serve: "\<And>c. \<exists>c'. serve (put (pair_kernel p c [(wire e (RawM m), name_address (pr_client p))] []) w)
      = put (pair_kernel p c' [] [(wire e (RawM r), name_address (pr_server p))]) w'"
  shows "\<exists>c'. GenericClient_sendReceive (AfUnixSocket_ops (embedded_sys get put serve) e) (embedded_sys get put serve) client
      (RawM m) t sigsel s (put (pair_kernel p c [] []) w) = Some (Some r, put (pair_kernel p c' [] []) w')"
proof -
  have "GenericClient_send (AfUnixSocket_ops (embedded_sys get put serve) e) client (RawM m) s (put (pair_kernel p c [] []) w)
      = Some (0, put (pair_kernel p c [(wire e (RawM m), name_address (pr_client p))] []) w)"
    using assms(2) client_sends [OF assms(1,3,4), of e c "[]" "[]" w] by (simp add: GenericClient_send_def)
  with client_gets_answer [OF assms(1-3,5,6) serve, of t c] show ?thesis
    by (simp add: GenericClient_sendReceive_def)
qed

end

section \<open>A session of a client\<close>

text \<open>A client that makes one request after the other, each with the signals that it takes for an answer.\<close>

fun requests ::
  "('i, 's, 'k) socket_ops \<Rightarrow> 'k sys \<Rightarrow> 'i generic_client \<Rightarrow> int \<Rightarrow> (raw_message \<times> u32 list) list \<Rightarrow> 's \<Rightarrow> 'k
     \<Rightarrow> (raw_message option list \<times> 'k) option" where
  "requests V S client t [] s k = Some ([], k)"
| "requests V S client t ((m, sigsel) # ms) s k =
     do {
       (r, k1) \<leftarrow> GenericClient_sendReceive V S client (RawM m) t sigsel s k;
       (rs, k2) \<leftarrow> requests V S client t ms s k1;
       Some (r # rs, k2)
     }"

text \<open>The answer \<open>g m\<close> to \<open>m\<close> is one that the client takes, and both are below 2 GiB.\<close>

definition good_request :: "(raw_message \<Rightarrow> raw_message) \<Rightarrow> raw_message \<times> u32 list \<Rightarrow> bool" where
  "good_request g = (\<lambda>(m, sigsel). rm_reqId m \<noteq> IPC_PING_REQ
     \<and> length (rm_payload m) < 2147483644 \<and> length (rm_payload (g m)) < 2147483644
     \<and> (sigsel = [] \<or> rm_reqId (g m) \<in> set sigsel))"

context embedded_kernel
begin

lemma client_requests_all:
  assumes "plain_peers p" "gc_identifier client = UnixInfo (pr_server p)" "us_fd s = pr_fd p"
    and "\<forall>x \<in> set ms. good_request g x"
    and "\<And>m c. m \<in> fst ` set ms \<Longrightarrow>
      \<exists>c'. serve (put (pair_kernel p c [(wire e (RawM m), name_address (pr_client p))] []) w)
        = put (pair_kernel p c' [] [(wire e (RawM (g m)), name_address (pr_server p))]) w"
  shows "\<exists>c'. requests (AfUnixSocket_ops (embedded_sys get put serve) e) (embedded_sys get put serve) client t ms s
      (put (pair_kernel p c [] []) w) = Some (map (Some \<circ> g \<circ> fst) ms, put (pair_kernel p c' [] []) w)"
  using assms(4,5)
proof (induction ms arbitrary: c)
  case (Cons x ms)
  obtain m sigsel where x: "x = (m, sigsel)" by (cases x)
  with Cons.prems(1) have g: "fits (RawM m)" "matchesSignalSelector (RawM (g m)) sigsel" "length (rm_payload (g m)) < 2147483644"
    by (auto simp: good_request_def fits_RawM matchesSignalSelector_iff)
  have "\<exists>c'. serve (put (pair_kernel p c [(wire e (RawM m), name_address (pr_client p))] []) w)
      = put (pair_kernel p c' [] [(wire e (RawM (g m)), name_address (pr_server p))]) w" for c
    by (rule Cons.prems(2)) (simp add: x)
  from client_requests [OF assms(1-3) g this] obtain c1
    where r: "GenericClient_sendReceive (AfUnixSocket_ops (embedded_sys get put serve) e) (embedded_sys get put serve) client (RawM m) t
        sigsel s (put (pair_kernel p c [] []) w) = Some (Some (g m), put (pair_kernel p c1 [] []) w)" by blast
  have "\<forall>x \<in> set ms. good_request g x" using Cons.prems(1) by simp
  from Cons.IH [OF this, of c1] Cons.prems(2) obtain c2
    where "requests (AfUnixSocket_ops (embedded_sys get put serve) e) (embedded_sys get put serve) client t ms s
      (put (pair_kernel p c1 [] []) w) = Some (map (Some \<circ> g \<circ> fst) ms, put (pair_kernel p c2 [] []) w)"
    by fastforce
  with r x show ?case by auto
qed auto

text \<open>From the factory to the last answer, on the kernel in which the server has started.\<close>

lemma client_session:
  assumes "plain_peers p" "pr_fd p = ref_fresh_fd (lone_kernel p c)"
    and "pr_client p = ''client_'' @ to_string rand @ ''_'' @ pr_server p" "\<forall>x \<in> set ms. good_request g x"
    and ping: "\<And>c. \<exists>c'. serve (put (pair_kernel p c [(wire e (RawM (RawMessage IPC_PING_REQ)), name_address (pr_client p))] []) w)
      = put (pair_kernel p c' [] [(wire e (RawM (RawMessage IPC_PING_RSP)), name_address (pr_server p))]) w"
    and request: "\<And>m c. m \<in> fst ` set ms \<Longrightarrow>
      \<exists>c'. serve (put (pair_kernel p c [(wire e (RawM m), name_address (pr_client p))] []) w)
        = put (pair_kernel p c' [] [(wire e (RawM (g m)), name_address (pr_server p))]) w"
  shows "\<exists>client s x1 x2 x3.
      AfUnixFactory_createClient (embedded_sys get put serve) obj rand (pr_server p) (put (lone_kernel p c) w) = Some (Some (client, s), x1)
    \<and> GenericClient_connect (AfUnixSocket_ops (embedded_sys get put serve) e) (embedded_sys get put serve) client t1 s x1 = Some (True, x2)
    \<and> requests (AfUnixSocket_ops (embedded_sys get put serve) e) (embedded_sys get put serve) client t2 ms s x2
        = Some (map (Some \<circ> g \<circ> fst) ms, x3)"
proof -
  let ?client = "GenericClient (pr_client p) obj (UnixInfo (pr_server p))" and ?s = "named_socket (pr_fd p) (pr_client p)"
  have i: "gc_identifier ?client = UnixInfo (pr_server p)" "us_fd ?s = pr_fd p" by (simp_all add: GenericClient_def)
  note created = client_created [OF assms(1-3), of obj w]
  from client_connects [OF assms(1) i ping, of t1 c] client_requests_all [OF assms(1) i assms(4) request, of t2]
    created show ?thesis by blast
qed

end

section \<open>Descriptors\<close>

text \<open>A server that opens and closes nothing while it serves.\<close>

locale embedded_fds = embedded_kernel get put serve
  for get :: "'w \<Rightarrow> ref_kernel" and put :: "ref_kernel \<Rightarrow> 'w \<Rightarrow> 'w" and serve :: "'w \<Rightarrow> 'w" +
  assumes serve_fds: "ref_fds (get (serve w)) = ref_fds (get w)"
begin

lemma in_kernel_fds:
  assumes "in_kernel get put f w = (a, w')"
  shows "\<exists>k'. f (get w) = (a, k') \<and> ref_fds (get w') = ref_fds k'"
  using assms by (auto simp: in_kernel_def get_put split: prod.splits)

end

sublocale embedded_fds \<subseteq> fds: fd_frame_sys "embedded_sys get put serve" "\<lambda>w. ref_fds (get w)"
proof unfold_locales
  fix fd w
  assume "fd \<in> ref_fds (get w)"
  then show "0 \<le> fd" by (simp add: ref_fds_def)
next
  fix d w fd w'
  assume "sys_socket (embedded_sys get put serve) d w = (fd, w')"
  then obtain k' where "sys_socket ref_sys d (get w) = (fd, k')" "ref_fds (get w') = ref_fds k'"
    by (auto simp: embedded_sys_def ref_sys_def dest!: in_kernel_fds)
  with ref_fd.fds_socket show "if fd < 0 then ref_fds (get w') = ref_fds (get w)
      else fd \<notin> ref_fds (get w) \<and> ref_fds (get w') = insert fd (ref_fds (get w))"
    by simp
next
  fix w fd w'
  assume "sys_eventfd (embedded_sys get put serve) w = (fd, w')"
  then obtain k' where "sys_eventfd ref_sys (get w) = (fd, k')" "ref_fds (get w') = ref_fds k'"
    by (auto simp: embedded_sys_def ref_sys_def dest!: in_kernel_fds)
  with ref_fd.fds_eventfd show "if fd < 0 then ref_fds (get w') = ref_fds (get w)
      else fd \<notin> ref_fds (get w) \<and> ref_fds (get w') = insert fd (ref_fds (get w))"
    by simp
next
  fix fd w
  show "ref_fds (get (sys_close (embedded_sys get put serve) fd w)) = ref_fds (get w) - {fd}"
    using ref_fd.fds_close by (simp add: embedded_sys_def ref_sys_def get_put)
next
  fix fd w
  show "ref_fds (get (sys_shutdown (embedded_sys get put serve) fd w)) = ref_fds (get w)"
    using ref_fd.fds_shutdown by (simp add: embedded_sys_def ref_sys_def get_put)
next
  fix fd t w p w'
  assume "sys_poll_in (embedded_sys get put serve) fd t w = (p, w')"
  then obtain k' where "sys_poll_in ref_sys fd t (get (serve w)) = (p, k')" "ref_fds (get w') = ref_fds k'"
    by (auto simp: embedded_sys_def ref_sys_def dest!: in_kernel_fds)
  with ref_fd_frame.fds_poll serve_fds show "ref_fds (get w') = ref_fds (get w)" by metis
next
  fix fd w a w'
  assume "sys_fionread (embedded_sys get put serve) fd w = (a, w')"
  then obtain k' a' where "sys_fionread ref_sys fd (get w) = (a', k')" "ref_fds (get w') = ref_fds k'"
    by (auto simp: embedded_sys_def ref_sys_def apfst_def map_prod_def dest!: in_kernel_fds split: prod.splits)
  with ref_fd_frame.fds_fionread show "ref_fds (get w') = ref_fds (get w)" by metis
qed (use ref_fd.fds_bind ref_fd.fds_setsockopt ref_fd.fds_read ref_fd_frame.fds_now ref_fd_frame.fds_write
       ref_fd_frame.fds_recv_un ref_fd_frame.fds_recv_in ref_fd_frame.fds_sendto
     in \<open>fastforce simp: embedded_sys_def ref_sys_def dest!: in_kernel_fds\<close>)+

end
