(* ===== verification/LinxIpcHandler.thy ===== *)
theory LinxIpcHandler
  imports GenericSimpleServer
begin

text \<open>
  The interface \<open>LinxServer\<close> and the callback dispatcher \<open>LinxIpcHandler\<close> (LinxServer.h,
  LinxIpcHandler.cpp) with \<open>LinxReceivedMessage::sendResponse\<close>. The world \<open>'w\<close> is what the server and
  the callbacks work on. The contract of a server, stated as a locale, is proved for the simple server
  over any socket that keeps the socket contract.
\<close>

section \<open>Model\<close>

text \<open>The virtual functions of \<open>LinxServer\<close>.\<close>

record 'w linx_server_ops =
  srv_receive :: "int \<Rightarrow> u32 list \<Rightarrow> iidentifier option \<Rightarrow> 'w \<Rightarrow> (linx_received_message option \<times> 'w) option"
  srv_getPollFd :: "'w \<Rightarrow> int"
  srv_start :: "'w \<Rightarrow> bool \<times> 'w"
  srv_stop :: "'w \<Rightarrow> 'w option"
  srv_send :: "imessage \<Rightarrow> iidentifier \<Rightarrow> 'w \<Rightarrow> (int \<times> 'w) option"
  srv_getName :: string

text \<open>
  \<open>alive\<close> is \<open>weak_ptr::lock\<close>: the server object, if it still exists. A message without a sender fails
  the assertion.
\<close>

definition sendResponse ::
  "(nat \<Rightarrow> 'w linx_server_ops option) \<Rightarrow> linx_received_message \<Rightarrow> imessage \<Rightarrow> 'w \<Rightarrow> (int \<times> 'w) option" where
  "sendResponse alive this response w =
     (case lr_from this of
        None \<Rightarrow> None
      | Some from \<Rightarrow>
          (case alive (lr_server this) of
             Some srv \<Rightarrow> srv_send srv response from w
           | None \<Rightarrow> Some (- 1, w)))"

text \<open>A \<open>std::function\<close> may be empty; calling it then throws.\<close>

record ('d, 'w) ipc_container =
  ic_callback :: "(linx_received_message \<Rightarrow> 'd \<Rightarrow> 'w \<Rightarrow> (int \<times> 'w) option) option"
  ic_data :: 'd

record ('d, 'w) linx_ipc_handler =
  h_server :: "'w linx_server_ops"
  h_handlers :: "u32 \<rightharpoonup> ('d, 'w) ipc_container"

definition LinxIpcHandler :: "'w linx_server_ops \<Rightarrow> ('d, 'w) linx_ipc_handler" where
  "LinxIpcHandler server = \<lparr>h_server = server, h_handlers = Map.empty\<rparr>"

definition registerCallback ::
  "u32 \<Rightarrow> (linx_received_message \<Rightarrow> 'd \<Rightarrow> 'w \<Rightarrow> (int \<times> 'w) option) option \<Rightarrow> 'd
     \<Rightarrow> ('d, 'w) linx_ipc_handler \<Rightarrow> ('d, 'w) linx_ipc_handler" where
  "registerCallback reqId callback data this =
     (let container = \<lparr>ic_callback = callback, ic_data = data\<rparr>
      in this\<lparr>h_handlers := (h_handlers this)(reqId \<mapsto> container)\<rparr>)"

definition Handler_receive ::
  "int \<Rightarrow> u32 list \<Rightarrow> iidentifier option \<Rightarrow> ('d, 'w) linx_ipc_handler \<Rightarrow> 'w
     \<Rightarrow> (linx_received_message option \<times> 'w) option" where
  "Handler_receive timeoutMs sigsel from this w = srv_receive (h_server this) timeoutMs sigsel from w"

definition handleMessage :: "int \<Rightarrow> ('d, 'w) linx_ipc_handler \<Rightarrow> 'w \<Rightarrow> (int \<times> 'w) option" where
  "handleMessage timeoutMs this w =
     do {
       (recvMsg, w1) \<leftarrow> Handler_receive timeoutMs LINX_ANY_SIG LINX_ANY_FROM this w;
       case recvMsg of
         None \<Rightarrow> Some (- 1, w1)
       | Some msg \<Rightarrow>
           (let reqId = rm_reqId (lr_message msg) in
            case h_handlers this reqId of
              Some container \<Rightarrow> do { f \<leftarrow> ic_callback container; f msg (ic_data container) w1 }
            | None \<Rightarrow> Some (0, w1))
     }"

definition Handler_start :: "('d, 'w) linx_ipc_handler \<Rightarrow> 'w \<Rightarrow> bool \<times> 'w" where
  "Handler_start this w = srv_start (h_server this) w"

definition Handler_stop :: "('d, 'w) linx_ipc_handler \<Rightarrow> 'w \<Rightarrow> 'w option" where
  "Handler_stop this w = srv_stop (h_server this) w"

definition Handler_dtor :: "('d, 'w) linx_ipc_handler \<Rightarrow> 'w \<Rightarrow> 'w option" where
  "Handler_dtor this w = Handler_stop this w"

definition Handler_getPollFd :: "('d, 'w) linx_ipc_handler \<Rightarrow> 'w \<Rightarrow> int" where
  "Handler_getPollFd this w = srv_getPollFd (h_server this) w"

definition Handler_send :: "imessage \<Rightarrow> iidentifier \<Rightarrow> ('d, 'w) linx_ipc_handler \<Rightarrow> 'w \<Rightarrow> (int \<times> 'w) option" where
  "Handler_send message to this w = srv_send (h_server this) message to w"

definition Handler_getName :: "('d, 'w) linx_ipc_handler \<Rightarrow> string" where
  "Handler_getName this = srv_getName (h_server this)"

section \<open>Registrations\<close>

text \<open>A sequence of registrations, in order; the last one for a request id is the one that counts.\<close>

definition registerAll ::
  "(u32 \<times> (linx_received_message \<Rightarrow> 'd \<Rightarrow> 'w \<Rightarrow> (int \<times> 'w) option) option \<times> 'd) list
     \<Rightarrow> ('d, 'w) linx_ipc_handler \<Rightarrow> ('d, 'w) linx_ipc_handler" where
  "registerAll regs this = fold (\<lambda>(r, cb, d). registerCallback r cb d) regs this"

lemma registerAll_server: "h_server (registerAll regs h) = h_server h"
  by (induction regs arbitrary: h) (auto simp: registerAll_def registerCallback_def)

lemma registerAll_handlers:
  "h_handlers (registerAll regs h) r =
     (case map_of (rev regs) r of
        Some (cb, d) \<Rightarrow> Some \<lparr>ic_callback = cb, ic_data = d\<rparr> | None \<Rightarrow> h_handlers h r)"
proof (induction regs arbitrary: h)
  case (Cons x regs)
  obtain r' cb d where "x = (r', cb, d)" by (cases x)
  with Cons.IH [of "registerCallback r' cb d h"] show ?case
    by (auto simp: registerAll_def registerCallback_def map_add_def split: option.splits)
qed (simp add: registerAll_def)

section \<open>The contract of a server\<close>

text \<open>\<open>inv\<close> is what the server keeps of the world it works on.\<close>

locale linx_server =
  fixes R :: "'w linx_server_ops" and self :: nat and inv :: "'w \<Rightarrow> bool"
  assumes receive_app: "srv_receive R t sigsel fr w = Some (Some lr, w') \<Longrightarrow> inv w \<Longrightarrow>
            rm_reqId (lr_message lr) \<noteq> IPC_PING_REQ \<and> lr_from lr \<noteq> None \<and> lr_server lr = self"
    and receive_inv: "srv_receive R t sigsel fr w = Some (r, w') \<Longrightarrow> inv w \<Longrightarrow> inv w'"
    and send_inv: "srv_send R m to w = Some (c, w') \<Longrightarrow> inv w \<Longrightarrow> inv w'"
begin

text \<open>What \<open>handleMessage\<close> hands to a callback can be answered, and the server is ready for more after it.\<close>

lemma handled_answerable:
  assumes "Handler_receive t sigsel fr h w = Some (Some lr, w')" "h_server h = R" "alive self = Some R" "inv w"
  shows "\<exists>f. lr_from lr = Some f \<and> sendResponse alive lr resp w' = srv_send R resp f w'"
    and "sendResponse alive lr resp w' = Some (c, w'') \<Longrightarrow> inv w''"
proof -
  have r: "srv_receive R t sigsel fr w = Some (Some lr, w')"
    using assms(1,2) by (simp add: Handler_receive_def)
  from receive_app [OF r assms(4)] obtain f where f: "lr_from lr = Some f" "lr_server lr = self" by auto
  with assms(3) have s: "sendResponse alive lr resp w' = srv_send R resp f w'" by (simp add: sendResponse_def)
  with f show "\<exists>f. lr_from lr = Some f \<and> sendResponse alive lr resp w' = srv_send R resp f w'" by blast
  show "inv w''" if "sendResponse alive lr resp w' = Some (c, w'')"
    using send_inv receive_inv [OF r assms(4)] that s by metis
qed

end

definition SimpleServer_ops ::
  "('i, 's, 'k) socket_ops \<Rightarrow> 'k sys \<Rightarrow> nat \<Rightarrow> generic_simple_server \<Rightarrow> ('s \<times> 'k) linx_server_ops" where
  "SimpleServer_ops V S self this =
     \<lparr>srv_receive = (\<lambda>t sigsel fr (s, k).
        map_option (\<lambda>(r, k'). (r, s, k')) (SimpleServer_receive V S self t sigsel fr s k)),
      srv_getPollFd = (\<lambda>(s, k). SimpleServer_getPollFd V s),
      srv_start = (\<lambda>w. (SimpleServer_start this, w)),
      srv_stop = (\<lambda>(s, k). Some (SimpleServer_stop s k)),
      srv_send = (\<lambda>m to (s, k). map_option (\<lambda>(r, k'). (r, s, k')) (SimpleServer_send V m to s k)),
      srv_getName = SimpleServer_getName this\<rparr>"

lemma SimpleServer_ops_sel [simp]:
  "srv_receive (SimpleServer_ops V S self this) t sigsel fr (s, k) =
     map_option (\<lambda>(r, k'). (r, s, k')) (SimpleServer_receive V S self t sigsel fr s k)"
  "srv_send (SimpleServer_ops V S self this) m to (s, k) =
     map_option (\<lambda>(r, k'). (r, s, k')) (SimpleServer_send V m to s k)"
  by (simp_all add: SimpleServer_ops_def)

sublocale generic_socket \<subseteq> simple: linx_server "SimpleServer_ops V S self this" self "\<lambda>_. True" for S self this
proof unfold_locales
  fix t sigsel fr w lr w'
  assume r: "srv_receive (SimpleServer_ops V S self this) t sigsel fr w = Some (Some lr, w')"
  obtain s k where w: "w = (s, k)" by (cases w)
  obtain dl k1 where d: "Deadline_at S t k = (dl, k1)" by fastforce
  from r w d obtain k' where "simple_receive_loop V S self sigsel fr dl None None s k1 = Some (Some lr, k')"
    by (auto simp: SimpleServer_receive_def)
  from simple_loop_sound [OF this generic_socket_axioms refl]
  show "rm_reqId (lr_message lr) \<noteq> IPC_PING_REQ \<and> lr_from lr \<noteq> None \<and> lr_server lr = self" by auto
qed simp_all

end
