(* ===== verification/ServerInterface.thy ===== *)
theory ServerInterface
  imports LinxIpcHandler ServerLifecycle
begin

text \<open>
  The threaded server behind the interface \<open>LinxServer\<close>, which is how a \<open>LinxIpcHandler\<close> uses it. The
  world is the state of the server; while \<open>receive\<close> waits, the worker adds messages to the queue, as
  a schedule says. The contract of the interface is proved with the invariant of the server.
\<close>

section \<open>The operations\<close>

definition GenericServer_ops ::
  "('i, 's, 'k) socket_ops \<Rightarrow> 'k sys \<Rightarrow> nat \<Rightarrow> generic_simple_server \<Rightarrow> queue_op list list \<Rightarrow> queue_op list
     \<Rightarrow> ('s, 'k) server_state linx_server_ops" where
  "GenericServer_ops V S self this sched final =
     \<lparr>srv_receive = (\<lambda>t sigsel fr st.
        map_option (\<lambda>(r, q, k). (r, st\<lparr>sv_queue := q, sv_kernel := k\<rparr>))
          (GenericServer_receive S t sigsel fr sched final (sv_queue st, sv_kernel st))),
      srv_getPollFd = GenericServer_getPollFd,
      srv_start = GenericServer_start,
      srv_stop = GenericServer_stop V S self,
      srv_send = (\<lambda>m to st.
        map_option (\<lambda>(r, k). (r, st\<lparr>sv_kernel := k\<rparr>)) (SimpleServer_send V m to (sv_socket st) (sv_kernel st))),
      srv_getName = SimpleServer_getName this\<rparr>"

lemma GenericServer_ops_sel [simp]:
  "srv_receive (GenericServer_ops V S self this sched final) t sigsel fr st =
     map_option (\<lambda>(r, q, k). (r, st\<lparr>sv_queue := q, sv_kernel := k\<rparr>))
       (GenericServer_receive S t sigsel fr sched final (sv_queue st, sv_kernel st))"
  "srv_send (GenericServer_ops V S self this sched final) m to st =
     map_option (\<lambda>(r, k). (r, st\<lparr>sv_kernel := k\<rparr>)) (SimpleServer_send V m to (sv_socket st) (sv_kernel st))"
  by (simp_all add: GenericServer_ops_def)

section \<open>What the worker may add\<close>

text \<open>A schedule of the worker: it only adds, and only application messages.\<close>

definition worker_ops :: "('i, 's, 'k) socket_ops \<Rightarrow> nat \<Rightarrow> queue_op list \<Rightarrow> bool" where
  "worker_ops V self xs \<longleftrightarrow> list_all (\<lambda>x. case x of OpAdd m \<Rightarrow> app_message V self m | _ \<Rightarrow> False) xs"

definition app_queue :: "('i, 's, 'k) socket_ops \<Rightarrow> nat \<Rightarrow> bool \<Rightarrow> linx_queue \<Rightarrow> bool" where
  "app_queue V self stopped q \<longleftrightarrow> (\<forall>lr \<in> set (q_queue q). app_message V self lr) \<and> q_stopped q = stopped"

lemma app_queue_add:
  assumes "app_queue V self b q" "app_message V self m" "queue_step S (OpAdd m) (q, k) = Some (out, q', k')"
  shows "app_queue V self b q'"
  using assms queue_step_set [OF assms(3)] queue_step_simulates(1) [OF assms(3)]
  by (auto simp: app_queue_def mailbox_of_def split: if_splits)

lemma app_queue_run:
  "queue_run S xs (q, k) = Some (outs, q', k') \<Longrightarrow> app_queue V self b q \<Longrightarrow> worker_ops V self xs \<Longrightarrow> app_queue V self b q'"
proof (induction xs arbitrary: q k outs)
  case (Cons x xs)
  obtain m where x: "x = OpAdd m" "app_message V self m"
    using Cons.prems(3) by (auto simp: worker_ops_def split: queue_op.splits)
  obtain out q1 k1 outs1 where s: "queue_step S (OpAdd m) (q, k) = Some (out, q1, k1)"
    and r: "queue_run S xs (q1, k1) = Some (outs1, q', k')"
    using Cons.prems(1) x(1) by (auto split: option.splits prod.splits)
  from Cons.IH [OF r app_queue_add [OF Cons.prems(2) x(2) s]] Cons.prems(3) show ?case
    by (simp add: worker_ops_def)
qed simp

lemma app_queue_find:
  assumes "findMessage S sigsel fr q k = (r, q', k')" "app_queue V self b q"
  shows "app_queue V self b q' \<and> (\<forall>lr. r = Some lr \<longrightarrow> app_message V self lr)"
proof -
  note f = findMessage_fields [OF assms(1)]
  have "q_stopped q' = q_stopped q" using f(2) by (metis linx_queue.select_convs(1) linx_queue.surjective linx_queue.update_convs(4))
  moreover have "mset (q_queue q) = (case r of None \<Rightarrow> {#} | Some m \<Rightarrow> {#m#}) + mset (q_queue q')"
    by (rule mb_take_mset [OF f(1)])
  then have "set (q_queue q) = set_option r \<union> set (q_queue q')"
    by (auto dest!: arg_cong [of _ _ set_mset] split: option.splits)
  ultimately show ?thesis using assms(2) by (auto simp: app_queue_def)
qed

lemma app_queue_wait:
  "waitForMessage S sigsel fr sched (q, k) = Some (r, q', k') \<Longrightarrow> app_queue V self b q \<Longrightarrow>
    list_all (worker_ops V self) sched \<Longrightarrow> app_queue V self b q' \<and> (\<forall>lr. r = Some lr \<longrightarrow> app_message V self lr)"
proof (induction sched arbitrary: q k)
  case Nil
  obtain m q1 k1 where f: "findMessage S sigsel fr q k = (m, q1, k1)" by (metis prod_cases3)
  with app_queue_find [OF f Nil.prems(2)] Nil.prems(1) show ?case
    by (auto simp: waitForMessage.simps split: if_splits)
next
  case (Cons ops sched)
  obtain m q1 k1 where f: "findMessage S sigsel fr q k = (m, q1, k1)" by (metis prod_cases3)
  note a = app_queue_find [OF f Cons.prems(2)]
  show ?case
  proof (cases "m \<noteq> None \<or> q_stopped q1")
    case True
    with a f Cons.prems(1) show ?thesis by (auto simp: waitForMessage.simps)
  next
    case False
    with f Cons.prems(1) obtain outs q2 k2 where "queue_run S ops (q1, k1) = Some (outs, q2, k2)"
      and w: "waitForMessage S sigsel fr sched (q2, k2) = Some (r, q', k')"
      by (auto simp: waitForMessage.simps split: option.splits)
    with app_queue_run a Cons.prems(3) have "app_queue V self b q2" by fastforce
    from Cons.IH [OF w this] Cons.prems(3) show ?thesis by simp
  qed
qed

lemma app_queue_wait_timed:
  "waitForMessage_timed S sigsel fr sched final (q, k) = Some (r, q', k') \<Longrightarrow> app_queue V self b q \<Longrightarrow>
    list_all (worker_ops V self) (final # sched) \<Longrightarrow> app_queue V self b q' \<and> (\<forall>lr. r = Some lr \<longrightarrow> app_message V self lr)"
proof (induction sched arbitrary: q k)
  case Nil
  obtain m q1 k1 where f: "findMessage S sigsel fr q k = (m, q1, k1)" by (metis prod_cases3)
  note a = app_queue_find [OF f Nil.prems(2)]
  show ?case
  proof (cases "m \<noteq> None \<or> q_stopped q1")
    case True
    with a f Nil.prems(1) show ?thesis by (auto simp: waitForMessage_timed.simps)
  next
    case False
    with f Nil.prems(1) obtain outs q2 k2 where r: "queue_run S final (q1, k1) = Some (outs, q2, k2)"
      and g: "findMessage S sigsel fr q2 k2 = (r, q', k')"
      by (auto simp: waitForMessage_timed.simps split: option.splits)
    have "app_queue V self b q2" using app_queue_run [OF r] a Nil.prems(3) by auto
    from app_queue_find [OF g this] show ?thesis .
  qed
next
  case (Cons ops sched)
  obtain m q1 k1 where f: "findMessage S sigsel fr q k = (m, q1, k1)" by (metis prod_cases3)
  note a = app_queue_find [OF f Cons.prems(2)]
  show ?case
  proof (cases "m \<noteq> None \<or> q_stopped q1")
    case True
    with a f Cons.prems(1) show ?thesis by (auto simp: waitForMessage_timed.simps)
  next
    case False
    with f Cons.prems(1) obtain outs q2 k2 where "queue_run S ops (q1, k1) = Some (outs, q2, k2)"
      and w: "waitForMessage_timed S sigsel fr sched final (q2, k2) = Some (r, q', k')"
      by (auto simp: waitForMessage_timed.simps split: option.splits)
    with app_queue_run a Cons.prems(3) have "app_queue V self b q2" by fastforce
    from Cons.IH [OF w this] Cons.prems(3) show ?thesis by simp
  qed
qed

lemma app_queue_receive:
  assumes "GenericServer_receive S t sigsel fr sched final (q, k) = Some (r, q', k')"
    and "app_queue V self b q" "list_all (worker_ops V self) (final # sched)"
  shows "app_queue V self b q' \<and> (\<forall>lr. r = Some lr \<longrightarrow> app_message V self lr)"
proof -
  consider (now) "findMessage S sigsel fr q k = (r, q', k')"
    | (forever) "waitForMessage S sigsel fr sched (q, k) = Some (r, q', k')"
    | (timed) "waitForMessage_timed S sigsel fr sched final (q, k) = Some (r, q', k')"
    using assms(1) by (auto simp: GenericServer_receive_def LinxQueue_get_def getMessage_def split: if_splits)
  then show ?thesis
  proof cases
    case now
    show ?thesis by (rule app_queue_find [OF now assms(2)])
  next
    case forever
    show ?thesis by (rule app_queue_wait [OF forever assms(2)]) (use assms(3) in simp)
  next
    case timed
    show ?thesis by (rule app_queue_wait_timed [OF timed assms(2,3)])
  qed
qed

section \<open>The contract\<close>

definition threaded_inv ::
  "('i, 's, 'k) socket_ops \<Rightarrow> nat \<Rightarrow> queue_op list list \<Rightarrow> queue_op list \<Rightarrow> ('s, 'k) server_state \<Rightarrow> bool" where
  "threaded_inv V self sched final st \<longleftrightarrow> server_inv V self st \<and> list_all (worker_ops V self) (final # sched)"

lemma server_inv_receive:
  assumes "GenericServer_receive S t sigsel fr sched final (sv_queue st, sv_kernel st) = Some (r, q, k)"
    and "threaded_inv V self sched final st"
  shows "threaded_inv V self sched final (st\<lparr>sv_queue := q, sv_kernel := k\<rparr>) \<and> (\<forall>lr. r = Some lr \<longrightarrow> app_message V self lr)"
proof -
  have "app_queue V self (q_stopped (sv_queue st)) (sv_queue st)"
    using assms(2) by (simp add: app_queue_def threaded_inv_def server_inv_def)
  from app_queue_receive [OF assms(1) this] assms(2) show ?thesis
    by (auto simp: app_queue_def threaded_inv_def server_inv_def joinable_def)
qed

sublocale generic_socket \<subseteq>
  threaded: linx_server "GenericServer_ops V S self this sched final" self "threaded_inv V self sched final"
  for S self this sched final
proof unfold_locales
  fix t sigsel fr st lr st'
  assume "srv_receive (GenericServer_ops V S self this sched final) t sigsel fr st = Some (Some lr, st')"
    and i: "threaded_inv V self sched final st"
  with server_inv_receive show "rm_reqId (lr_message lr) \<noteq> IPC_PING_REQ \<and> lr_from lr \<noteq> None \<and> lr_server lr = self"
    by (fastforce simp: app_message_def)
next
  fix t sigsel fr st r st'
  assume "srv_receive (GenericServer_ops V S self this sched final) t sigsel fr st = Some (r, st')"
    and i: "threaded_inv V self sched final st"
  with server_inv_receive show "threaded_inv V self sched final st'" by fastforce
next
  fix m to st c st'
  assume "srv_send (GenericServer_ops V S self this sched final) m to st = Some (c, st')"
    and "threaded_inv V self sched final st"
  then show "threaded_inv V self sched final st'"
    by (auto simp: threaded_inv_def server_inv_def joinable_def)
qed

context generic_socket
begin

lemma threaded_handled:
  assumes "Handler_receive t sigsel fr (LinxIpcHandler (GenericServer_ops V S self this sched final)) st = Some (Some lr, st')"
    and "alive self = Some (GenericServer_ops V S self this sched final)" "threaded_inv V self sched final st"
  shows "\<exists>f. lr_from lr = Some f \<and> sendResponse alive lr resp st' = srv_send (GenericServer_ops V S self this sched final) resp f st'"
  by (rule threaded.handled_answerable(1) [where alive = alive, OF assms(1) _ assms(2,3)]) (simp add: LinxIpcHandler_def)

end

section \<open>Properties\<close>


definition demo_added :: linx_received_message where
  "demo_added = \<lparr>lr_message = \<lparr>rm_reqId = 7, rm_payload = [1]\<rparr>, lr_from = Some (UnixId (UnixInfo ''cli'')), lr_server = 3\<rparr>"


end
