(* ===== verification/RpcSystem.thy ===== *)
theory RpcSystem
  imports PeerWorld ServerInterface
begin

text \<open>
  A request and its answer through the whole library: \<open>sendReceive\<close> of a client, the socket, the server
  (threaded or simple), the \<open>LinxIpcHandler\<close> with its callbacks, \<open>sendResponse\<close>, and the way back. The
  client runs on a kernel in which the server runs, too: while the client waits, the server's
  process takes the datagrams that have arrived and calls \<open>handleMessage\<close>.
\<close>

section \<open>Callbacks that answer\<close>

text \<open>A callback that answers a request \<open>m\<close> by \<open>g m\<close>.\<close>

definition responder ::
  "(nat \<Rightarrow> 'w linx_server_ops option) \<Rightarrow> (raw_message \<Rightarrow> raw_message) \<Rightarrow> linx_received_message \<Rightarrow> 'd \<Rightarrow> 'w \<Rightarrow> (int \<times> 'w) option" where
  "responder alive g lr d w = sendResponse alive lr (RawM (g (lr_message lr))) w"

section \<open>A handler on a threaded server\<close>

type_synonym threaded_world = "(af_unix_socket, ref_kernel) server_state"

text \<open>The worker takes a datagram from the socket; the thread of the user handles what this puts into the queue.\<close>

definition threaded_turn ::
  "endian \<Rightarrow> nat \<Rightarrow> ('d, threaded_world) linx_ipc_handler \<Rightarrow> threaded_world \<Rightarrow> threaded_world" where
  "threaded_turn e self h st =
     (case server_exec (AfUnixSocket_ops ref_sys e) ref_sys self [WReceive, WDispatch] st of
        None \<Rightarrow> st
      | Some (_, st1) \<Rightarrow>
          if q_queue (sv_queue st1) = [] then st1
          else (case handleMessage IMMEDIATE_TIMEOUT h st1 of None \<Rightarrow> st1 | Some (_, st2) \<Rightarrow> st2))"

definition set_server_kernel :: "ref_kernel \<Rightarrow> threaded_world \<Rightarrow> threaded_world" where
  "set_server_kernel k st = st\<lparr>sv_kernel := k\<rparr>"

definition threaded_sys :: "endian \<Rightarrow> nat \<Rightarrow> ('d, threaded_world) linx_ipc_handler \<Rightarrow> threaded_world sys" where
  "threaded_sys e self h = embedded_sys sv_kernel set_server_kernel (threaded_turn e self h)"

interpretation threaded: embedded_kernel sv_kernel set_server_kernel "threaded_turn en self h" for en self h
  by unfold_locales (simp_all add: set_server_kernel_def)

abbreviation threaded_server :: "endian \<Rightarrow> nat \<Rightarrow> generic_simple_server \<Rightarrow> threaded_world linx_server_ops" where
  "threaded_server e self base \<equiv> GenericServer_ops (AfUnixSocket_ops ref_sys e) ref_sys self base [] []"

text \<open>The server when it has nothing to do.\<close>

definition threaded_idle :: "string \<Rightarrow> int \<Rightarrow> ref_kernel \<Rightarrow> threaded_world" where
  "threaded_idle name sz k =
     \<lparr>sv_socket = named_socket 4 name, sv_queue = LinxQueue \<lparr>efd = 5\<rparr> sz, sv_worker = AtReceive,
      sv_stop = NotStopping, sv_kernel = k\<rparr>"

lemma threaded_idle_kernel [simp]: "set_server_kernel k' (threaded_idle name sz k) = threaded_idle name sz k'"
  by (simp add: set_server_kernel_def threaded_idle_def)

lemma threaded_ping:
  assumes "plain_peers p"
  shows "threaded_turn e self h (threaded_idle name sz (pair_kernel p c ((wire e (RawM (RawMessage IPC_PING_REQ)), name_address (pr_client p)) # si) ci))
    = threaded_idle name sz (pair_kernel p (c + 1) si (ci @ [(wire e (RawM (RawMessage IPC_PING_RSP)), name_address (pr_server p))]))"
  using assms
  by (simp add: threaded_turn_def threaded_idle_def task_receive_def pair_receive task_dispatch_def
      SimpleServer_send_def pair_send fits_RawM LinxQueue_def RawMessage_sel)

lemma threaded_request:
  assumes "plain_peers p" "pr_efds p = [(5, 0)]" "0 < sz" "sz < 2147483648" "rm_reqId m \<noteq> IPC_PING_REQ"
    and h: "h = registerAll regs (LinxIpcHandler (threaded_server e self base))"
    and "map_of (rev regs) (rm_reqId m) = Some (Some (responder alive g), d)"
    and "alive self = Some (threaded_server e self base)" "fits (RawM (g m))"
  shows "threaded_turn e self h (threaded_idle name sz (pair_kernel p c ((wire e (RawM m), name_address (pr_client p)) # si) ci))
    = threaded_idle name sz (pair_kernel p (c + 1) si (ci @ [(wire e (RawM (g m)), name_address (pr_server p))]))"
proof -
  have sz: "0 < to_size_t sz" using assms(3,4) by (simp add: to_size_t_nonneg)
  show ?thesis using assms sz
    by (simp add: threaded_turn_def threaded_idle_def task_receive_def pair_receive task_dispatch_def
      LinxQueue_add_def LinxQueue_def pair_events getMessage_def findMessage_def extract_any
      handleMessage_def Handler_receive_def registerAll_server registerAll_handlers LinxIpcHandler_def GenericServer_receive_def
      LinxQueue_get_def responder_def sendResponse_def
      SimpleServer_send_def pair_send Let_def del: One_nat_def)
qed

section \<open>A handler on a simple server\<close>

type_synonym simple_world = "af_unix_socket \<times> ref_kernel"

text \<open>The thread of the user reads the socket itself.\<close>

definition simple_turn :: "('d, simple_world) linx_ipc_handler \<Rightarrow> simple_world \<Rightarrow> simple_world" where
  "simple_turn h w = (case handleMessage IMMEDIATE_TIMEOUT h w of None \<Rightarrow> w | Some (_, w') \<Rightarrow> w')"

definition set_simple_kernel :: "ref_kernel \<Rightarrow> simple_world \<Rightarrow> simple_world" where
  "set_simple_kernel k w = (fst w, k)"

definition simple_sys :: "('d, simple_world) linx_ipc_handler \<Rightarrow> simple_world sys" where
  "simple_sys h = embedded_sys snd set_simple_kernel (simple_turn h)"

interpretation simple: embedded_kernel snd set_simple_kernel "simple_turn h" for h
  by unfold_locales (simp_all add: set_simple_kernel_def)

abbreviation simple_server :: "endian \<Rightarrow> nat \<Rightarrow> generic_simple_server \<Rightarrow> simple_world linx_server_ops" where
  "simple_server e self base \<equiv> SimpleServer_ops (AfUnixSocket_ops ref_sys e) ref_sys self base"

lemma simple_receives_ping:
  assumes "plain_peers p" "us_fd s = 4"
  shows "\<exists>c'. SimpleServer_receive (AfUnixSocket_ops ref_sys e) ref_sys self t LINX_ANY_SIG LINX_ANY_FROM s
      (pair_kernel p c [(wire e (RawM (RawMessage IPC_PING_REQ)), name_address (pr_client p))] ci)
    = Some (None, pair_kernel p c' [] (ci @ [(wire e (RawM (RawMessage IPC_PING_RSP)), name_address (pr_server p))]))"
proof -
  let ?ping = "[(wire e (RawM (RawMessage IPC_PING_REQ)), name_address (pr_client p))]"
  let ?rsp = "ci @ [(wire e (RawM (RawMessage IPC_PING_RSP)), name_address (pr_server p))]"
  obtain dl c1 where d: "Deadline_at ref_sys t (pair_kernel p c ?ping ci) = (dl, pair_kernel p c1 ?ping ci)"
    using pair_clock(1) by blast
  obtain r c2 where g: "getRemainingTimeMs_at ref_sys dl (pair_kernel p c1 ?ping ci) = (r, pair_kernel p c2 ?ping ci)"
    using pair_clock(2) by blast
  obtain b c3 where x: "isExpired_at ref_sys dl (pair_kernel p (c2 + 1) [] ?rsp) = (b, pair_kernel p c3 [] ?rsp)"
    using pair_clock(3) by blast
  obtain r' c4 where g': "getRemainingTimeMs_at ref_sys dl (pair_kernel p c3 [] ?rsp) = (r', pair_kernel p c4 [] ?rsp)"
    using pair_clock(2) by blast
  obtain ret c5 where n: "ret \<le> 0" "AfUnixSocket_receive ref_sys e True True r' s (pair_kernel p c4 [] ?rsp)
      = Some ((ret, None, None), pair_kernel p c5 [] ?rsp)"
    using pair_receive_nothing [OF assms(2)] by blast
  have again: "simple_receive_loop (AfUnixSocket_ops ref_sys e) ref_sys self LINX_ANY_SIG LINX_ANY_FROM dl m f s (pair_kernel p c3 [] ?rsp)
      = Some (None, pair_kernel p c5 [] ?rsp)" for m f
    using g' n by (subst simple_receive_loop.simps) auto
  show ?thesis
    unfolding SimpleServer_receive_def d Let_def prod.case
    by (subst simple_receive_loop.simps)
      (simp add: g pair_receive [OF assms] SimpleServer_send_def pair_send [OF assms] fits_RawM RawMessage_sel x again; blast)
qed

lemma simple_receives_request:
  assumes "plain_peers p" "us_fd s = 4" "rm_reqId m \<noteq> IPC_PING_REQ"
  shows "\<exists>c'. SimpleServer_receive (AfUnixSocket_ops ref_sys e) ref_sys self t LINX_ANY_SIG LINX_ANY_FROM s
      (pair_kernel p c ((wire e (RawM m), name_address (pr_client p)) # si) ci)
    = Some (Some \<lparr>lr_message = m, lr_from = Some (UnixId (UnixInfo (pr_client p))), lr_server = self\<rparr>, pair_kernel p c' si ci)"
proof -
  let ?in = "(wire e (RawM m), name_address (pr_client p)) # si"
  obtain dl c1 where d: "Deadline_at ref_sys t (pair_kernel p c ?in ci) = (dl, pair_kernel p c1 ?in ci)"
    using pair_clock(1) by blast
  obtain r c2 where g: "getRemainingTimeMs_at ref_sys dl (pair_kernel p c1 ?in ci) = (r, pair_kernel p c2 ?in ci)"
    using pair_clock(2) by blast
  show ?thesis
    unfolding SimpleServer_receive_def d Let_def prod.case
    by (subst simple_receive_loop.simps)
      (simp add: g pair_receive [OF assms(1,2)] assms(3) matches_def LINX_ANY_SIG_def LINX_ANY_FROM_def matchesSignalSelector_iff; blast)
qed

lemma simple_ping:
  assumes "plain_peers p" "h_server h = simple_server e self base"
  shows "\<exists>c'. simple_turn h (named_socket 4 name, pair_kernel p c [(wire e (RawM (RawMessage IPC_PING_REQ)), name_address (pr_client p))] [])
    = (named_socket 4 name, pair_kernel p c' [] [(wire e (RawM (RawMessage IPC_PING_RSP)), name_address (pr_server p))])"
proof -
  obtain c' where "SimpleServer_receive (AfUnixSocket_ops ref_sys e) ref_sys self IMMEDIATE_TIMEOUT LINX_ANY_SIG LINX_ANY_FROM
      (named_socket 4 name) (pair_kernel p c [(wire e (RawM (RawMessage IPC_PING_REQ)), name_address (pr_client p))] [])
    = Some (None, pair_kernel p c' [] [(wire e (RawM (RawMessage IPC_PING_RSP)), name_address (pr_server p))])"
    using simple_receives_ping [OF assms(1), where s = "named_socket 4 name" and ci = "[]" and t = IMMEDIATE_TIMEOUT and c = c
        and e = e and self = self] by auto
  then show ?thesis using assms(2) by (auto simp: simple_turn_def handleMessage_def Handler_receive_def)
qed

lemma simple_request:
  assumes "plain_peers p" "rm_reqId m \<noteq> IPC_PING_REQ"
    and h: "h = registerAll regs (LinxIpcHandler (simple_server e self base))"
    and "map_of (rev regs) (rm_reqId m) = Some (Some (responder alive g), d)"
    and "alive self = Some (simple_server e self base)" "fits (RawM (g m))"
  shows "\<exists>c'. simple_turn h (named_socket 4 name, pair_kernel p c [(wire e (RawM m), name_address (pr_client p))] [])
    = (named_socket 4 name, pair_kernel p c' [] [(wire e (RawM (g m)), name_address (pr_server p))])"
proof -
  obtain c' where r: "SimpleServer_receive (AfUnixSocket_ops ref_sys e) ref_sys self IMMEDIATE_TIMEOUT LINX_ANY_SIG LINX_ANY_FROM
      (named_socket 4 name) (pair_kernel p c [(wire e (RawM m), name_address (pr_client p))] [])
    = Some (Some \<lparr>lr_message = m, lr_from = Some (UnixId (UnixInfo (pr_client p))), lr_server = self\<rparr>, pair_kernel p c' [] [])"
    using simple_receives_request [OF assms(1) _ assms(2), where s = "named_socket 4 name" and si = "[]" and ci = "[]"
        and t = IMMEDIATE_TIMEOUT and c = c and e = e and self = self] by auto
  have s: "AfUnixSocket_send ref_sys e (RawM (g m)) (UnixInfo (pr_client p)) (named_socket 4 name) (pair_kernel p c' [] [])
      = Some (0, pair_kernel p c' [] [(wire e (RawM (g m)), name_address (pr_server p))])"
    using pair_send [OF assms(1) _ assms(6), of "named_socket 4 name"] by simp
  have "handleMessage IMMEDIATE_TIMEOUT h (named_socket 4 name, pair_kernel p c [(wire e (RawM m), name_address (pr_client p))] [])
      = Some (0, named_socket 4 name, pair_kernel p c' [] [(wire e (RawM (g m)), name_address (pr_server p))])"
    using assms(4,5) r s
    by (simp add: h handleMessage_def Handler_receive_def registerAll_server registerAll_handlers LinxIpcHandler_def
        responder_def sendResponse_def SimpleServer_send_def Let_def)
  then show ?thesis unfolding simple_turn_def by auto
qed

section \<open>Start-up\<close>

lemma threaded_starts:
  assumes "AfUnixFactory_createServer ref_sys self name sz ref_init = Some (Some (base, st), k0)"
    and "plain_name name" "sz < 2147483648" "h_server h = threaded_server e self base"
  shows "snd (Handler_start h st) = threaded_idle name (int sz) (lone_kernel (named_peers name rand [(5, 0)]) 0)"
proof -
  let ?p = "named_peers name rand [(5, 0)]"
  have "AfUnixSocket_open ref_sys (AfUnixSocket name) ref_init = Some (0, named_socket 4 name, lone_kernel (?p\<lparr>pr_efds := []\<rparr>) 0)"
    using server_opens [of ?p] assms(2) by simp
  moreover have "LinxEventFd ref_sys (lone_kernel (?p\<lparr>pr_efds := []\<rparr>) 0) = (\<lparr>efd = 5\<rparr>, lone_kernel ?p 0)"
    using lone_eventfd [of ?p 0] by (simp add: named_peers_def)
  moreover have "to_int32 (int sz) = int sz" using assms(3) by (simp add: to_int32_id)
  ultimately have "st = server_init (named_socket 4 name) (LinxQueue \<lparr>efd = 5\<rparr> (int sz)) (lone_kernel ?p 0)"
    using assms(1)
    by (auto simp: AfUnixFactory_createServer_def GenericServer_def GenericSimpleServer_def)
  then show ?thesis
    using assms(4)
    by (simp add: Handler_start_def GenericServer_ops_def GenericServer_start_def joinable_def server_init_def threaded_idle_def)
qed

lemma simple_starts:
  assumes "AfUnixFactory_createSimpleServer ref_sys self name ref_init = Some (Some (base, s), k0)" "plain_name name"
  shows "s = named_socket 4 name \<and> k0 = lone_kernel (named_peers name rand []) 0"
proof -
  let ?p = "named_peers name rand []"
  have "AfUnixSocket_open ref_sys (AfUnixSocket name) ref_init = Some (0, named_socket 4 name, lone_kernel (?p\<lparr>pr_efds := []\<rparr>) 0)"
    using server_opens [of ?p] assms(2) by simp
  moreover have "?p\<lparr>pr_efds := []\<rparr> = ?p" by (simp add: named_peers_def)
  ultimately show ?thesis
    using assms(1) by (auto simp: AfUnixFactory_createSimpleServer_def GenericSimpleServer_def)
qed

text \<open>A callback that sends the bytes of the payload back in the opposite order, and two requests.\<close>

definition demo_answer :: "raw_message \<Rightarrow> raw_message" where
  "demo_answer m = m\<lparr>rm_payload := rev (rm_payload m)\<rparr>"

definition demo_requests :: "(raw_message \<times> u32 list) list" where
  "demo_requests = [(\<lparr>rm_reqId = 7, rm_payload = [1, 2]\<rparr>, [7]), (\<lparr>rm_reqId = 7, rm_payload = []\<rparr>, [])]"

lemma demo_good: "\<forall>x \<in> set demo_requests. good_request demo_answer x"
  by (simp add: demo_requests_def good_request_def demo_answer_def IPC_PING_REQ_def)

lemma demo_answers: "map (Some \<circ> demo_answer \<circ> fst) demo_requests
    = [Some \<lparr>rm_reqId = 7, rm_payload = [2, 1]\<rparr>, Some \<lparr>rm_reqId = 7, rm_payload = []\<rparr>]"
  by (simp add: demo_requests_def demo_answer_def)

lemma demo_names: "CHR 0x00 \<notin> set ''srv''" "length ''srv'' \<le> 93" "(0 :: nat) < 10" "(10 :: nat) < 2147483648" "(5 :: nat) \<le> 65535"
  by simp_all

definition demo_base :: generic_simple_server where
  "demo_base = \<lparr>ss_serverId = ''srv'', ss_socket = 1\<rparr>"

definition demo_threaded_handler :: "(unit, threaded_world) linx_ipc_handler" where
  "demo_threaded_handler =
     registerCallback 7 (Some (responder (\<lambda>_. Some (threaded_server BigEndian 1 demo_base)) demo_answer)) ()
       (LinxIpcHandler (threaded_server BigEndian 1 demo_base))"

definition demo_simple_handler :: "(unit, simple_world) linx_ipc_handler" where
  "demo_simple_handler =
     registerCallback 7 (Some (responder (\<lambda>_. Some (simple_server BigEndian 1 demo_base)) demo_answer)) ()
       (LinxIpcHandler (simple_server BigEndian 1 demo_base))"

section \<open>Properties\<close>





end
