(* ===== verification/EchoServer.thy ===== *)
theory EchoServer
  imports ServerLifecycle
begin

text \<open>
  The program \<open>server_app\<close> (examples/client-server-example/server.cpp): a threaded Unix server that sends
  every message it receives back to its sender. Its main thread runs next to the worker thread of the
  server; the step relation interleaves the two with the environment. What the program prints is left
  out. Every step is one of the threaded server, so the invariants of the latter carry over; the
  properties say what is sent back, to whom and in which order.
\<close>

section \<open>Model\<close>

text \<open>
  Where the main thread is: inside \<open>server->receive(1000)\<close>, or before the answer to what this returned.
  The echoes sent so far, with the result of \<open>send\<close>, are recorded for the specification.
\<close>

datatype main_pc = MainReceive | MainEcho linx_received_message

record ('s, 'k) echo_state =
  es_server :: "('s, 'k) server_state"
  es_pc :: main_pc
  es_echoed :: "(linx_received_message \<times> int) list"

definition echo_start :: "('s, 'k) server_state \<Rightarrow> ('s, 'k) echo_state" where
  "echo_start st = \<lparr>es_server = snd (GenericServer_start st), es_pc = MainReceive, es_echoed = []\<rparr>"

text \<open>\<open>main\<close> up to its loop: exit code -1, or the state in which the loop begins.\<close>

definition server_main ::
  "'k sys \<Rightarrow> nat \<Rightarrow> 'k \<Rightarrow> ((int + (af_unix_socket, 'k) echo_state) \<times> 'k) option" where
  "server_main S obj k =
     do {
       (server, k1) \<leftarrow> AfUnixFactory_createServer S obj ''ExampleServer'' 10 k;
       case server of
         None \<Rightarrow> Some (Inl (- 1), k1)
       | Some (base, st) \<Rightarrow> Some (Inr (echo_start st), k1)
     }"

definition echo_send ::
  "('i, 's, 'k) socket_ops \<Rightarrow> linx_received_message \<Rightarrow> 's \<Rightarrow> 'k \<Rightarrow> (int \<times> 'k) option" where
  "echo_send V receivedMsg s k =
     do { from \<leftarrow> lr_from receivedMsg; SimpleServer_send V (RawM (lr_message receivedMsg)) from s k }"

inductive echo_step ::
  "('i, 's, 'k) socket_ops \<Rightarrow> 'k sys \<Rightarrow> nat \<Rightarrow> ('k \<Rightarrow> 'k \<Rightarrow> bool) \<Rightarrow>
     ('s, 'k) echo_state \<Rightarrow> queue_label \<Rightarrow> ('s, 'k) echo_state \<Rightarrow> bool"
  for V S self env where
  echo_receive: "sv_worker (es_server x) = AtReceive \<Longrightarrow> task_receive V (es_server x) = Some st \<Longrightarrow>
     echo_step V S self env x [] (x\<lparr>es_server := st\<rparr>)"
| echo_dispatch: "sv_worker (es_server x) = AtDispatch m f \<Longrightarrow>
     task_dispatch V S self m f (es_server x) = Some (lab, st) \<Longrightarrow>
     echo_step V S self env x lab (x\<lparr>es_server := st\<rparr>)"
| main_receive: "es_pc x = MainReceive \<Longrightarrow>
     getMessage S LINX_ANY_SIG LINX_ANY_FROM (sv_queue (es_server x)) (sv_kernel (es_server x)) = (r, q, k) \<Longrightarrow>
     echo_step V S self env x [(OpGet LINX_ANY_SIG LINX_ANY_FROM, Got r)]
       (x\<lparr>es_server := (es_server x)\<lparr>sv_queue := q, sv_kernel := k\<rparr>,
          es_pc := (case r of None \<Rightarrow> MainReceive | Some lr \<Rightarrow> MainEcho lr)\<rparr>)"
| main_echo: "es_pc x = MainEcho lr \<Longrightarrow>
     echo_send V lr (sv_socket (es_server x)) (sv_kernel (es_server x)) = Some (r, k) \<Longrightarrow>
     echo_step V S self env x []
       (x\<lparr>es_server := (es_server x)\<lparr>sv_kernel := k\<rparr>, es_pc := MainReceive,
          es_echoed := es_echoed x @ [(lr, r)]\<rparr>)"
| echo_environment: "env (sv_kernel (es_server x)) k \<Longrightarrow>
     echo_step V S self env x [] (x\<lparr>es_server := (es_server x)\<lparr>sv_kernel := k\<rparr>\<rparr>)"

inductive echo_run ::
  "('i, 's, 'k) socket_ops \<Rightarrow> 'k sys \<Rightarrow> nat \<Rightarrow> ('k \<Rightarrow> 'k \<Rightarrow> bool) \<Rightarrow>
     ('s, 'k) echo_state \<Rightarrow> queue_label \<Rightarrow> ('s, 'k) echo_state \<Rightarrow> bool"
  for V S self env where
  echo_refl: "echo_run V S self env x [] x"
| echo_more: "echo_run V S self env x tr y \<Longrightarrow> echo_step V S self env y lab z \<Longrightarrow>
     echo_run V S self env x (tr @ lab) z"

section \<open>The program as a client of the threaded server\<close>

lemma echo_step_server:
  assumes "echo_step V S self env x lab y"
  shows "server_step V S self env (es_server x) lab (es_server y)"
  using assms
proof cases
  case echo_receive
  then show ?thesis by (simp add: server_step.worker_receive)
next
  case echo_dispatch
  then show ?thesis by (simp add: server_step.worker_dispatch)
next
  case main_receive
  then show ?thesis by (simp add: server_step.user_get)
next
  case (main_echo lr r k)
  then obtain f where "SimpleServer_send V (RawM (lr_message lr)) f (sv_socket (es_server x)) (sv_kernel (es_server x)) = Some (r, k)"
    by (auto simp: echo_send_def split: bind_splits)
  with main_echo show ?thesis by (simp add: server_step.user_send)
next
  case echo_environment
  then show ?thesis by (simp add: server_step.environment)
qed

lemma echo_run_server:
  "echo_run V S self env x tr y \<Longrightarrow> server_run V S self env (es_server x) tr (es_server y)"
  by (induction rule: echo_run.induct) (auto intro: server_run.intros echo_step_server)

text \<open>The steps as a function of a schedule that says which thread moves next.\<close>

datatype echo_choice = WorkerReceives | WorkerDispatches | MainReceives | MainEchoes

fun echo_do :: "('i, 's, 'k) socket_ops \<Rightarrow> 'k sys \<Rightarrow> nat \<Rightarrow> echo_choice \<Rightarrow> ('s, 'k) echo_state
    \<Rightarrow> (queue_label \<times> ('s, 'k) echo_state) option" where
  "echo_do V S self WorkerReceives x =
     (case sv_worker (es_server x) of
        AtReceive \<Rightarrow> map_option (\<lambda>st. ([], x\<lparr>es_server := st\<rparr>)) (task_receive V (es_server x))
      | _ \<Rightarrow> None)"
| "echo_do V S self WorkerDispatches x =
     (case sv_worker (es_server x) of
        AtDispatch m f \<Rightarrow>
          map_option (\<lambda>(lab, st). (lab, x\<lparr>es_server := st\<rparr>)) (task_dispatch V S self m f (es_server x))
      | _ \<Rightarrow> None)"
| "echo_do V S self MainReceives x =
     (case es_pc x of
        MainReceive \<Rightarrow>
          (let (r, q, k) = getMessage S LINX_ANY_SIG LINX_ANY_FROM (sv_queue (es_server x)) (sv_kernel (es_server x)) in
           Some ([(OpGet LINX_ANY_SIG LINX_ANY_FROM, Got r)],
             x\<lparr>es_server := (es_server x)\<lparr>sv_queue := q, sv_kernel := k\<rparr>,
               es_pc := (case r of None \<Rightarrow> MainReceive | Some lr \<Rightarrow> MainEcho lr)\<rparr>))
      | _ \<Rightarrow> None)"
| "echo_do V S self MainEchoes x =
     (case es_pc x of
        MainEcho lr \<Rightarrow>
          map_option (\<lambda>(r, k). ([], x\<lparr>es_server := (es_server x)\<lparr>sv_kernel := k\<rparr>, es_pc := MainReceive,
              es_echoed := es_echoed x @ [(lr, r)]\<rparr>))
            (echo_send V lr (sv_socket (es_server x)) (sv_kernel (es_server x)))
      | _ \<Rightarrow> None)"

fun echo_exec :: "('i, 's, 'k) socket_ops \<Rightarrow> 'k sys \<Rightarrow> nat \<Rightarrow> echo_choice list \<Rightarrow> ('s, 'k) echo_state
    \<Rightarrow> (queue_label \<times> ('s, 'k) echo_state) option" where
  "echo_exec V S self [] x = Some ([], x)"
| "echo_exec V S self (c # cs) x =
     (case echo_do V S self c x of
        None \<Rightarrow> None
      | Some (lab, y) \<Rightarrow> map_option (\<lambda>(tr, z). (lab @ tr, z)) (echo_exec V S self cs y))"

lemma echo_do_step:
  "echo_do V S self c x = Some (lab, y) \<Longrightarrow> echo_step V S self env x lab y"
  by (cases c) (auto intro: echo_step.intros split: worker_pc.splits main_pc.splits prod.splits)

lemma echo_exec_from:
  "echo_exec V S self cs y = Some (tr, z) \<Longrightarrow> echo_run V S self env x tr0 y \<Longrightarrow>
    echo_run V S self env x (tr0 @ tr) z"
proof (induction cs arbitrary: y tr tr0)
  case (Cons c cs)
  then obtain lab y1 tr1 where s: "echo_do V S self c y = Some (lab, y1)"
    and r: "echo_exec V S self cs y1 = Some (tr1, z)" and tr: "tr = lab @ tr1"
    by (auto split: option.splits prod.splits)
  from Cons.IH [OF r echo_run.echo_more [OF Cons.prems(2) echo_do_step [OF s]]] tr show ?case by simp
qed simp

lemma echo_exec_run: "echo_exec V S self cs x = Some (tr, y) \<Longrightarrow> echo_run V S self env x tr y"
  using echo_exec_from [OF _ echo_run.echo_refl] by fastforce

section \<open>What is echoed\<close>

text \<open>The messages that the queue accepted, in order; the one that the main thread has in hand.\<close>

definition accepted :: "queue_label \<Rightarrow> linx_received_message list" where
  "accepted tr = concat (map (\<lambda>(x, out). case x of OpAdd m \<Rightarrow> if out = Added True then [m] else [] | _ \<Rightarrow> []) tr)"

definition in_hand :: "main_pc \<Rightarrow> linx_received_message list" where
  "in_hand pc = (case pc of MainReceive \<Rightarrow> [] | MainEcho lr \<Rightarrow> [lr])"

lemma accepted_append [simp]: "accepted (xs @ ys) = accepted xs @ accepted ys"
  by (simp add: accepted_def)

lemma accepted_Nil [simp]: "accepted [] = []"
  by (simp add: accepted_def)

lemma mb_take_any: "mb_take (queue_match LINX_ANY_SIG LINX_ANY_FROM) ms =
    (case ms of [] \<Rightarrow> (None, []) | m # rest \<Rightarrow> (Some m, rest))"
  by (cases ms) (simp_all add: mb_take_def)

lemma task_dispatch_cases:
  assumes "task_dispatch V S self m f st = Some (lab, st')"
  obtains "lab = []" "sv_queue st' = sv_queue st"
  | c r q k where "lab = [(OpAdd c, Added (r = 0))]" "LinxQueue_add S c (sv_queue st) (sv_kernel st) = (r, q, k)"
    "sv_queue st' = q"
proof -
  obtain msg where m: "m = Some msg" using assms by (cases m) (auto simp: task_dispatch_def)
  show thesis
  proof (cases "rm_reqId msg = IPC_PING_REQ")
    case True
    with assms m that(1) show ?thesis by (auto simp: task_dispatch_def split: bind_splits)
  next
    case False
    obtain r q k where a: "LinxQueue_add S \<lparr>lr_message = msg, lr_from = f, lr_server = self\<rparr> (sv_queue st) (sv_kernel st)
        = (r, q, k)" by (metis prod_cases3)
    with assms m False have "lab = [(OpAdd \<lparr>lr_message = msg, lr_from = f, lr_server = self\<rparr>, Added (r = 0))]"
      "sv_queue st' = q"
      by (auto simp: task_dispatch_def Let_def split: if_splits)
    with a that(2) show ?thesis by blast
  qed
qed

lemma echo_step_accounts:
  assumes "echo_step V S self env x lab y"
  shows "map fst (es_echoed x) @ in_hand (es_pc x) @ q_queue (sv_queue (es_server x)) @ accepted lab
    = map fst (es_echoed y) @ in_hand (es_pc y) @ q_queue (sv_queue (es_server y))"
  using assms
proof cases
  case echo_receive
  then show ?thesis by (auto simp: task_receive_def split: bind_splits)
next
  case (echo_dispatch m f st)
  from echo_dispatch(3) show ?thesis
  proof (cases rule: task_dispatch_cases)
    case 1
    with echo_dispatch(1) show ?thesis by simp
  next
    case (2 c r q k)
    from LinxQueue_add_fields(2) [OF 2(2)] 2 echo_dispatch(1) show ?thesis
      by (auto simp: accepted_def)
  qed
next
  case (main_receive r q k)
  then have "mb_take (queue_match LINX_ANY_SIG LINX_ANY_FROM) (q_queue (sv_queue (es_server x))) = (r, q_queue q)"
    using findMessage_fields(1) by (metis getMessage_def)
  with main_receive show ?thesis
    by (auto simp: mb_take_any accepted_def in_hand_def split: list.splits)
next
  case main_echo
  then show ?thesis by (simp add: in_hand_def)
qed auto

lemma echo_run_accounts:
  "echo_run V S self env x tr y \<Longrightarrow>
    map fst (es_echoed x) @ in_hand (es_pc x) @ q_queue (sv_queue (es_server x)) @ accepted tr
    = map fst (es_echoed y) @ in_hand (es_pc y) @ q_queue (sv_queue (es_server y))"
proof (induction rule: echo_run.induct)
  case (echo_more x tr y lab z)
  from echo_more.IH echo_step_accounts [OF echo_more.hyps(2)] show ?case
    by (simp flip: append_assoc)
qed simp

text \<open>Everything that was accepted is an application message of this server.\<close>

definition echo_inv :: "('i, 's, 'k) socket_ops \<Rightarrow> nat \<Rightarrow> ('s, 'k) echo_state \<Rightarrow> bool" where
  "echo_inv V self x \<longleftrightarrow> server_inv V self (es_server x)
     \<and> (\<forall>lr \<in> set (map fst (es_echoed x) @ in_hand (es_pc x)). app_message V self lr)"

context generic_socket
begin

lemma echo_step_inv:
  assumes "echo_inv V self x" "echo_step V S self env x lab y"
  shows "echo_inv V self y"
proof -
  have s: "server_inv V self (es_server y)"
    using assms(1) step_inv [OF _ echo_step_server [OF assms(2)]] by (simp add: echo_inv_def)
  have q: "\<forall>lr \<in> set (q_queue (sv_queue (es_server x))). app_message V self lr"
    using assms(1) by (simp add: echo_inv_def server_inv_def)
  from assms(2) have "\<forall>lr \<in> set (map fst (es_echoed y) @ in_hand (es_pc y)). app_message V self lr"
  proof cases
    case (main_receive r q' k')
    from main_receive(4) have "mb_take (queue_match LINX_ANY_SIG LINX_ANY_FROM) (q_queue (sv_queue (es_server x))) = (r, q_queue q')"
      by (simp add: getMessage_def findMessage_fields(1))
    with q have "\<forall>lr. r = Some lr \<longrightarrow> app_message V self lr"
      by (auto simp: mb_take_any split: list.splits)
    with main_receive assms(1) show ?thesis by (auto simp: echo_inv_def in_hand_def split: option.splits)
  qed (use assms(1) in \<open>auto simp: echo_inv_def in_hand_def\<close>)
  with s show ?thesis by (simp add: echo_inv_def)
qed

lemma echo_run_inv: "echo_run V S self env x tr y \<Longrightarrow> echo_inv V self x \<Longrightarrow> echo_inv V self y"
  by (induction rule: echo_run.induct) (auto intro: echo_step_inv)

lemma echo_start_inv: "echo_inv V self (echo_start (server_init s (LinxQueue e sz) k))"
  by (simp add: echo_inv_def echo_start_def in_hand_def GenericServer_start_def joinable_def server_init_def
      server_inv_def LinxQueue_def)

lemma echo_send_app:
  assumes "app_message V self lr"
  shows "\<exists>i. lr_from lr = Some (so_upcast V i) \<and> echo_send V lr = so_send V (RawM (lr_message lr)) i"
  using assms by (auto simp: app_message_def echo_send_def fun_eq_iff)

end

section \<open>Properties\<close>

text \<open>
  C24. The echo server loses, repeats and reorders nothing it has accepted: in every interleaving of
  its two threads with the environment, the messages that its queue accepted are, in order, those
  already sent back, the one in the hands of the main thread, and those waiting in the queue. None of
  them is a ping, and what the main thread sends back goes to the identifier the message came from.
\<close>

theorem echo_server_fifo:
  assumes "generic_socket V" and "echo_run V S self env (echo_start (server_init s (LinxQueue e sz) k)) tr x"
  shows "accepted tr = map fst (es_echoed x) @ in_hand (es_pc x) @ q_queue (sv_queue (es_server x))
    \<and> (\<forall>lr \<in> set (accepted tr). rm_reqId (lr_message lr) \<noteq> IPC_PING_REQ
        \<and> (\<exists>i. lr_from lr = Some (so_upcast V i) \<and> echo_send V lr = so_send V (RawM (lr_message lr)) i))"
proof -
  have i: "echo_inv V self x"
    by (rule generic_socket.echo_run_inv [OF assms generic_socket.echo_start_inv [OF assms(1)]])
  have a: "accepted tr = map fst (es_echoed x) @ in_hand (es_pc x) @ q_queue (sv_queue (es_server x))"
    using echo_run_accounts [OF assms(2)]
    by (simp add: echo_start_def in_hand_def GenericServer_start_def joinable_def server_init_def LinxQueue_def)
  from i have "\<forall>lr \<in> set (accepted tr). app_message V self lr"
    unfolding a by (auto simp: echo_inv_def server_inv_def)
  with a generic_socket.echo_send_app [OF assms(1)] show ?thesis by (auto simp: app_message_def)
qed

theorem echo_server_fifo_witness:
  "\<exists>tr x. echo_run (AfUnixSocket_ops ref_sys LittleEndian) ref_sys 3 (\<lambda>_ _. False)
      (echo_start (server_init demo_unix_socket (LinxQueue \<lparr>efd = 5\<rparr> 2) demo_echo_kernel)) tr x
    \<and> map (lr_message \<circ> fst) (es_echoed x) = [\<lparr>rm_reqId = 7, rm_payload = [1]\<rparr>]
    \<and> accepted tr = map fst (es_echoed x)"
proof -
  let ?x0 = "echo_start (server_init demo_unix_socket (LinxQueue \<lparr>efd = 5\<rparr> 2) demo_echo_kernel)"
  have "map_option (\<lambda>(tr, x). (map (lr_message \<circ> fst) (es_echoed x), es_pc x = MainReceive, q_queue (sv_queue (es_server x)) = []))
      (echo_exec (AfUnixSocket_ops ref_sys LittleEndian) ref_sys 3
        [WorkerReceives, WorkerDispatches, WorkerReceives, WorkerDispatches, MainReceives, MainEchoes] ?x0)
    = Some ([\<lparr>rm_reqId = 7, rm_payload = [1]\<rparr>], True, True)"
    by code_simp
  then obtain tr x where e: "echo_exec (AfUnixSocket_ops ref_sys LittleEndian) ref_sys 3
        [WorkerReceives, WorkerDispatches, WorkerReceives, WorkerDispatches, MainReceives, MainEchoes] ?x0 = Some (tr, x)"
    and x: "map (lr_message \<circ> fst) (es_echoed x) = [\<lparr>rm_reqId = 7, rm_payload = [1]\<rparr>]"
      "es_pc x = MainReceive" "q_queue (sv_queue (es_server x)) = []" by auto
  note r = echo_exec_run [OF e, of "\<lambda>_ _. False"]
  have "accepted tr = map fst (es_echoed x)"
    using conjunct1 [OF echo_server_fifo [OF unix_socket.generic_socket_axioms r]] x(2,3) by (simp add: in_hand_def)
  with x(1) r show ?thesis by (intro exI conjI)
qed



end
