(* ===== verification/EchoClient.thy ===== *)
theory EchoClient
  imports EchoServer
begin

text \<open>
  The program \<open>client_app\<close> (examples/client-server-example/client.cpp): it sends one message to the echo
  server, waits for the answer and compares the two. The model is the whole of \<open>main\<close>; a constructor
  of \<open>client_line\<close> stands for the text of one output statement, with the values that it prints.
\<close>

section \<open>Model\<close>

datatype client_line =
    Banner
  | CreatingClient string u32 nat
  | CreateFailed
  | ConnectFailed
  | SendingMessage
  | WaitingForResponse
  | ResponseReceived u32 u32
  | PayloadMismatch nat u8 u8
  | ReqIdMatches
  | ReqIdMismatch u32
  | SizeMatches
  | SizeMismatch nat u32
  | PayloadMatches
  | Success
  | VerificationFailed
  | NoResponse
  | UsageText string
  | FinalRule

text \<open>The program ends with an exit code, or by an exception that nobody catches.\<close>

datatype program_end = Exit int | UncaughtException

text \<open>The largest \<open>std::vector<uint8_t>\<close>.\<close>

definition vector_max :: nat where "vector_max = 9223372036854775807"

definition client_pattern :: "nat \<Rightarrow> u8 list" where
  "client_pattern messageSize = map (\<lambda>i. of_nat (48 + i mod 10)) [0..<messageSize]"

definition first_mismatch :: "u8 list \<Rightarrow> u8 list \<Rightarrow> nat \<Rightarrow> nat option" where
  "first_mismatch sentData responseData messageSize =
     find (\<lambda>i. responseData ! i \<noteq> sentData ! i) [0..<messageSize]"

text \<open>The checks on the response: what is printed, and whether they succeed. \<open>memcmp\<close> is a checked access.\<close>

definition client_verify :: "u32 \<Rightarrow> nat \<Rightarrow> raw_message \<Rightarrow> raw_message \<Rightarrow> (client_line list \<times> bool) option" where
  "client_verify reqId messageSize message response =
     do {
       let reqIdMatch = (rm_reqId response = reqId);
       let sizeMatch = (getPayloadSize (RawM response) = getPayloadSize (RawM message));
       (payloadMatch, mismatch) \<leftarrow>
         (if sizeMatch then do {
            a \<leftarrow> read_at (rm_payload message) 0 messageSize;
            b \<leftarrow> read_at (rm_payload response) 0 messageSize;
            Some (a = b,
              if a = b then []
              else (case first_mismatch a b messageSize of
                      None \<Rightarrow> []
                    | Some i \<Rightarrow> [PayloadMismatch i (a ! i) (b ! i)]))
          }
          else Some (False, []));
       let allMatch = (reqIdMatch \<and> sizeMatch \<and> payloadMatch);
       Some (ResponseReceived (rm_reqId response) (getPayloadSize (RawM response))
             # mismatch
             @ [if reqIdMatch then ReqIdMatches else ReqIdMismatch reqId,
                if sizeMatch then SizeMatches else SizeMismatch messageSize (getSize (RawM response))]
             @ (if payloadMatch then [PayloadMatches] else [])
             @ [if allMatch then Success else VerificationFailed],
             allMatch)
     }"

text \<open>
  From the connection to the end of the checks, the objects of the block being alive. The result of
  \<open>send\<close> is not looked at.
\<close>

definition client_exchange ::
  "'k sys \<Rightarrow> endian \<Rightarrow> unix_info generic_client \<Rightarrow> u32 \<Rightarrow> nat \<Rightarrow> af_unix_socket \<Rightarrow> 'k
     \<Rightarrow> (program_end \<times> client_line list \<times> 'k) option" where
  "client_exchange S e client reqId messageSize s k =
     do {
       (connected, k1) \<leftarrow> GenericClient_connect (AfUnixSocket_ops S e) S client 5000 s k;
       if \<not> connected then Some (Exit (- 1), [ConnectFailed], k1)
       else if vector_max < messageSize then Some (UncaughtException, [], k1)
       else do {
         let buffer = client_pattern messageSize;
         message \<leftarrow> RawMessage_buffer reqId buffer (of_nat messageSize);
         (ret, k2) \<leftarrow> GenericClient_send (AfUnixSocket_ops S e) client (RawM message) s k1;
         (response, k3) \<leftarrow> GenericClient_receive (AfUnixSocket_ops S e) S client 5000 LINX_ANY_SIG s k2;
         case response of
           None \<Rightarrow> Some (Exit (- 1), [SendingMessage, WaitingForResponse, NoResponse], k3)
         | Some r \<Rightarrow> do {
             (lines, ok) \<leftarrow> client_verify reqId messageSize message r;
             Some (Exit (if ok then 0 else - 1), [SendingMessage, WaitingForResponse] @ lines, k3)
           }
       }
     }"

text \<open>
  The destructor of the client, and of the socket with it. It runs on every way out of the block; an
  uncaught exception ends the process without it.
\<close>

definition client_release :: "'k sys \<Rightarrow> endian \<Rightarrow> af_unix_socket \<Rightarrow> 'k \<Rightarrow> 'k" where
  "client_release S e s k =
     (let (s1, k1) = GenericClient_dtor (AfUnixSocket_ops S e) s k in AfUnixSocket_dtor S s1 k1)"

definition client_main ::
  "'k sys \<Rightarrow> endian \<Rightarrow> nat \<Rightarrow> nat \<Rightarrow> string list \<Rightarrow> 'k \<Rightarrow> (program_end \<times> client_line list \<times> 'k) option" where
  "client_main S e obj rand argv k =
     (if 3 \<le> length argv then do {
        i \<leftarrow> atoi (argv ! 1);
        j \<leftarrow> atoi (argv ! 2);
        let reqId = (of_int i :: u32);
        let messageSize = to_size_t j;
        let serverName = (if 4 \<le> length argv then argv ! 3 else ''ExampleServer'');
        let intro = [Banner, CreatingClient serverName reqId messageSize];
        (created, k1) \<leftarrow> AfUnixFactory_createClient S obj rand serverName k;
        case created of
          None \<Rightarrow> Some (Exit (- 1), intro @ [CreateFailed], k1)
        | Some (client, s) \<Rightarrow> do {
            (r, lines, k2) \<leftarrow> client_exchange S e client reqId messageSize s k1;
            Some (r, intro @ lines @ (if r = Exit 0 then [FinalRule] else []),
                  if r = UncaughtException then k2 else client_release S e s k2)
          }
      }
      else Some (Exit 0, [Banner, UsageText (if argv = [] then ''./client_app'' else argv ! 0), FinalRule], k))"

section \<open>The checks\<close>

lemma length_client_pattern [simp]: "length (client_pattern n) = n"
  by (simp add: client_pattern_def)

lemma client_verify_ok:
  assumes "client_verify reqId n message response = Some (lines, ok)"
    and "rm_payload message = client_pattern n" "rm_reqId message = reqId" "n < 4294967296"
    and "length (rm_payload response) < 4294967296"
  shows "(ok \<longleftrightarrow> response = message) \<and> (Success \<in> set lines \<longleftrightarrow> ok)"
proof (cases "length (rm_payload response) = n")
  case True
  then have s: "getPayloadSize (RawM response) = getPayloadSize (RawM message)"
    using assms(2) by simp
  have m: "read_at (rm_payload message) 0 n = Some (rm_payload message)"
    "read_at (rm_payload response) 0 n = Some (rm_payload response)"
    using True assms(2) by (simp_all add: read_at_def)
  have "ok \<longleftrightarrow> rm_reqId response = reqId \<and> rm_payload response = rm_payload message"
    and "Success \<in> set lines \<longleftrightarrow> ok"
    using assms(1) s m by (auto simp: client_verify_def Let_def split: option.splits if_splits)
  with assms(3) show ?thesis by auto
next
  case False
  have "(of_nat (length (rm_payload response)) :: u32) \<noteq> of_nat n"
  proof
    assume "(of_nat (length (rm_payload response)) :: u32) = of_nat n"
    from arg_cong [OF this, of unat] assms(4,5) False show False by (simp add: unat_of_nat)
  qed
  then have s: "getPayloadSize (RawM response) \<noteq> getPayloadSize (RawM message)" using assms(2) by simp
  have "\<not> ok" "Success \<notin> set lines" using assms(1) s by (auto simp: client_verify_def Let_def split: if_splits)
  moreover have "response \<noteq> message" using False assms(2) by auto
  ultimately show ?thesis by simp
qed

text \<open>The number of bytes that the program says it got is not the one it has compared.\<close>

lemma size_mismatch_text:
  "map_option fst (client_verify 7 10 \<lparr>rm_reqId = 7, rm_payload = client_pattern 10\<rparr>
      \<lparr>rm_reqId = 7, rm_payload = client_pattern 6\<rparr>)
    = Some [ResponseReceived 7 6, ReqIdMatches, SizeMismatch 10 10, VerificationFailed]"
  by code_simp

section \<open>Descriptors\<close>

lemma client_receive_loop_fds:
  "client_receive_loop V S this sigsel dl msg fr s k = Some r \<Longrightarrow> frame_socket V fds good S \<Longrightarrow> r = (m, k') \<Longrightarrow>
    fds k' = fds k"
proof (induction rule: client_receive_loop.raw_induct [rotated, consumes 1, case_names 1])
  case (1 loop V S this sigsel dl msg fr s k r)
  note IH = "1"(1) and body = "1"(2) and frame = "1.prems"(1) and result = "1.prems"(2)
  have sys: "fd_frame_sys S fds" using frame by (simp add: frame_socket_def)
  obtain t k1 where t: "getRemainingTimeMs_at S dl k = (t, k1)" by fastforce
  obtain ret m0 f k2 where x: "so_receive V True True t s k1 = Some ((ret, m0, f), k2)"
    using body t by (cases "so_receive V True True t s k1") auto
  obtain b k3 where e: "isExpired_at S dl k2 = (b, k3)" by fastforce
  have k: "fds k2 = fds k" "fds k3 = fds k"
    using fd_frame_sys.getRemainingTimeMs_at_fds [OF sys t] frame_socket.receive_fds [OF frame x]
      fd_frame_sys.isExpired_at_fds [OF sys e] by auto
  let ?m = "if m0 = None then msg else m0" and ?f = "if f = None then fr else f"
  show ?case
  proof (cases "ret \<le> 0 \<or> client_predicate V this sigsel ?m ?f = Some True \<or> b")
    case True
    with body result t x e k show ?thesis
      by (cases "client_predicate V this sigsel ?m ?f") (auto simp: Let_def split: if_splits)
  next
    case False
    with body t x e have "loop V S this sigsel dl ?m ?f s k3 = Some r"
      by (cases "client_predicate V this sigsel ?m ?f") (auto simp: Let_def split: if_splits)
    from IH [OF this frame result] k show ?thesis by simp
  qed
qed

context frame_socket
begin

lemma client_receive_fds:
  assumes "GenericClient_receive V S this t sigsel s k = Some (m, k')"
  shows "fds k' = fds k"
proof -
  obtain dl k1 where d: "Deadline_at S t k = (dl, k1)" by fastforce
  with assms have "client_receive_loop V S this sigsel dl None None s k1 = Some (m, k')"
    by (simp add: GenericClient_receive_def)
  from client_receive_loop_fds [OF this frame_socket_axioms refl] Deadline_at_fds [OF d] show ?thesis by simp
qed

end

lemma client_connect_loop_fds:
  "client_connect_loop V S this dl s k = Some r \<Longrightarrow> frame_socket V fds good S \<Longrightarrow> r = (c, k') \<Longrightarrow> fds k' = fds k"
proof (induction rule: client_connect_loop.raw_induct [rotated, consumes 1, case_names 1])
  case (1 loop V S this dl s k r)
  note IH = "1"(1) and body = "1"(2) and frame = "1.prems"(1) and result = "1.prems"(2)
  have sys: "fd_frame_sys S fds" using frame by (simp add: frame_socket_def)
  obtain len k1 where l: "GenericClient_send V this (RawM (RawMessage IPC_PING_REQ)) s k = Some (len, k1)"
    using body by (cases "GenericClient_send V this (RawM (RawMessage IPC_PING_REQ)) s k") auto
  then have k1: "fds k1 = fds k"
    using frame_socket.send_fds [OF frame] by (auto simp: GenericClient_send_def)
  obtain rsp k2 where r: "(if len \<ge> 0 then GenericClient_receive V S this pingTimeout [IPC_PING_RSP] s k1
      else Some (None, k1)) = Some (rsp, k2)"
    using body l by (cases "if len \<ge> 0 then GenericClient_receive V S this pingTimeout [IPC_PING_RSP] s k1
      else Some (None, k1)") (auto split: if_splits)
  then have k2: "fds k2 = fds k"
    using k1 frame_socket.client_receive_fds [OF frame] by (auto split: if_splits)
  obtain b k3 where e: "isExpired_at S dl k2 = (b, k3)" by fastforce
  have k3: "fds k3 = fds k" using k2 fd_frame_sys.isExpired_at_fds [OF sys e] by simp
  from body l r e have "(if rsp \<noteq> None then Some (True, k2) else if b then Some (False, k3) else loop V S this dl s k3) = Some r"
    by (auto split: if_splits)
  with IH [OF _ frame result] result k2 k3 show ?case by (auto split: if_splits)
qed

context frame_socket
begin

lemma client_connect_fds:
  assumes "GenericClient_connect V S this t s k = Some (c, k')"
  shows "fds k' = fds k"
proof -
  obtain dl k1 where d: "Deadline_at S t k = (dl, k1)" by fastforce
  with assms have "client_connect_loop V S this dl s k1 = Some (c, k')"
    by (simp add: GenericClient_connect_def)
  from client_connect_loop_fds [OF this frame_socket_axioms refl] Deadline_at_fds [OF d] show ?thesis by simp
qed

end

lemma client_exchange_fds:
  assumes "fd_frame_sys S fds" "client_exchange S e client reqId n s k = Some (r, out, k')"
  shows "fds k' = fds k"
proof -
  note f = fd_frame_sys.frame_sockets(1) [OF assms(1), of e]
  obtain c k1 where c: "GenericClient_connect (AfUnixSocket_ops S e) S client 5000 s k = Some (c, k1)"
    using assms(2) by (auto simp: client_exchange_def split: bind_splits)
  note k1 = frame_socket.client_connect_fds [OF f c]
  show ?thesis
  proof (cases "\<not> c \<or> vector_max < n")
    case True
    with assms(2) c k1 show ?thesis by (auto simp: client_exchange_def split: if_splits)
  next
    case False
    with assms(2) c obtain msg ret k2 rsp where
      s: "GenericClient_send (AfUnixSocket_ops S e) client (RawM msg) s k1 = Some (ret, k2)"
      and r: "GenericClient_receive (AfUnixSocket_ops S e) S client 5000 LINX_ANY_SIG s k2 = Some (rsp, k')"
      by (auto simp: client_exchange_def Let_def split: bind_splits option.splits)
    have "fds k2 = fds k1" using s frame_socket.send_fds [OF f] unfolding GenericClient_send_def by blast
    with k1 frame_socket.client_receive_fds [OF f r] show ?thesis by simp
  qed
qed

section \<open>The exchange\<close>

lemma client_received_size:
  assumes "GenericClient_receive (AfUnixSocket_ops S e) S client t sigsel s k = Some (Some m, k')"
    and "\<And>fd k n k'. sys_fionread S fd k = (Some n, k') \<Longrightarrow> n < 2147483648"
  shows "length (rm_payload m) < 2147483648"
proof -
  obtain dl k1 where d: "Deadline_at S t k = (dl, k1)" by fastforce
  with assms(1) have "client_receive_loop (AfUnixSocket_ops S e) S client sigsel dl None None s k1 = Some (Some m, k')"
    by (simp add: GenericClient_receive_def)
  from client_loop_sound [OF this unix_socket.generic_socket_axioms refl] obtain k2 t' ret f
    where "AfUnixSocket_receive S e True True t' s k2 = Some ((ret, Some m, Some f), k')" by auto
  from dgram_receive_inv [OF this [unfolded AfUnixSocket_receive_eq]] assms(2) show ?thesis by fastforce
qed

lemma RawMessage_buffer_pattern:
  "n < 4294967296 \<Longrightarrow> RawMessage_buffer reqId (client_pattern n) (of_nat n) = Some \<lparr>rm_reqId = reqId, rm_payload = client_pattern n\<rparr>"
  by (simp add: RawMessage_buffer_def read_at_def unat_of_nat)

lemma client_exchange_success:
  assumes "client_exchange S e client reqId n s k = Some (r, out, k')" and "n < 4294967296 \<or> vector_max < n"
    and "\<And>fd k n k'. sys_fionread S fd k = (Some n, k') \<Longrightarrow> n < 2147483648"
  shows "(Success \<in> set out \<longleftrightarrow> r = Exit 0)
    \<and> (r = Exit 0 \<longrightarrow> n \<le> vector_max \<and> (\<exists>k1 ret k2 k3.
        GenericClient_connect (AfUnixSocket_ops S e) S client 5000 s k = Some (True, k1)
      \<and> GenericClient_send (AfUnixSocket_ops S e) client (RawM \<lparr>rm_reqId = reqId, rm_payload = client_pattern n\<rparr>) s k1 = Some (ret, k2)
      \<and> GenericClient_receive (AfUnixSocket_ops S e) S client 5000 LINX_ANY_SIG s k2
          = Some (Some \<lparr>rm_reqId = reqId, rm_payload = client_pattern n\<rparr>, k3)))"
proof -
  let ?V = "AfUnixSocket_ops S e" and ?m = "\<lparr>rm_reqId = reqId, rm_payload = client_pattern n\<rparr>"
  obtain c k1 where c: "GenericClient_connect ?V S client 5000 s k = Some (c, k1)"
    using assms(1) by (auto simp: client_exchange_def split: bind_splits)
  show ?thesis
  proof (cases "\<not> c \<or> vector_max < n")
    case True
    with assms(1) c show ?thesis by (auto simp: client_exchange_def split: if_splits)
  next
    case False
    with assms(2) have n: "n < 4294967296" by simp
    note b = RawMessage_buffer_pattern [OF n, of reqId]
    obtain ret k2 where s: "GenericClient_send ?V client (RawM ?m) s k1 = Some (ret, k2)"
      using assms(1) c False b by (auto simp: client_exchange_def Let_def split: bind_splits)
    obtain rsp k3 where r: "GenericClient_receive ?V S client 5000 LINX_ANY_SIG s k2 = Some (rsp, k3)"
      using assms(1) c False b s by (auto simp: client_exchange_def Let_def split: bind_splits)
    show ?thesis
    proof (cases rsp)
      case None
      with assms(1) c False b s r show ?thesis by (auto simp: client_exchange_def Let_def)
    next
      case (Some m)
      with assms(1) c False b s r obtain lines ok where v: "client_verify reqId n ?m m = Some (lines, ok)"
        and o: "r = Exit (if ok then 0 else - 1)" "out = [SendingMessage, WaitingForResponse] @ lines"
        by (auto simp: client_exchange_def Let_def split: bind_splits)
      have "length (rm_payload m) < 4294967296"
        using client_received_size [OF r [unfolded Some]] assms(3) by fastforce
      from client_verify_ok [OF v _ _ n this] o c False s r Some show ?thesis by auto
    qed
  qed
qed

lemma to_size_t_atoi:
  assumes "atoi s = Some j"
  shows "to_size_t j < 4294967296 \<or> vector_max < to_size_t j" and "to_size_t j \<le> vector_max \<longleftrightarrow> 0 \<le> j"
    and "0 \<le> j \<Longrightarrow> to_size_t j = nat j"
proof -
  have j: "- 2147483648 \<le> j" "j < 2147483648"
    using assms by (auto simp: atoi_def Let_def split: prod.splits if_splits)
  have neg: "to_size_t j = nat (j + 18446744073709551616)" if "j < 0"
    using that j by (intro to_size_t_neg) simp_all
  show pos: "0 \<le> j \<Longrightarrow> to_size_t j = nat j" using j by (simp add: to_size_t_nonneg)
  have small: "nat j < 4294967296" "nat j \<le> vector_max" if "0 \<le> j"
    using that j by (simp_all add: vector_max_def nat_less_iff nat_le_iff)
  have big: "vector_max < to_size_t j" if "j < 0"
    using that j neg [OF that] by (simp add: vector_max_def zless_nat_eq_int_zless)
  show "to_size_t j < 4294967296 \<or> vector_max < to_size_t j"
    using small(1) big pos by (cases "0 \<le> j") (auto simp: not_le)
  show "to_size_t j \<le> vector_max \<longleftrightarrow> 0 \<le> j"
    using small(2) big pos by (cases "0 \<le> j") (auto simp: not_le)
qed

text \<open>A negative size: once connected, the program dies by an exception of \<open>std::vector\<close>.\<close>

lemma client_negative_size:
  assumes "3 \<le> length argv" "atoi (argv ! 1) = Some i" "atoi (argv ! 2) = Some j" "j < 0"
    and "AfUnixFactory_createClient S obj rand (if 4 \<le> length argv then argv ! 3 else ''ExampleServer'') k = Some (Some (client, s), k1)"
    and "GenericClient_connect (AfUnixSocket_ops S e) S client 5000 s k1 = Some (True, k2)"
  shows "\<exists>out. client_main S e obj rand argv k = Some (UncaughtException, out, k2)"
proof -
  have "vector_max < to_size_t j" using to_size_t_atoi(2) [OF assms(3)] assms(4) by linarith
  with assms show ?thesis by (simp add: client_main_def client_exchange_def Let_def)
qed

end
