(* ===== verification/EchoSystem.thy ===== *)
theory EchoSystem
  imports PeerWorld EchoClient
begin

text \<open>
  The two example programs together: \<open>client_app\<close> runs on a kernel in which \<open>server_app\<close> runs, too. A
  state of this kernel is a state of the server program over the reference kernel; every system call
  of the client acts on the latter, and while the client waits in \<open>poll\<close> the two threads of the server
  work off the datagrams that have arrived.
\<close>

section \<open>The composed system\<close>

type_synonym echo_world = "(af_unix_socket, ref_kernel) echo_state"

definition world_kernel :: "echo_world \<Rightarrow> ref_kernel" where
  "world_kernel x = sv_kernel (es_server x)"

definition set_world_kernel :: "ref_kernel \<Rightarrow> echo_world \<Rightarrow> echo_world" where
  "set_world_kernel k x = x\<lparr>es_server := (es_server x)\<lparr>sv_kernel := k\<rparr>\<rparr>"

text \<open>The server takes one datagram from its socket, and answers the message that this puts into its queue.\<close>

definition server_turn :: "endian \<Rightarrow> nat \<Rightarrow> echo_world \<Rightarrow> echo_world" where
  "server_turn e self x =
     (let run = echo_exec (AfUnixSocket_ops ref_sys e) ref_sys self in
      (case run [WorkerReceives, WorkerDispatches] x of
         None \<Rightarrow> x
       | Some (_, y) \<Rightarrow>
           if q_queue (sv_queue (es_server y)) = [] then y
           else (case run [MainReceives, MainEchoes] y of None \<Rightarrow> y | Some (_, z) \<Rightarrow> z)))"

definition pending :: "echo_world \<Rightarrow> nat" where
  "pending x =
     (case map_of (rk_socks (world_kernel x)) (us_fd (sv_socket (es_server x))) of
        None \<Rightarrow> 0 | Some s \<Rightarrow> length (rs_in s))"

definition server_serves :: "endian \<Rightarrow> nat \<Rightarrow> echo_world \<Rightarrow> echo_world" where
  "server_serves e self x = (server_turn e self ^^ pending x) x"

text \<open>The kernel of the client.\<close>

definition echo_sys :: "endian \<Rightarrow> nat \<Rightarrow> echo_world sys" where
  "echo_sys e self = embedded_sys world_kernel set_world_kernel (server_serves e self)"

text \<open>What the server does meanwhile is a run of \<open>server_app\<close>.\<close>

lemma server_turn_run: "\<exists>tr. echo_run (AfUnixSocket_ops ref_sys e) ref_sys self env x tr (server_turn e self x)"
proof -
  let ?run = "echo_exec (AfUnixSocket_ops ref_sys e) ref_sys self"
  show ?thesis
  proof (cases "?run [WorkerReceives, WorkerDispatches] x")
    case None
    then show ?thesis unfolding server_turn_def Let_def by (auto intro: echo_run.echo_refl)
  next
    case (Some p)
    obtain tr y where p: "p = (tr, y)" by (cases p)
    note r = echo_exec_run [OF Some [unfolded p], of env]
    show ?thesis
    proof (cases "?run [MainReceives, MainEchoes] y")
      case None
      with Some p r show ?thesis unfolding server_turn_def Let_def by (auto simp del: echo_exec.simps)
    next
      case (Some q)
      obtain tr' z where q: "q = (tr', z)" by (cases q)
      note r' = echo_exec_from [OF Some [unfolded q] r]
      from \<open>?run [WorkerReceives, WorkerDispatches] x = Some p\<close> Some p q r r' show ?thesis
        unfolding server_turn_def Let_def by (auto simp del: echo_exec.simps)
    qed
  qed
qed

section \<open>The descriptors of the composed system\<close>

abbreviation echo_fds :: "echo_world \<Rightarrow> int set" where
  "echo_fds x \<equiv> ref_fds (world_kernel x)"

lemma echo_run_fds:
  "echo_run (AfUnixSocket_ops ref_sys e) ref_sys self (\<lambda>_ _. False) x tr y \<Longrightarrow> echo_fds y = echo_fds x"
proof (induction rule: echo_run.induct)
  case (echo_more x tr y lab z)
  note f = ref_fd_frame.frame_sockets(1) [of e]
  from echo_more.hyps(2) have "echo_fds z = echo_fds y"
  proof cases
    case (echo_receive st)
    then show ?thesis using frame_socket.task_receive_fds [OF f] by (simp add: world_kernel_def)
  next
    case (echo_dispatch m fr st)
    then show ?thesis using frame_socket.task_dispatch_fds [OF f] by (simp add: world_kernel_def)
  next
    case (main_receive r q k)
    then show ?thesis using frame_socket.getMessage_fds [OF f] by (simp add: world_kernel_def)
  next
    case (main_echo lr r k)
    then show ?thesis using frame_socket.SimpleServer_send_fds [OF f]
      by (auto simp: echo_send_def world_kernel_def split: bind_splits)
  qed simp
  with echo_more.IH show ?case by simp
qed simp

lemma server_turn_fds: "echo_fds (server_turn e self x) = echo_fds x"
  using server_turn_run echo_run_fds by metis

lemma server_serves_fds: "echo_fds (server_serves e self x) = echo_fds x"
proof -
  have "echo_fds ((server_turn e self ^^ n) x) = echo_fds x" for n
    by (induction n) (simp_all add: server_turn_fds)
  then show ?thesis by (simp add: server_serves_def)
qed

interpretation echo: embedded_fds world_kernel set_world_kernel "server_serves en self" for en self
  by unfold_locales (simp_all add: world_kernel_def set_world_kernel_def server_serves_fds [unfolded world_kernel_def])

lemma echo_sys_fd_frame: "fd_frame_sys (echo_sys e self) echo_fds"
  unfolding echo_sys_def by (rule echo.fds.fd_frame_sys_axioms)

section \<open>The server's turn\<close>

definition echo_peers :: "nat \<Rightarrow> peers" where
  "echo_peers rand = \<lparr>pr_server = ''ExampleServer'', pr_client = ''client_'' @ to_string rand @ ''_ExampleServer'',
     pr_fd = 6, pr_efds = [(5, 0)]\<rparr>"

text \<open>The server program when it has nothing to do, and the kernel and the echoes of the past as given.\<close>

definition echo_idle :: "ref_kernel \<Rightarrow> (linx_received_message \<times> int) list \<Rightarrow> echo_world" where
  "echo_idle k ech =
     \<lparr>es_server = \<lparr>sv_socket = named_socket 4 ''ExampleServer'', sv_queue = LinxQueue \<lparr>efd = 5\<rparr> 10, sv_worker = AtReceive,
        sv_stop = NotStopping, sv_kernel = k\<rparr>, es_pc = MainReceive, es_echoed = ech\<rparr>"

lemma echo_idle_sel [simp]:
  "world_kernel (echo_idle k ech) = k" "set_world_kernel k' (echo_idle k ech) = echo_idle k' ech"
  "es_echoed (echo_idle k ech) = ech"
  by (simp_all add: world_kernel_def set_world_kernel_def echo_idle_def)

lemma echo_peers_plain: "rand \<le> 65535 \<Longrightarrow> plain_peers (echo_peers rand)"
  using length_to_string [of rand 4] to_string_plain(1) by (auto simp: echo_peers_def plain_peers_def plain_name_def)

lemma turn_ping:
  assumes "plain_peers p"
  shows "server_turn e self (echo_idle (pair_kernel p c ((wire e (RawM (RawMessage IPC_PING_REQ)), name_address (pr_client p)) # si) ci) ech)
    = echo_idle (pair_kernel p (c + 1) si (ci @ [(wire e (RawM (RawMessage IPC_PING_RSP)), name_address (pr_server p))])) ech"
  using assms
  by (simp add: server_turn_def echo_idle_def task_receive_def pair_receive task_dispatch_def
      SimpleServer_send_def pair_send fits_RawM LinxQueue_def RawMessage_sel)

lemma turn_echo:
  assumes "plain_peers p" "pr_efds p = [(5, 0)]" "rm_reqId m \<noteq> IPC_PING_REQ" "fits (RawM m)"
  shows "server_turn e self (echo_idle (pair_kernel p c ((wire e (RawM m), name_address (pr_client p)) # si) ci) ech)
    = echo_idle (pair_kernel p (c + 1) si (ci @ [(wire e (RawM m), name_address (pr_server p))]))
        (ech @ [(\<lparr>lr_message = m, lr_from = Some (UnixId (UnixInfo (pr_client p))), lr_server = self\<rparr>, 0)])"
  using assms
  by (simp add: server_turn_def echo_idle_def task_receive_def pair_receive task_dispatch_def
      LinxQueue_add_def LinxQueue_def to_size_t_nonneg pair_events getMessage_def findMessage_def extract_any echo_send_def
      SimpleServer_send_def pair_send Let_def del: One_nat_def)

lemma serves_one: "server_serves e self (echo_idle (pair_kernel p c [d] ci) ech) = server_turn e self (echo_idle (pair_kernel p c [d] ci) ech)"
  by (simp add: server_serves_def pending_def) (simp add: echo_idle_def pair_kernel_def)

section \<open>The exchange\<close>

lemma client_exchanges:
  assumes "plain_peers p" "pr_server p = ''ExampleServer''" "pr_efds p = [(5, 0)]"
    and "gc_identifier client = UnixInfo ''ExampleServer''" "us_fd s = pr_fd p"
    and "reqId \<noteq> IPC_PING_REQ" "n < 2147483644"
  shows "\<exists>out c'. client_exchange (echo_sys e self) e client reqId n s (echo_idle (pair_kernel p c [] []) [])
    = Some (Exit 0, out, echo_idle (pair_kernel p c' [] [])
        [(\<lparr>lr_message = \<lparr>rm_reqId = reqId, rm_payload = client_pattern n\<rparr>,
           lr_from = Some (UnixId (UnixInfo (pr_client p))), lr_server = self\<rparr>, 0)]) \<and> Success \<in> set out"
proof -
  let ?S = "echo_sys e self" and ?m = "\<lparr>rm_reqId = reqId, rm_payload = client_pattern n\<rparr>"
  let ?V = "AfUnixSocket_ops ?S e" and ?W = "echo_idle ref_init []"
  let ?lr = "\<lparr>lr_message = ?m, lr_from = Some (UnixId (UnixInfo (pr_client p))), lr_server = self\<rparr>"
  have i: "gc_identifier client = UnixInfo (pr_server p)" using assms(2,4) by simp
  note peers = assms(1) i assms(5) and serves = serves_one turn_ping [OF assms(1)] turn_echo [OF assms(1,3)]
  obtain c1 where c: "GenericClient_connect ?V ?S client 5000 s (echo_idle (pair_kernel p c [] []) [])
      = Some (True, echo_idle (pair_kernel p c1 [] []) [])"
    using echo.client_connects [where w = ?W and en = e and self = self and e = e and c = c and t = 5000, OF peers]
    by (auto simp: serves simp flip: echo_sys_def)
  have f: "fits (RawM ?m)" using assms(7) by (simp add: fits_RawM)
  have s: "GenericClient_send ?V client (RawM ?m) s (echo_idle (pair_kernel p c1 [] []) [])
      = Some (0, echo_idle (pair_kernel p c1 [(wire e (RawM ?m), name_address (pr_client p))] []) [])"
    using i echo.client_sends [where w = ?W and en = e and self = self and e = e and c = c1 and si = "[]" and ci = "[]", OF assms(1,5) f]
    by (simp add: GenericClient_send_def flip: echo_sys_def)
  have "matchesSignalSelector (RawM ?m) LINX_ANY_SIG" "length (rm_payload ?m) < 2147483644"
    using assms(7) by (simp_all add: LINX_ANY_SIG_def matchesSignalSelector_iff)
  from echo.client_gets_answer [where w = ?W and w' = "echo_idle ref_init [(?lr, 0)]" and en = e and self = self and e = e
      and c = c1 and si = "[(wire e (RawM ?m), name_address (pr_client p))]" and ci = "[]" and si' = "[]" and ci' = "[]"
      and t = 5000, OF peers this]
  obtain c2 where r: "GenericClient_receive ?V ?S client 5000 LINX_ANY_SIG s
      (echo_idle (pair_kernel p c1 [(wire e (RawM ?m), name_address (pr_client p))] []) [])
      = Some (Some ?m, echo_idle (pair_kernel p c2 [] []) [(?lr, 0)])"
    using assms(6) f by (auto simp: serves simp flip: echo_sys_def)
  have rd: "read_at (client_pattern n) 0 n = Some (client_pattern n)" by (simp add: read_at_def)
  obtain lines where v: "client_verify reqId n ?m ?m = Some (lines, True)" "Success \<in> set lines"
    by (simp add: client_verify_def rd Let_def)
  have "n < 4294967296" using assms(7) by simp
  note b = RawMessage_buffer_pattern [OF this, of reqId]
  show ?thesis
    using c s r v b assms(7) by (simp add: client_exchange_def vector_max_def Let_def) blast
qed

section \<open>Start-up\<close>

definition echo_boot :: echo_world where
  "echo_boot = echo_idle (lone_kernel (echo_peers 0) 0) []"

lemma echo_peers_sel [simp]:
  "pr_server (echo_peers rand) = ''ExampleServer''" "pr_fd (echo_peers rand) = 6" "pr_efds (echo_peers rand) = [(5, 0)]"
  by (simp_all add: echo_peers_def)

lemma echo_lone: "lone_kernel (echo_peers rand) c = lone_kernel (echo_peers 0) c"
  by (simp add: lone_kernel_def)

lemma server_boots: "server_main ref_sys srv ref_init = Some (Inr echo_boot, world_kernel echo_boot)"
proof -
  have n: "plain_name (pr_server (echo_peers 0))" by (simp add: plain_name_def)
  have "(echo_peers 0)\<lparr>pr_efds := [(5, 0)]\<rparr> = echo_peers 0" by (simp add: echo_peers_def)
  with server_opens [OF n] lone_eventfd [of "echo_peers 0" 0] show ?thesis
    by (simp add: server_main_def AfUnixFactory_createServer_def GenericServer_def GenericSimpleServer_def echo_boot_def
        echo_start_def GenericServer_start_def joinable_def server_init_def to_int32_id)
      (simp add: echo_idle_def)
qed

lemma client_starts:
  assumes "rand \<le> 65535"
  shows "\<exists>client s. AfUnixFactory_createClient (echo_sys e self) obj rand ''ExampleServer'' echo_boot
      = Some (Some (client, s), echo_idle (pair_kernel (echo_peers rand) 0 [] []) [])
    \<and> gc_identifier client = UnixInfo ''ExampleServer'' \<and> us_fd s = 6"
proof -
  have "pr_fd (echo_peers rand) = ref_fresh_fd (lone_kernel (echo_peers rand) 0)"
    by (simp add: ref_fresh_fd_def lone_kernel_def)
  from echo.client_created [where w = "echo_idle ref_init []" and en = e and self = self, OF echo_peers_plain [OF assms] this]
  have "AfUnixFactory_createClient (echo_sys e self) obj rand ''ExampleServer'' echo_boot
      = Some (Some (GenericClient (pr_client (echo_peers rand)) obj (UnixInfo ''ExampleServer''), named_socket 6 (pr_client (echo_peers rand))),
        echo_idle (pair_kernel (echo_peers rand) 0 [] []) [])"
    unfolding echo_boot_def echo_lone [of rand] echo_sys_def by (simp add: echo_peers_def)
  then show ?thesis by (simp add: GenericClient_def)
qed

lemma echo_fds: "echo_fds (echo_idle (pair_kernel (echo_peers rand) c si ci) ech) = {4, 5, 6}" "echo_fds echo_boot = {4, 5}"
  by (auto simp: pair_fds echo_boot_def lone_fds)

lemma client_releases:
  assumes "us_fd s = 6"
  shows "echo_fds (client_release (echo_sys e self) e s (echo_idle (pair_kernel (echo_peers rand) c si ci) ech)) = {4, 5}"
    and "es_echoed (client_release (echo_sys e self) e s x) = es_echoed x"
proof -
  have f: "fd_sys (echo_sys e self) echo_fds" using echo_sys_fd_frame by (simp add: fd_frame_sys_def)
  show "echo_fds (client_release (echo_sys e self) e s (echo_idle (pair_kernel (echo_peers rand) c si ci) ech)) = {4, 5}"
    using assms echo_fds(1) [of rand c si ci ech]
    by (auto simp: client_release_def GenericClient_dtor_def AfUnixSocket_dtor_def AfUnixSocket_close_def
        fd_sys.fds_close [OF f] fd_sys.fds_shutdown [OF f] simp del: echo_idle_sel)
  show "es_echoed (client_release (echo_sys e self) e s x) = es_echoed x"
    using assms
    by (simp add: client_release_def GenericClient_dtor_def AfUnixSocket_dtor_def AfUnixSocket_close_def
        echo_sys_def embedded_sys_def set_world_kernel_def)
qed

text \<open>The whole run of the client.\<close>

lemma client_main_run:
  assumes "rand \<le> 65535" "3 \<le> length argv" "4 \<le> length argv \<longrightarrow> argv ! 3 = ''ExampleServer''"
    and "atoi (argv ! 1) = Some i" "(of_int i :: u32) \<noteq> IPC_PING_REQ"
    and "atoi (argv ! 2) = Some j" "0 \<le> j" "j < 2147483644"
  shows "\<exists>out s c. us_fd s = 6 \<and> Success \<in> set out \<and>
    client_main (echo_sys e self) e obj rand argv echo_boot = Some (Exit 0, out,
      client_release (echo_sys e self) e s (echo_idle (pair_kernel (echo_peers rand) c [] [])
        [(\<lparr>lr_message = \<lparr>rm_reqId = of_int i, rm_payload = client_pattern (nat j)\<rparr>,
           lr_from = Some (UnixId (UnixInfo (pr_client (echo_peers rand)))), lr_server = self\<rparr>, 0)]))"
proof -
  note p = echo_peers_plain [OF assms(1)]
  have name: "(if 4 \<le> length argv then argv ! 3 else ''ExampleServer'') = ''ExampleServer''" using assms(3) by simp
  obtain client s where c: "AfUnixFactory_createClient (echo_sys e self) obj rand ''ExampleServer'' echo_boot
      = Some (Some (client, s), echo_idle (pair_kernel (echo_peers rand) 0 [] []) [])"
    and s: "gc_identifier client = UnixInfo ''ExampleServer''" "us_fd s = 6"
    using client_starts [OF assms(1)] by blast
  have size: "to_size_t j = nat j" "nat j < 2147483644" using assms(7,8) by (simp_all add: to_size_t_nonneg)
  let ?lr = "\<lparr>lr_message = \<lparr>rm_reqId = of_int i, rm_payload = client_pattern (nat j)\<rparr>,
      lr_from = Some (UnixId (UnixInfo (pr_client (echo_peers rand)))), lr_server = self\<rparr>"
  obtain out c' where x: "client_exchange (echo_sys e self) e client (of_int i) (nat j) s (echo_idle (pair_kernel (echo_peers rand) 0 [] []) [])
      = Some (Exit 0, out, echo_idle (pair_kernel (echo_peers rand) c' [] []) [(?lr, 0)])" "Success \<in> set out"
    using client_exchanges [OF p _ _ s(1) _ assms(5) size(2), of s e self 0] s(2) by auto
  let ?out = "[Banner, CreatingClient ''ExampleServer'' (of_int i) (nat j)] @ out @ [FinalRule]"
  have "client_main (echo_sys e self) e obj rand argv echo_boot
      = Some (Exit 0, ?out, client_release (echo_sys e self) e s (echo_idle (pair_kernel (echo_peers rand) c' [] []) [(?lr, 0)]))"
    using assms(2,4,6) c size(1) name x(1) by (simp add: client_main_def Let_def)
  moreover have "Success \<in> set ?out" using x(2) by simp
  ultimately show ?thesis using s(2) by (intro exI conjI)
qed

lemma echo_fionread: "sys_fionread (echo_sys e self) fd x = (Some n, y) \<Longrightarrow> n < 2147483648"
  unfolding echo_sys_def by (rule embedded_fionread)

text \<open>The run of the witnesses.\<close>

definition demo_argv :: "string list" where
  "demo_argv = [''./client_app'', ''42'', ''1024'']"

lemma demo_client_main:
  "\<exists>out x. client_main (echo_sys BigEndian 1) BigEndian 2 77 demo_argv echo_boot = Some (Exit 0, out, x) \<and> Success \<in> set out"
proof -
  have "atoi ''42'' = Some 42" "atoi ''1024'' = Some 1024" "(of_int 42 :: u32) \<noteq> IPC_PING_REQ" by code_simp+
  then show ?thesis
    using client_main_run [where rand = 77 and argv = demo_argv and i = 42 and j = 1024 and self = 1 and e = BigEndian and obj = 2]
    by (auto simp: demo_argv_def)
qed

section \<open>Properties\<close>





text \<open>
  C38. Every way out of \<open>client_app\<close> closes its socket: whatever the arguments, unless the process ends by
  an exception, the open descriptors are at the end what they were before.
\<close>

theorem client_app_descriptors:
  assumes "fd_frame_sys S fds" and "client_main S e obj rand argv k = Some (r, out, k')" "r \<noteq> UncaughtException"
    and "length (''client_'' @ to_string rand @ ''_'' @ (if 4 \<le> length argv then argv ! 3 else ''ExampleServer'')) \<le> 107"
  shows "fds k' = fds k"
proof (cases "3 \<le> length argv")
  case True
  let ?name = "if 4 \<le> length argv then argv ! 3 else ''ExampleServer''"
  have sys: "fd_sys S fds" using assms(1) by (simp add: fd_frame_sys_def)
  from assms(2) True obtain i j where a: "atoi (argv ! 1) = Some i" "atoi (argv ! 2) = Some j"
    by (auto simp: client_main_def split: bind_splits)
  obtain created k1 where c: "AfUnixFactory_createClient S obj rand ?name k = Some (created, k1)"
    and x: "descriptors_exact fds k (\<lambda>(_, s). nonneg {us_fd s}) (created, k1)"
    using unix_client_exact [OF sys assms(4)] by force
  show ?thesis
  proof (cases created)
    case None
    with assms(2) True a c x show ?thesis by (auto simp: client_main_def Let_def descriptors_exact_def)
  next
    case (Some y)
    obtain client s where y: "y = (client, s)" by (cases y)
    with assms(2,3) True a c Some obtain lines k2
      where e: "client_exchange S e client (of_int i) (to_size_t j) s k1 = Some (r, lines, k2)"
        and k': "k' = client_release S e s k2"
      by (auto simp: client_main_def Let_def split: bind_splits)
    note k2 = client_exchange_fds [OF assms(1) e]
    have "fds k' = fds k2 - nonneg {us_fd s}"
      by (auto simp: k' client_release_def GenericClient_dtor_def AfUnixSocket_dtor_def AfUnixSocket_close_def
          fd_sys.fds_close [OF sys] fd_sys.fds_shutdown [OF sys])
    with k2 x Some y show ?thesis by (auto simp: descriptors_exact_def)
  qed
next
  case False
  with assms(2) show ?thesis by (simp add: client_main_def)
qed

theorem client_app_descriptors_witness:
  "\<exists>out x. client_main (echo_sys BigEndian 1) BigEndian 2 77 demo_argv echo_boot = Some (Exit 0, out, x) \<and> echo_fds x = {4, 5}"
proof -
  obtain out x where r: "client_main (echo_sys BigEndian 1) BigEndian 2 77 demo_argv echo_boot = Some (Exit 0, out, x)"
    using demo_client_main by blast
  have n: "length (''client_'' @ to_string 77 @ ''_'' @ (if 4 \<le> length demo_argv then demo_argv ! 3 else ''ExampleServer'')) \<le> 107"
    using length_to_string [of 77 1] by (simp add: demo_argv_def)
  from client_app_descriptors [OF echo_sys_fd_frame r _ n] r show ?thesis by (simp add: echo_fds)
qed

end
