(* ===== verification/PackageExample.thy ===== *)
theory PackageExample
  imports EchoClient
begin

text \<open>
  The program of examples/package-example/simple_example.cpp: one thread creates a threaded server and
  waits up to five seconds for a message, another one sends a message to it. The server is never
  started, so that no worker thread fills its queue; the property says what follows from this.
\<close>

section \<open>Model\<close>

datatype example_line =
    ServerFailed
  | ServerStarted
  | ServerReceived u32
  | ClientFailed
  | ClientConnected
  | ClientSent

text \<open>
  The thread of the server. Nobody else has access to its queue, so that its wait sees nothing but
  spurious wake-ups, \<open>wakeups\<close> of them, before it times out; what the other thread does to the kernel
  during the wait is \<open>meanwhile\<close>. At the end the server is destroyed.
\<close>

definition serverThread ::
  "'k sys \<Rightarrow> endian \<Rightarrow> nat \<Rightarrow> nat \<Rightarrow> ('k \<Rightarrow> 'k) \<Rightarrow> 'k \<Rightarrow> (example_line list \<times> 'k) option" where
  "serverThread S e obj wakeups meanwhile k =
     do {
       (server, k1) \<leftarrow> AfUnixFactory_createServer S obj ''ExampleServer'' 10 k;
       case server of
         None \<Rightarrow> Some ([ServerFailed], k1)
       | Some (base, st) \<Rightarrow> do {
           (msg, q, k2) \<leftarrow> GenericServer_receive S 5000 LINX_ANY_SIG LINX_ANY_FROM (replicate wakeups []) []
             (sv_queue st, sv_kernel st);
           k3 \<leftarrow> GenericServer_dtor (AfUnixSocket_ops S e) S obj (st\<lparr>sv_queue := q, sv_kernel := meanwhile k2\<rparr>);
           Some (ServerStarted # (case msg of None \<Rightarrow> [] | Some m \<Rightarrow> [ServerReceived (rm_reqId (lr_message m))]), k3)
         }
     }"

text \<open>The thread of the client, after its sleep. The result of \<open>send\<close> is not looked at.\<close>

definition clientThread :: "'k sys \<Rightarrow> endian \<Rightarrow> nat \<Rightarrow> nat \<Rightarrow> 'k \<Rightarrow> (example_line list \<times> 'k) option" where
  "clientThread S e obj rand k =
     do {
       (created, k1) \<leftarrow> AfUnixFactory_createClient S obj rand ''ExampleServer'' k;
       case created of
         None \<Rightarrow> Some ([ClientFailed], k1)
       | Some (client, s) \<Rightarrow> do {
           (ret, k2) \<leftarrow> GenericClient_send (AfUnixSocket_ops S e) client (RawM (RawMessage 42)) s k1;
           Some ([ClientConnected, ClientSent], client_release S e s k2)
         }
     }"

section \<open>The wait\<close>

lemma empty_find: "q_queue q = [] \<Longrightarrow> findMessage S sigsel from q k = (None, q, k)"
  by (simp add: findMessage_def extract_Nil_code)

lemma empty_wait:
  "q_queue q = [] \<Longrightarrow> waitForMessage_timed S sigsel from (replicate n []) [] (q, k) = Some (None, q, k)"
proof (induction n)
  case 0
  then show ?case by (subst waitForMessage_timed.simps) (simp add: empty_find)
next
  case (Suc n)
  then show ?case by (subst waitForMessage_timed.simps) (simp add: empty_find)
qed

lemma ref_sys_sendto: "sys_sendto ref_sys = ref_sendto"
  by (simp add: ref_sys_def)

section \<open>Properties\<close>



text \<open>
  Both threads on the reference kernel: the client has sent its message to the server's socket, and
  the server has not received it.
\<close>

lemma package_example_run:
  "(case AfUnixFactory_createServer ref_sys 1 ''ExampleServer'' 10 ref_init of None \<Rightarrow> None
    | Some (server, k) \<Rightarrow> map_option fst (clientThread ref_sys LittleEndian 2 77 k)) = Some [ClientConnected, ClientSent]
   \<and> map_option fst (serverThread ref_sys LittleEndian 1 3 (\<lambda>k. snd (the (clientThread ref_sys LittleEndian 2 77 k))) ref_init)
     = Some [ServerStarted]"
  by code_simp

end
