(* ===== verification/StopRace.thy ===== *)
theory StopRace
  imports PeerWorld SocketProps
begin

text \<open>
  \<open>AfUnixSocket::receive\<close> and \<open>AfUnixSocket::close\<close> (AfUnixSocket.cpp) without the assumption that a call
  is atomic. \<open>GenericServer::stop\<close> closes the socket while the worker thread is inside \<open>receive\<close>, and both
  access the descriptor field without a lock. Here every system call, and every access to the field
  with it, is a step of its own; the environment moves between any two of them.
\<close>

section \<open>Model\<close>

text \<open>
  Where a call of \<open>receive\<close> is: before the test of the descriptor, in \<open>poll\<close> on the descriptor it has
  read, before \<open>ioctl\<close>, before \<open>recvfrom\<close> with the size it has got, or returned. \<open>ioctl\<close> and \<open>recvfrom\<close>
  read the field anew.
\<close>

datatype recv_pc = RStart | RPolling int | RReady | RSized nat | RDone received

fun receive_step ::
  "'k sys \<Rightarrow> endian \<Rightarrow> int \<Rightarrow> recv_pc \<Rightarrow> af_unix_socket \<Rightarrow> 'k \<Rightarrow> (recv_pc \<times> 'k) option" where
  "receive_step S e timeoutMs RStart this k =
     Some (if us_fd this < 0 then RDone (- 1, None, None) else RPolling (us_fd this), k)"
| "receive_step S e timeoutMs (RPolling fd) this k =
     (let ((pollrc, errno), k1) = sys_poll_in S fd timeoutMs k in
      Some (if pollrc < 0 then RDone (if errno = EBADF then 0 else - 2, None, None)
            else if pollrc = 0 then RDone (0, None, None) else RReady, k1))"
| "receive_step S e timeoutMs RReady this k =
     (let (avail, k1) = sys_fionread S (us_fd this) k in
      Some (RSized (case avail of None \<Rightarrow> 0 | Some n \<Rightarrow> n), k1))"
| "receive_step S e timeoutMs (RSized bytes_available) this k =
     (let (res, k1) = sys_recvfrom_un S (us_fd this) bytes_available k in
      (case res of
         RecvErr errno \<Rightarrow> Some (RDone (if errno = EBADF then 0 else - 4, None, None), k1)
       | RecvOk data sun_path \<Rightarrow>
           if length data \<noteq> bytes_available then Some (RDone (- 5, None, None), k1)
           else (case RawMessage_deserialize e (fill_buffer bytes_available data) of
               None \<Rightarrow> Some (RDone (- 6, None, None), k1)
             | Some ipc \<Rightarrow>
                 (case c_string_at sun_path 1 of
                    None \<Rightarrow> None
                  | Some name \<Rightarrow>
                      Some (RDone (int (length data), Some ipc, Some (UnixId (UnixInfo name))), k1)))))"
| "receive_step S e timeoutMs (RDone r) this k = None"

text \<open>Where a call of \<open>close\<close> is: before \<open>shutdown\<close>, before the system call \<open>close\<close>, before the assignment, or returned.\<close>

datatype close_pc = CStart | CShut | CClosed | CDone

fun close_step :: "'k sys \<Rightarrow> close_pc \<Rightarrow> af_unix_socket \<Rightarrow> 'k \<Rightarrow> (close_pc \<times> af_unix_socket \<times> 'k) option" where
  "close_step S CStart this k =
     Some (if us_fd this \<ge> 0 then (CShut, this, sys_shutdown S (us_fd this) k) else (CDone, this, k))"
| "close_step S CShut this k = Some (CClosed, this, sys_close S (us_fd this) k)"
| "close_step S CClosed this k = Some (CDone, this\<lparr>us_fd := - 1\<rparr>, k)"
| "close_step S CDone this k = None"

section \<open>Alone, the steps are the calls\<close>

text \<open>The steps of one call, when nobody else moves.\<close>

fun receive_alone ::
  "'k sys \<Rightarrow> endian \<Rightarrow> int \<Rightarrow> nat \<Rightarrow> recv_pc \<Rightarrow> af_unix_socket \<Rightarrow> 'k \<Rightarrow> (recv_pc \<times> 'k) option" where
  "receive_alone S e t 0 pc this k = Some (pc, k)"
| "receive_alone S e t (Suc n) pc this k =
     (case pc of RDone r \<Rightarrow> Some (pc, k)
      | _ \<Rightarrow> do { (pc1, k1) \<leftarrow> receive_step S e t pc this k; receive_alone S e t n pc1 this k1 })"

fun close_alone :: "'k sys \<Rightarrow> nat \<Rightarrow> close_pc \<Rightarrow> af_unix_socket \<Rightarrow> 'k \<Rightarrow> (close_pc \<times> af_unix_socket \<times> 'k) option" where
  "close_alone S 0 pc this k = Some (pc, this, k)"
| "close_alone S (Suc n) pc this k =
     (if pc = CDone then Some (pc, this, k)
      else do { (pc1, this1, k1) \<leftarrow> close_step S pc this k; close_alone S n pc1 this1 k1 })"

lemma receive_alone_done [simp]: "receive_alone S e t n (RDone r) this k = Some (RDone r, k)"
  by (cases n) simp_all

lemma receive_alone_eq:
  "receive_alone S e t 4 RStart this k =
     map_option (\<lambda>(r, k'). (RDone r, k')) (AfUnixSocket_receive S e True True t this k)"
  by (auto simp: AfUnixSocket_receive_def numeral_eq_Suc Let_def
      split: prod.splits recv_result.splits option.splits if_splits)

lemma close_alone_eq:
  "close_alone S 3 CStart this k = (let (this', k') = AfUnixSocket_close S this k in Some (CDone, this', k'))"
  by (simp add: AfUnixSocket_close_def numeral_eq_Suc)

text \<open>Only the last step of \<open>receive\<close> delivers a message.\<close>

lemma receive_step_message:
  assumes "receive_step S e t pc s k = Some (RDone (ret, m, f), k')" "0 < ret"
  obtains n where "pc = RSized n"
  using assms by (cases pc) (auto simp: Let_def split: prod.splits if_splits)

section \<open>The race\<close>

record 'k race =
  rc_recv :: recv_pc
  rc_close :: close_pc
  rc_socket :: af_unix_socket
  rc_kernel :: 'k

inductive race_step ::
  "'k sys \<Rightarrow> endian \<Rightarrow> int \<Rightarrow> ('k \<Rightarrow> 'k \<Rightarrow> bool) \<Rightarrow> 'k race \<Rightarrow> 'k race \<Rightarrow> bool"
  for S e timeoutMs env where
  race_receive: "receive_step S e timeoutMs (rc_recv st) (rc_socket st) (rc_kernel st) = Some (pc, k) \<Longrightarrow>
     race_step S e timeoutMs env st (st\<lparr>rc_recv := pc, rc_kernel := k\<rparr>)"
| race_close: "close_step S (rc_close st) (rc_socket st) (rc_kernel st) = Some (pc, s, k) \<Longrightarrow>
     race_step S e timeoutMs env st (st\<lparr>rc_close := pc, rc_socket := s, rc_kernel := k\<rparr>)"
| race_environment: "env (rc_kernel st) k \<Longrightarrow> race_step S e timeoutMs env st (st\<lparr>rc_kernel := k\<rparr>)"

inductive race_run ::
  "'k sys \<Rightarrow> endian \<Rightarrow> int \<Rightarrow> ('k \<Rightarrow> 'k \<Rightarrow> bool) \<Rightarrow> 'k race \<Rightarrow> 'k race \<Rightarrow> bool"
  for S e timeoutMs env where
  race_refl: "race_run S e timeoutMs env st st"
| race_more: "race_run S e timeoutMs env st st' \<Longrightarrow> race_step S e timeoutMs env st' st'' \<Longrightarrow>
     race_run S e timeoutMs env st st''"

text \<open>Both threads about to make their calls on a socket object.\<close>

definition race_start :: "af_unix_socket \<Rightarrow> 'k \<Rightarrow> 'k race" where
  "race_start s k = \<lparr>rc_recv = RStart, rc_close = CStart, rc_socket = s, rc_kernel = k\<rparr>"

text \<open>
  From the system call \<open>close\<close> on the descriptor is not open any more, if nobody opens it again; then the
  field is cleared.
\<close>

definition race_inv :: "('k \<Rightarrow> int set) \<Rightarrow> int \<Rightarrow> 'k race \<Rightarrow> bool" where
  "race_inv fds fd st \<longleftrightarrow>
     (rc_close st \<in> {CStart, CShut, CClosed} \<longrightarrow> us_fd (rc_socket st) = fd)
     \<and> (rc_close st \<in> {CClosed, CDone} \<longrightarrow> fd \<notin> fds (rc_kernel st))
     \<and> (rc_close st = CDone \<longrightarrow> us_fd (rc_socket st) = - 1)"

text \<open>A kernel on which \<open>recvfrom\<close> on a closed descriptor fails with \<open>EBADF\<close>.\<close>

locale closed_fd_sys = fd_frame_sys S fds
  for S :: "'k sys" and fds :: "'k \<Rightarrow> int set" +
  assumes recv_closed: "fd \<notin> fds k \<Longrightarrow> \<exists>k'. sys_recvfrom_un S fd n k = (RecvErr EBADF, k')"
begin

lemma receive_step_fds:
  assumes "receive_step S e t pc s k = Some (pc', k')"
  shows "fds k' = fds k"
proof (cases pc)
  case (RPolling fd)
  then show ?thesis using assms fds_poll by (fastforce simp: Let_def split: prod.splits)
next
  case RReady
  then show ?thesis using assms fds_fionread by (fastforce simp: Let_def split: prod.splits)
next
  case (RSized n)
  then show ?thesis using assms fds_recv_un
    by (fastforce simp: Let_def split: prod.splits recv_result.splits option.splits if_splits)
qed (use assms in auto)

lemma race_step_inv:
  assumes "race_inv fds fd st" "0 \<le> fd" "race_step S e t env st st'"
    and env: "\<And>k k'. env k k' \<Longrightarrow> fd \<notin> fds k \<Longrightarrow> fd \<notin> fds k'"
  shows "race_inv fds fd st'"
  using assms(3)
proof cases
  case race_receive
  with assms(1) receive_step_fds [OF race_receive(2)] show ?thesis by (auto simp: race_inv_def)
next
  case (race_close pc s k)
  from race_close(2) have "rc_close st \<noteq> CDone" by auto
  with assms(1,2) race_close show ?thesis
    by (cases "rc_close st") (auto simp: race_inv_def fds_close split: if_splits)
next
  case race_environment
  with assms(1) env show ?thesis by (auto simp: race_inv_def)
qed

lemma race_run_inv:
  "race_run S e t env st st' \<Longrightarrow> race_inv fds fd st \<Longrightarrow> 0 \<le> fd \<Longrightarrow>
    (\<And>k k'. env k k' \<Longrightarrow> fd \<notin> fds k \<Longrightarrow> fd \<notin> fds k') \<Longrightarrow> race_inv fds fd st'"
  by (induction rule: race_run.induct) (auto intro: race_step_inv)

lemma race_start_inv: "us_fd s = fd \<Longrightarrow> race_inv fds fd (race_start s k)"
  by (simp add: race_inv_def race_start_def)

text \<open>A message is only ever received before the descriptor has been closed.\<close>

lemma race_message:
  assumes "race_inv fds fd st" "0 \<le> fd"
    and "receive_step S e t (RSized n) (rc_socket st) (rc_kernel st) = Some (RDone (ret, m, f), k')" "0 < ret"
  shows "rc_close st \<in> {CStart, CShut} \<and> (\<exists>path msg. sys_recvfrom_un S fd n (rc_kernel st) = (RecvOk (wire e (RawM msg)) path, k')
    \<and> m = Some msg \<and> f = sun_sender path)"
proof -
  obtain res k1 where r: "sys_recvfrom_un S (us_fd (rc_socket st)) n (rc_kernel st) = (res, k1)" by fastforce
  obtain d path where res: "res = RecvOk d path" using assms(3,4) r by (cases res) (auto split: if_splits)
  have "rc_close st \<in> {CStart, CShut}"
  proof (rule ccontr)
    assume "rc_close st \<notin> {CStart, CShut}"
    then have "rc_close st \<in> {CClosed, CDone}" by (cases "rc_close st") auto
    moreover have "- 1 \<notin> fds (rc_kernel st)" using fds_nonneg [of "- 1"] by fastforce
    ultimately have "us_fd (rc_socket st) \<notin> fds (rc_kernel st)" using assms(1) by (auto simp: race_inv_def)
    from recv_closed [OF this, of n] r res show False by auto
  qed
  moreover from this assms(1) have "us_fd (rc_socket st) = fd" by (auto simp: race_inv_def)
  moreover have d: "length d = n" using assms(3,4) r res by (auto split: if_splits)
  moreover obtain msg where "RawMessage_deserialize e d = Some msg"
    using assms(3,4) r res d by (cases "RawMessage_deserialize e d") (auto split: if_splits option.splits)
  moreover from this have "m = Some msg \<and> f = sun_sender path \<and> k1 = k'"
    using assms(3,4) r res d by (auto simp: sun_sender_def split: if_splits option.splits)
  ultimately show ?thesis using r res by (auto simp: deserialize_Some_iff wire_RawM)
qed

end

interpretation ref_closed_fd: closed_fd_sys ref_sys ref_fds
  by unfold_locales
    (auto simp: ref_sys_def ref_recvfrom_def ref_fds_def Let_def not_less split: option.splits list.splits)

section \<open>Concrete interleavings\<close>

datatype move = Receiver | Closer | Environment

text \<open>The run that a schedule describes, with a function as the environment.\<close>

fun race_exec ::
  "'k sys \<Rightarrow> endian \<Rightarrow> int \<Rightarrow> ('k \<Rightarrow> 'k) \<Rightarrow> move list \<Rightarrow> 'k race \<Rightarrow> 'k race option" where
  "race_exec S e t env [] st = Some st"
| "race_exec S e t env (Receiver # ms) st =
     do { (pc, k) \<leftarrow> receive_step S e t (rc_recv st) (rc_socket st) (rc_kernel st);
          race_exec S e t env ms (st\<lparr>rc_recv := pc, rc_kernel := k\<rparr>) }"
| "race_exec S e t env (Closer # ms) st =
     do { (pc, s, k) \<leftarrow> close_step S (rc_close st) (rc_socket st) (rc_kernel st);
          race_exec S e t env ms (st\<lparr>rc_close := pc, rc_socket := s, rc_kernel := k\<rparr>) }"
| "race_exec S e t env (Environment # ms) st = race_exec S e t env ms (st\<lparr>rc_kernel := env (rc_kernel st)\<rparr>)"

lemma race_run_trans: "race_run S e t env st' st'' \<Longrightarrow> race_run S e t env st st' \<Longrightarrow> race_run S e t env st st''"
  by (induction rule: race_run.induct) (auto intro: race_more)

lemma race_exec_run:
  "race_exec S e t env ms st = Some st' \<Longrightarrow> race_run S e t (\<lambda>k k'. k' = env k) st st'"
proof (induction ms arbitrary: st)
  case (Cons m ms)
  let ?step = "race_step S e t (\<lambda>k k'. k' = env k)"
  have "\<exists>st1. ?step st st1 \<and> race_exec S e t env ms st1 = Some st'"
  proof (cases m)
    case Receiver
    with Cons.prems show ?thesis by (fastforce simp: bind_eq_Some_conv dest: race_receive)
  next
    case Closer
    with Cons.prems show ?thesis by (fastforce simp: bind_eq_Some_conv dest: race_close)
  next
    case Environment
    have "?step st (st\<lparr>rc_kernel := env (rc_kernel st)\<rparr>)" by (rule race_environment) (rule refl)
    with Environment Cons.prems show ?thesis by auto
  qed
  then obtain st1 where st1: "?step st st1" "race_exec S e t env ms st1 = Some st'" by blast
  show ?case by (rule race_run_trans [OF Cons.IH [OF st1(2)] race_more [OF race_refl st1(1)]])
qed (simp add: race_refl)

text \<open>A server's socket with the name \<open>srv\<close> on descriptor 4, and a peer's datagram for it.\<close>

definition race_kernel :: ref_kernel where
  "race_kernel = \<lparr>rk_clock = 0, rk_efds = [],
     rk_socks = [(4, \<lparr>rs_addr = Some (bound_name ''srv''), rs_in = [], rs_shut = False\<rparr>)]\<rparr>"

definition peer_sends :: "string \<Rightarrow> ref_kernel \<Rightarrow> ref_kernel" where
  "peer_sends name k =
     (let (fd, k1) = ref_socket_new AF_UNIX k; (_, k2) = ref_bind fd (name_address ''cli'') k1;
          (_, k3) = ref_sendto fd [0, 0, 0, 7, 1] (name_address name) k2
      in ref_close fd k3)"

lemma peer_sends_fds: "ref_fds (peer_sends name k) = ref_fds k"
proof -
  obtain fd k1 where 1: "ref_socket_new AF_UNIX k = (fd, k1)" by fastforce
  obtain b k2 where 2: "ref_bind fd (name_address ''cli'') k1 = (b, k2)" by fastforce
  obtain c k3 where 3: "ref_sendto fd [0, 0, 0, 7, 1] (name_address name) k2 = (c, k3)" by fastforce
  have "ref_fds k3 = ref_fds k1"
    using 2 3 ref_fd.fds_bind [of fd "name_address ''cli''" k1] ref_fd_frame.fds_sendto [of fd _ _ k2]
    by (simp add: ref_sys_def)
  moreover have "fd \<notin> ref_fds k" "ref_fds k1 = insert fd (ref_fds k)"
    using 1 ref_fresh [of k] ref_fd.fds_socket [of AF_UNIX k fd k1]
    by (auto simp: ref_sys_def ref_socket_new_def Let_def split: if_splits)
  ultimately show ?thesis
    using 1 2 3 ref_fd.fds_close [of fd k3] by (simp add: peer_sends_def ref_sys_def)
qed

text \<open>Another thread of the server's process opens a socket of its own, and gets a datagram.\<close>

definition other_socket :: "ref_kernel \<Rightarrow> ref_kernel" where
  "other_socket k =
     (let (fd, k1) = ref_socket_new AF_UNIX k; (_, k2) = ref_bind fd (name_address ''other'') k1
      in peer_sends ''other'' k2)"

text \<open>
  Without the assumption on the environment the worker can take a message from a socket that is not
  the server's: between the system call \<open>close\<close> and the assignment of \<open>- 1\<close> the number 4 is given to a new
  socket, and \<open>recvfrom\<close> reads the field, which is still 4.
\<close>

lemma race_steals:
  "\<exists>st k'. race_run ref_sys LittleEndian (- 1) (\<lambda>k k'. k' = other_socket k) (race_start (named_socket 4 ''srv'') race_kernel) st
    \<and> receive_step ref_sys LittleEndian (- 1) (rc_recv st) (rc_socket st) (rc_kernel st)
        = Some (RDone (5, Some \<lparr>rm_reqId = 7, rm_payload = [1]\<rparr>, Some (UnixId (UnixInfo ''cli''))), k')
    \<and> rc_close st = CClosed"
proof -
  let ?sched = "[Receiver, Closer, Receiver, Closer, Environment, Receiver]"
  let ?st = "race_exec ref_sys LittleEndian (- 1) other_socket ?sched (race_start (named_socket 4 ''srv'') race_kernel)"
  have "?st \<noteq> None \<and> map_option fst (receive_step ref_sys LittleEndian (- 1) (rc_recv (the ?st)) (rc_socket (the ?st)) (rc_kernel (the ?st)))
        = Some (RDone (5, Some \<lparr>rm_reqId = 7, rm_payload = [1]\<rparr>, Some (UnixId (UnixInfo ''cli''))))
      \<and> rc_close (the ?st) = CClosed"
    by code_simp
  then obtain st where "?st = Some st" "rc_close st = CClosed"
    "map_option fst (receive_step ref_sys LittleEndian (- 1) (rc_recv st) (rc_socket st) (rc_kernel st))
      = Some (RDone (5, Some \<lparr>rm_reqId = 7, rm_payload = [1]\<rparr>, Some (UnixId (UnixInfo ''cli''))))" by fastforce
  with race_exec_run [OF this(1)] show ?thesis by (fastforce simp: map_option_eq_Some)
qed

section \<open>Properties\<close>



end
