(* ===== verification/Spec2Isabelle.thy ===== *)
theory Spec2Isabelle
  imports Trace QueueProps SocketProps ClientProps ServerProps Factories RpcSystem EchoSystem PackageExample StopRace
begin

text \<open>
  Verification of LinxIpc, a C++ library for message passing between processes over Unix domain and UDP
  sockets.

  \<^bold>\<open>The program.\<close> A client (\<open>GenericClient\<close>) sends messages to a server and receives its answers over a
  datagram socket (\<open>AfUnixSocket\<close>, \<open>UdpSocket\<close>, both \<open>GenericSocket\<close>). A server is simple
  (\<open>GenericSimpleServer\<close>: the caller's thread reads the socket) or threaded (\<open>GenericServer\<close>: a worker
  thread moves messages from the socket into a \<open>LinxQueue\<close>, whose event descriptor the user can poll).
  Both answer ping requests themselves; the client's \<open>connect\<close> pings. A \<open>LinxIpcHandler\<close> dispatches
  received messages to callbacks. Factories put the objects together. All waiting is bounded by a
  \<open>Deadline\<close>; messages are filtered by signal number and sender (\<open>LinxMessageFilter\<close>).

  \<^bold>\<open>Conventions.\<close> Members of a class are a record, a virtual call is a field of a record of functions
  (\<open>socket_ops\<close>, \<open>linx_server_ops\<close>), and the operating system is a record of functions \<open>sys\<close> on an
  abstract kernel state, an argument of every definition that makes a system call. The result \<open>None\<close>
  of an operation is a call that does not return normally: undefined behaviour (an access outside a
  buffer, a null pointer), a failed \<open>assert\<close>, or a loop that never ends; loops are
  \<open>partial_function\<close>s, so that returning is a theorem. Integers that can wrap are words or are
  converted explicitly (\<open>to_int32\<close>, \<open>to_size_t\<close>). Calls of the tracing macros are left out of the models.

  \<^bold>\<open>The theories\<close>, in the order of the program:

  \<^item> Prelude: machine integers, checked memory accesses, C strings, decimal printing, big-endian bytes.
    Inet: \<open>inet_pton\<close> and \<open>inet_ntoa\<close> for IPv4, inverse to each other.
  \<^item> Identifier (IIdentifier.h, UnixLinx.h, UdpLinx.h, address classes of UdpFactory.cpp): the
    identifiers and what their equality means.
  \<^item> Message (LinxMessage.h, RawMessage.h, RawMessage.cpp, MyMessage.h): serialization at the byte level
    on hosts of either byte order; round trips, the exact size limit.
  \<^item> MessageFilter (LinxMessageFilter.h, LinxMessageIds.h, LinxIpc.h) and Deadlines (Deadline.h): the
    filters, the remaining time and expiry.
  \<^item> Kernel: the parameter \<open>sys\<close> and, as locales, the documented behaviour that theorems may assume:
    \<open>eventfd_sys\<close> and \<open>events_sys\<close> (semaphore eventfds), \<open>clock_sys\<close> and \<open>bounded_sys\<close> (the steady clock,
    and calls with a bounded overhead \<open>J\<close>), \<open>names_sys\<close> (socket names of at most 106 characters),
    \<open>fd_sys\<close> and \<open>fd_frame_sys\<close> (the open descriptors, and the calls that leave them alone).
    RefKernel: a concrete kernel on which all of them hold; the witnesses run on it.
  \<^item> EventFd (LinxEventFd.cpp) and LinxQueue (LinxQueue.cpp): the queue, its waits against arbitrary
    schedules of the other threads, the abstract bounded selective \<open>mailbox\<close> that it refines, and the
    invariant that the eventfd counts its messages. QueueProps: the properties.
  \<^item> GenericSocket (GenericSocket.h): the interface of the sockets as a record, its contracts as the
    locales \<open>generic_socket\<close>, \<open>timed_socket\<close>, \<open>bounded_socket\<close>, \<open>evc_socket\<close>, \<open>owning_socket\<close>,
    \<open>frame_socket\<close>, and the common specification of the two \<open>receive\<close> functions. UnixSocket
    (AfUnixSocket.cpp) and UdpSocket (UdpSocket.cpp): the two classes, and the proof that they keep the
    contracts. SocketProps: their properties.
  \<^item> GenericClient (GenericClient.tpp, LinxClient.h) and GenericSimpleServer (GenericSimpleServer.tpp):
    the clients of the interface; what their loops return, drop and answer, and bounds on the time they
    take. ClientProps: the properties of the client.
  \<^item> GenericServer (GenericServer.tpp): the threaded server as a step relation that interleaves worker,
    user threads and environment; its invariants, its refinement of the mailbox, its end. ServerProps:
    the properties of both servers.
  \<^item> LinxIpcHandler (LinxIpcHandler.cpp, LinxServer.h): callbacks and responses, with the contract
    \<open>linx_server\<close>. Factories (AfUnixFactory.cpp, UdpFactory.cpp): construction and clean-up.
  \<^item> ServerLifecycle (GenericServer.tpp, destructor and \<open>stop\<close>): no step of a reachable state is undefined,
    what is left after a stop, and the descriptors from the factory to the destructor.
    ServerInterface: the threaded server keeps the contract \<open>linx_server\<close> of the handler.
  \<^item> StopRace (AfUnixSocket.cpp): \<open>receive\<close> and \<open>close\<close> once more, one system call at a time, in every
    interleaving of the worker with the thread that stops the server; without interference they are the
    atomic calls of UnixSocket. What a message received during the race can be.
  \<^item> PeerWorld: a client and its server on one reference kernel; the calls of the client, given what the
    server answers (locale \<open>embedded_kernel\<close>). RpcSystem: requests from \<open>sendReceive\<close> through the server
    (threaded or simple), the handler and its callbacks, and back.
  \<^item> EchoServer, EchoClient (examples/client-server-example/server.cpp, client.cpp): the two programs.
    The main thread of the server is interleaved with its worker, \<open>main\<close> of the client is a function on
    the kernel with the lines it prints. EchoSystem: the client runs on a kernel in which the server
    runs, too, from start-up to the exit code.
  \<^item> PackageExample (examples/package-example/simple_example.cpp): the two threads of the program.
  \<^item> Trace (trace.h, trace.cpp, LinxTrace.h): the macros, the level in force, and what is logged.
  \<^item> This theory: the properties of factories and handler, which span the other components.

  \<^bold>\<open>Bounds.\<close> No fuel is used. The time bounds of \<open>receive\<close> and \<open>connect\<close> count the system calls after the
  deadline has passed: six or seven overheads \<open>J\<close> for a \<open>receive\<close> (reading the clock, poll, the size
  query, the read, possibly the answer to a ping, and the clock again), nine and one ping time-out for
  \<open>connect\<close>. Clock readings are such that a deadline stays below \<open>time_point::max()\<close> (\<open>clock_ok\<close>).

  The composed systems (PeerWorld, RpcSystem, EchoSystem) let the server work off what has arrived
  whenever the client waits; this is one of the interleavings, the other theorems are about all of them.

  \<^bold>\<open>Not modelled.\<close> Data races on the descriptor field below the level of system calls (StopRace
  treats an access to the field as atomic, and everywhere else a socket call is), concurrent calls of \<open>start\<close> and \<open>stop\<close>, callbacks that register callbacks,
  stack exhaustion by the variable-length send buffer, the calls of the tracing macros inside the
  library (Trace models what such a call does), what \<open>server_app\<close> prints, the tests and the build files.
\<close>

section \<open>Factories\<close>

text \<open>
  C34. Every factory is exact about descriptors: when it fails, at whatever step, nothing is left open;
  when it succeeds, what it returns holds its socket and its event descriptor, which were not open
  before, and nothing else was opened or closed. Names of Unix sockets have at most 107 characters.
\<close>

theorem factory_descriptors:
  assumes "fd_sys S fds" and "length name \<le> 107" "length (''client_'' @ to_string rand @ ''_'' @ name) \<le> 107"
  shows "(\<exists>r. AfUnixFactory_createServer S obj name sz k = Some r \<and> descriptors_exact fds k (\<lambda>(_, st). unix_held st) r)
    \<and> (\<exists>r. AfUnixFactory_createSimpleServer S obj name k = Some r \<and> descriptors_exact fds k (\<lambda>(_, s). nonneg {us_fd s}) r)
    \<and> (\<exists>r. AfUnixFactory_createClient S obj rand name k = Some r \<and> descriptors_exact fds k (\<lambda>(_, s). nonneg {us_fd s}) r)
    \<and> (\<exists>r. UdpFactory_createServer S obj port sz k = Some r \<and> descriptors_exact fds k (\<lambda>(_, st). udp_held st) r)
    \<and> (\<exists>r. UdpFactory_createMulticastServer S obj ip port sz k = Some r \<and> descriptors_exact fds k (\<lambda>(_, st). udp_held st) r)
    \<and> (\<exists>r. UdpFactory_createSimpleServer S obj port k = Some r \<and> descriptors_exact fds k (\<lambda>(_, s). nonneg {udp_fd s}) r)
    \<and> (\<exists>r. UdpFactory_createClient S obj rand ip port k = Some r \<and> descriptors_exact fds k (\<lambda>(_, s). nonneg {udp_fd s}) r)"
  by (intro conjI unix_server_exact unix_simple_exact unix_client_exact udp_server_exact
      udp_multicast_exact udp_simple_exact udp_client_exact assms)

theorem factory_descriptors_witness:
  "\<exists>r. UdpFactory_createServer ref_sys 1 80 10 ref_init = Some r \<and> descriptors_exact ref_fds ref_init (\<lambda>(_, st). udp_held st) r"
  using factory_descriptors [OF ref_fd.fd_sys_axioms, where name = "''srv''" and rand = 5 and sz = 10 and port = 80
      and obj = 1 and k = ref_init]
  by (simp add: to_string.simps)

text \<open>
  What \<open>AfUnixFactory::createServer\<close> makes of its arguments: an idle server with an open socket,
  an event descriptor of its own and an empty queue. Its capacity is the requested one below \<open>2^31\<close>;
  above, the narrowing to \<open>int\<close> and the widening back make it that modulo \<open>2^32\<close>, or, when this is not
  below \<open>2^31\<close>, more than any queue can ever hold.
\<close>

theorem factory_server_ready:
  assumes "fd_sys S fds" and "length name \<le> 107"
    and "AfUnixFactory_createServer S obj name queueSize k = Some (Some (base, st), k')"
  shows "\<exists>ef. st = server_init (sv_socket st) (LinxQueue ef (to_int32 (int queueSize))) k'
    \<and> ss_serverId base = name \<and> 0 \<le> us_fd (sv_socket st) \<and> us_fd (sv_socket st) \<noteq> efd ef
    \<and> mb_capacity (mailbox_of (sv_queue st)) =
        (let n = queueSize mod 4294967296 in if n < 2147483648 then n else n + 18446744069414584320)"
proof -
  obtain r s k1 where o: "AfUnixSocket_open S (AfUnixSocket name) k = Some (r, s, k1)"
    and f: "if r < 0 then fds (AfUnixSocket_dtor S s k1) = fds k
     else 0 \<le> us_fd s \<and> us_fd s \<notin> fds k \<and> fds k1 = insert (us_fd s) (fds k)"
    using unix_open_fresh [OF assms(1,2)] by blast
  obtain ef k2 where e: "LinxEventFd S k1 = (ef, k2)" by fastforce
  have r: "0 \<le> r" and st: "st = server_init s (LinxQueue ef (to_int32 (int queueSize))) k'" "k' = k2" "ss_serverId base = name"
    using assms(3) o e
    by (auto simp: AfUnixFactory_createServer_def GenericServer_def GenericSimpleServer_def Let_def split: if_splits)
  have "us_fd s \<noteq> efd ef" using f r eventfd_fds [OF assms(1) e] by (auto split: if_splits)
  moreover have "to_size_t (to_int32 (int queueSize)) =
      (let n = queueSize mod 4294967296 in if n < 2147483648 then n else n + 18446744069414584320)"
    by (rule queue_capacity)
  ultimately show ?thesis using f r st
    by (auto simp: server_init_def LinxQueue_def mailbox_of_def)
qed

theorem factory_server_ready_witness:
  "\<exists>base st k'. AfUnixFactory_createServer ref_sys 1 ''srv'' 4294967296 ref_init = Some (Some (base, st), k')
    \<and> mb_capacity (mailbox_of (sv_queue st)) = 0"
proof -
  have "map_option fst (AfUnixSocket_open ref_sys (AfUnixSocket ''srv'') ref_init) = Some 0" by code_simp
  then obtain s k1 where "AfUnixSocket_open ref_sys (AfUnixSocket ''srv'') ref_init = Some (0, s, k1)" by auto
  moreover obtain ef k2 where "LinxEventFd ref_sys k1 = (ef, k2)" by fastforce
  ultimately obtain base st k' where r: "AfUnixFactory_createServer ref_sys 1 ''srv'' 4294967296 ref_init = Some (Some (base, st), k')"
    by (auto simp: AfUnixFactory_createServer_def GenericServer_def GenericSimpleServer_def)
  from factory_server_ready [OF ref_fd.fd_sys_axioms _ r] r show ?thesis by auto
qed

section \<open>Handler\<close>

text \<open>
  \<open>handleMessage\<close> after any sequence of registrations: without a message -1, a message whose id was
  never registered is taken and answered by 0, otherwise the callback of the last registration for its
  id, and no other, is called once with the message and the data of that registration, and its result
  is returned.
\<close>

theorem handler_dispatch:
  assumes "srv_receive server timeoutMs [] None w = Some (recvMsg, w1)"
  shows "handleMessage timeoutMs (registerAll regs (LinxIpcHandler server)) w =
    (case recvMsg of
       None \<Rightarrow> Some (- 1, w1)
     | Some msg \<Rightarrow>
         (case map_of (rev regs) (rm_reqId (lr_message msg)) of
            None \<Rightarrow> Some (0, w1)
          | Some (None, d) \<Rightarrow> None
          | Some (Some f, d) \<Rightarrow> f msg d w1))"
  using assms
  by (auto simp: handleMessage_def Handler_receive_def registerAll_server registerAll_handlers
      LinxIpcHandler_def LINX_ANY_SIG_def LINX_ANY_FROM_def Let_def split: option.splits)

theorem handler_dispatch_witness:
  "handleMessage 0 (registerAll [(7, Some (\<lambda>m d w. Some (1, w)), ()), (7, Some (\<lambda>m d w. Some (2, w)), ())]
      (LinxIpcHandler \<lparr>srv_receive = (\<lambda>t sg fr w. Some (Some (demo_msg 7), w)), srv_getPollFd = (\<lambda>w. 3),
        srv_start = (\<lambda>w. (True, w)), srv_stop = Some, srv_send = (\<lambda>m to w. Some (0, w)), srv_getName = ''s''\<rparr>)) ()
    = Some (2, ())"
  by (subst handler_dispatch [where recvMsg = "Some (demo_msg 7)" and ?w1.0 = "()"])
    (simp_all add: demo_msg_def RawMessage_def)

text \<open>
  Over either kind of socket, a message that the simple server hands to a handler is never a ping
  and can always be answered: \<open>sendResponse\<close> does not fail its assertion, and as long as the server
  object lives it sends the response through the server's socket to the identifier that the message
  came from.
\<close>

theorem handler_response:
  assumes "generic_socket V"
    and "Handler_receive timeoutMs sigsel fr (LinxIpcHandler (SimpleServer_ops V S self this)) (s, k) = Some (Some lr, s', k')"
    and "alive self = Some (SimpleServer_ops V S self this)"
  shows "rm_reqId (lr_message lr) \<noteq> IPC_PING_REQ
    \<and> (\<exists>i. lr_from lr = Some (so_upcast V i)
        \<and> sendResponse alive lr resp (s', k') = map_option (\<lambda>(r, k''). (r, s', k'')) (so_send V resp i s' k'))"
proof -
  obtain dl k1 where d: "Deadline_at S timeoutMs k = (dl, k1)" by fastforce
  from assms(2) d have "simple_receive_loop V S self sigsel fr dl None None s k1 = Some (Some lr, k')" "s' = s"
    by (auto simp: Handler_receive_def LinxIpcHandler_def SimpleServer_receive_def)
  from simple_loop_sound [OF this(1) assms(1) refl] obtain m i
    where "rm_reqId m \<noteq> IPC_PING_REQ" "lr = \<lparr>lr_message = m, lr_from = Some (so_upcast V i), lr_server = self\<rparr>" by blast
  then show ?thesis
    using assms(3) generic_socket.SimpleServer_send_upcast [OF assms(1)] by (auto simp: sendResponse_def)
qed

theorem handler_response_witness:
  "\<exists>s' k'. Handler_receive 50 [] None (LinxIpcHandler (SimpleServer_ops (AfUnixSocket_ops ref_sys LittleEndian) ref_sys 3
        \<lparr>ss_serverId = ''srv'', ss_socket = 1\<rparr>)) (demo_unix_socket, demo_two_kernel)
      = Some (Some \<lparr>lr_message = \<lparr>rm_reqId = 7, rm_payload = [1]\<rparr>, lr_from = Some (UnixId (UnixInfo ''cli'')), lr_server = 3\<rparr>, s', k')
    \<and> sendResponse (\<lambda>_. Some (SimpleServer_ops (AfUnixSocket_ops ref_sys LittleEndian) ref_sys 3
        \<lparr>ss_serverId = ''srv'', ss_socket = 1\<rparr>))
        \<lparr>lr_message = \<lparr>rm_reqId = 7, rm_payload = [1]\<rparr>, lr_from = Some (UnixId (UnixInfo ''cli'')), lr_server = 3\<rparr>
        (RawM (RawMessage 8)) (s', k')
      = map_option (\<lambda>(r, k''). (r, s', k'')) (AfUnixSocket_send ref_sys LittleEndian (RawM (RawMessage 8)) (UnixInfo ''cli'') s' k')"
proof -
  let ?V = "AfUnixSocket_ops ref_sys LittleEndian" and ?srv = "\<lparr>ss_serverId = ''srv'', ss_socket = 1\<rparr> :: generic_simple_server"
  let ?lr = "\<lparr>lr_message = \<lparr>rm_reqId = 7, rm_payload = [1]\<rparr>, lr_from = Some (UnixId (UnixInfo ''cli'')), lr_server = 3\<rparr>"
  obtain k' where "SimpleServer_receive ?V ref_sys 3 50 [] None demo_unix_socket demo_two_kernel = Some (Some ?lr, k')"
    using demo_simple_result by blast
  then have r: "Handler_receive 50 [] None (LinxIpcHandler (SimpleServer_ops ?V ref_sys 3 ?srv)) (demo_unix_socket, demo_two_kernel)
      = Some (Some ?lr, demo_unix_socket, k')"
    by (simp add: Handler_receive_def LinxIpcHandler_def)
  from handler_response [OF unix_socket.generic_socket_axioms r, of "\<lambda>_. Some (SimpleServer_ops ?V ref_sys 3 ?srv)"
      "RawM (RawMessage 8)"] r
  show ?thesis by auto
qed

end
